(* ===== verification/Prelude.thy ===== *)
theory Prelude
  imports Main "HOL-Library.Word" "HOL-Library.Monad_Syntax"
begin

text \<open>
  Shared vocabulary of the development: the machine types of \<^verbatim>\<open>stdint.h\<close>, the
  status codes of \<^verbatim>\<open>kernel/include/const.h\<close>, the model of a C \<^verbatim>\<open>for\<close> loop over
  a 64-bit counter and the word lemmas every component uses.

  A kernel operation that may not come back (it calls \<^verbatim>\<open>halt()\<close>, whose body ends in
  \<^verbatim>\<open>for(;;);\<close>, or it runs a loop that never ends) has an option result: \<open>None\<close> is
  "control never returns to the caller".
\<close>

unbundle bit_operations_syntax

type_synonym u8 = "8 word"
type_synonym u16 = "16 word"
type_synonym u32 = "32 word"
type_synonym u64 = "64 word"
type_synonym status = u8

abbreviation (input) SYS_OK :: status where "SYS_OK \<equiv> 1"
abbreviation (input) SYS_ERR :: status where "SYS_ERR \<equiv> 0"

named_theorems kdefs \<open>definitions of macros that proofs unfold freely\<close>

section \<open>Counted loops\<close>

text \<open>
  \<open>for_range i e d body s\<close> is the C loop
  \<^verbatim>\<open>for (uint64_t i = i0; i < e; i += d) body\<close> on state \<open>s\<close>: the comparison and the
  step are those of 64-bit unsigned words, so a bound near \<open>2 ^ 64\<close> wraps exactly as it
  does in C, and a loop that never reaches its bound is \<open>None\<close>.
\<close>

partial_function (option) for_range ::
  "u64 \<Rightarrow> u64 \<Rightarrow> u64 \<Rightarrow> (u64 \<Rightarrow> 's \<Rightarrow> 's option) \<Rightarrow> 's \<Rightarrow> 's option" where
  "for_range i e d body s =
     (if i < e then Option.bind (body i s) (\<lambda>s'. for_range (i + d) e d body s') else Some s)"

lemma for_range_done: "\<not> i < e \<Longrightarrow> for_range i e d body s = Some s"
  by (subst for_range.simps) simp

lemma for_range_step:
  "i < e \<Longrightarrow> body i s = Some s' \<Longrightarrow> for_range i e d body s = for_range (i + d) e d body s'"
  by (subst for_range.simps) simp

lemma for_range_stop: "i < e \<Longrightarrow> body i s = None \<Longrightarrow> for_range i e d body s = None"
  by (subst for_range.simps) simp

lemma for_range_invariant:
  assumes ret: "for_range a e d body s = Some t"
    and step: "\<And>i s s'. I s \<Longrightarrow> body i s = Some s' \<Longrightarrow> I s'"
    and init: "I s"
  shows "I t"
proof -
  have "(\<forall>i s s'. I s \<longrightarrow> body i s = Some s' \<longrightarrow> I s') \<longrightarrow> I s \<longrightarrow> I t"
  proof (rule for_range.raw_induct [where P = "\<lambda>a e d body s t.
      (\<forall>i s s'. I s \<longrightarrow> body i s = Some s' \<longrightarrow> I s') \<longrightarrow> I s \<longrightarrow> I t", OF _ ret])
    fix f :: "u64 \<Rightarrow> u64 \<Rightarrow> u64 \<Rightarrow> (u64 \<Rightarrow> 'a \<Rightarrow> 'a option) \<Rightarrow> 'a \<Rightarrow> 'a option"
    fix i e d body s t
    assume IH: "\<And>i e d body s t. f i e d body s = Some t \<Longrightarrow>
        (\<forall>i s s'. I s \<longrightarrow> body i s = Some s' \<longrightarrow> I s') \<longrightarrow> I s \<longrightarrow> I t"
      and eq: "(if i < e then Option.bind (body i s) (\<lambda>s'. f (i + d) e d body s') else Some s) = Some t"
    show "(\<forall>i s s'. I s \<longrightarrow> body i s = Some s' \<longrightarrow> I s') \<longrightarrow> I s \<longrightarrow> I t"
    proof (cases "i < e")
      case True
      with eq obtain s' where s': "body i s = Some s'" "f (i + d) e d body s' = Some t"
        by (auto simp: bind_eq_Some_conv)
      from IH [OF s'(2)] s'(1) show ?thesis by metis
    next
      case False
      with eq show ?thesis by simp
    qed
  qed
  with step init show ?thesis by blast
qed

text \<open>
  A loop whose body may \<^verbatim>\<open>return\<close>: the body yields \<open>Some r\<close> to leave the
  enclosing function with \<open>r\<close>, or \<open>None\<close> to go on.
\<close>

partial_function (option) for_return ::
  "u64 \<Rightarrow> u64 \<Rightarrow> u64 \<Rightarrow> (u64 \<Rightarrow> 's \<Rightarrow> ('r option \<times> 's) option) \<Rightarrow> 's \<Rightarrow> ('r option \<times> 's) option" where
  "for_return i e d body s =
     (if i < e
      then Option.bind (body i s)
             (\<lambda>(r, s'). case r of None \<Rightarrow> for_return (i + d) e d body s' | Some v \<Rightarrow> Some (Some v, s'))
      else Some (None, s))"

text \<open>
  The number of times the body runs: \<open>iterates a e d n\<close> says that the counter, starting at
  \<open>a\<close>, stays below \<open>e\<close> for exactly \<open>n\<close> steps and does not wrap on the way out.
\<close>

definition iterates :: "u64 \<Rightarrow> u64 \<Rightarrow> u64 \<Rightarrow> nat \<Rightarrow> bool" where
  "iterates a e d n \<longleftrightarrow> unat e \<le> unat a + n * unat d \<and> unat a + n * unat d < 2 ^ 64 \<and>
     (n = 0 \<or> unat a + (n - 1) * unat d < unat e)"

lemma unat_lt64: "unat (x :: u64) < 2 ^ 64"
  using unsigned_less [of x] by simp

lemma unat_step:
  fixes a d :: u64
  assumes "unat a + k * unat d < 2 ^ 64"
  shows "unat (a + of_nat k * d) = unat a + k * unat d"
proof -
  have "a + of_nat k * d = of_nat (unat a + k * unat d)" by simp
  then show ?thesis using assms by (simp only: unat_of_nat) simp
qed

lemma iterates_less:
  assumes "iterates a e d n" and "k < n"
  shows "a + of_nat k * d < e" and "unat (a + of_nat k * d) = unat a + k * unat d"
proof -
  from assms(2) have "k * unat d \<le> (n - 1) * unat d" and "n \<noteq> 0"
    by (auto intro: mult_le_mono1)
  then have "unat a + k * unat d \<le> unat a + (n - 1) * unat d" by linarith
  also have "\<dots> < unat e" using assms(1) \<open>n \<noteq> 0\<close> by (simp add: iterates_def)
  finally have less: "unat a + k * unat d < unat e" .
  then have "unat a + k * unat d < 2 ^ 64" by (rule less_trans) (rule unat_lt64)
  then show eq: "unat (a + of_nat k * d) = unat a + k * unat d" by (rule unat_step)
  show "a + of_nat k * d < e" using less eq by (simp add: word_less_nat_alt)
qed

lemma iterates_exit:
  assumes "iterates a e d n"
  shows "\<not> a + of_nat n * d < e"
  using assms by (auto simp: iterates_def word_less_nat_alt unat_step)

lemma iterates_exact:
  "0 < unat d \<Longrightarrow> unat a + n * unat d < 2 ^ 64 \<Longrightarrow> unat e = unat a + n * unat d \<Longrightarrow> iterates a e d n"
  by (cases n) (auto simp: iterates_def)

text \<open>Total correctness of a loop: an invariant indexed by the number of iterations.\<close>

lemma for_range_rule:
  assumes it: "iterates a e d n"
    and step: "\<And>k s. k < n \<Longrightarrow> I k s \<Longrightarrow> \<exists>s'. body (a + of_nat k * d) s = Some s' \<and> I (Suc k) s'"
    and init: "I 0 s"
  shows "\<exists>s'. for_range a e d body s = Some s' \<and> I n s'"
proof -
  have "\<exists>s'. for_range (a + of_nat k * d) e d body s = Some s' \<and> I n s'" if "k \<le> n" "I k s" for k s
    using that
  proof (induction "n - k" arbitrary: k s)
    case 0
    then show ?case using iterates_exit [OF it] by (auto simp: for_range_done)
  next
    case (Suc m)
    then have "k < n" by simp
    with step Suc.prems(2) obtain s' where s': "body (a + of_nat k * d) s = Some s'" "I (Suc k) s'"
      by blast
    have "for_range (a + of_nat k * d) e d body s = for_range (a + of_nat (Suc k) * d) e d body s'"
      using for_range_step [where body = body, OF iterates_less(1) [OF it \<open>k < n\<close>] s'(1)]
      by (simp add: algebra_simps)
    moreover have "\<exists>t. for_range (a + of_nat (Suc k) * d) e d body s' = Some t \<and> I n t"
      using Suc.hyps(1) [of "Suc k" s'] Suc.hyps(2) \<open>k < n\<close> s'(2) by simp
    ultimately show ?case by simp
  qed
  from this [of 0 s] init show ?thesis by simp
qed

lemma for_return_none:
  assumes it: "iterates a e d n"
    and go: "\<And>k. k < n \<Longrightarrow> body (a + of_nat k * d) s = Some (None, s)"
  shows "for_return a e d body s = Some (None, s)"
proof -
  have "for_return (a + of_nat k * d) e d body s = Some (None, s)" if "k \<le> n" for k
    using that
  proof (induction "n - k" arbitrary: k)
    case 0
    then show ?case using iterates_exit [OF it] by (subst for_return.simps) simp
  next
    case (Suc m)
    then have "k < n" by simp
    with Suc.hyps(1) [of "Suc k"] Suc.hyps(2) have
      "for_return (a + of_nat k * d + d) e d body s = Some (None, s)"
      by (simp add: algebra_simps)
    then show ?case
      by (subst for_return.simps) (simp add: iterates_less(1) [OF it \<open>k < n\<close>] go \<open>k < n\<close>)
  qed
  from this [of 0] show ?thesis by simp
qed

lemma for_return_some:
  assumes it: "iterates a e d n" and m: "m < n"
    and go: "\<And>k. k < m \<Longrightarrow> body (a + of_nat k * d) s = Some (None, s)"
    and ret: "body (a + of_nat m * d) s = Some (Some r, s')"
  shows "for_return a e d body s = Some (Some r, s')"
proof -
  have "for_return (a + of_nat k * d) e d body s = Some (Some r, s')" if "k \<le> m" for k
    using that
  proof (induction "m - k" arbitrary: k)
    case 0
    then show ?case using iterates_less(1) [OF it m] ret by (subst for_return.simps) simp
  next
    case (Suc j)
    then have "k < m" by simp
    with Suc.hyps(1) [of "Suc k"] Suc.hyps(2) have
      "for_return (a + of_nat k * d + d) e d body s = Some (Some r, s')"
      by (simp add: algebra_simps)
    moreover have "a + of_nat k * d < e" using iterates_less(1) [OF it] \<open>k < m\<close> m by simp
    ultimately show ?case
      by (subst for_return.simps) (simp add: go \<open>k < m\<close>)
  qed
  from this [of 0] show ?thesis by simp
qed

lemma for_return_invariant:
  fixes body :: "u64 \<Rightarrow> 's \<Rightarrow> ('r option \<times> 's) option"
  assumes ret: "for_return a e d body s = Some (r, t)"
    and step: "\<And>i s r s'. I s \<Longrightarrow> body i s = Some (r, s') \<Longrightarrow> I s'"
    and init: "I s"
  shows "I t"
proof -
  have "(\<forall>i s r s'. I s \<longrightarrow> body i s = Some (r, s') \<longrightarrow> I s') \<longrightarrow> I s \<longrightarrow> I (snd (r, t))"
  proof (rule for_return.raw_induct [where P = "\<lambda>a e d body s rt.
      (\<forall>i s r s'. I s \<longrightarrow> body i s = Some (r, s') \<longrightarrow> I s') \<longrightarrow> I s \<longrightarrow> I (snd rt)", OF _ ret])
    fix f :: "u64 \<Rightarrow> u64 \<Rightarrow> u64 \<Rightarrow> (u64 \<Rightarrow> 's \<Rightarrow> ('r option \<times> 's) option) \<Rightarrow> 's \<Rightarrow> ('r option \<times> 's) option"
    fix i e d body s rt
    assume IH: "\<And>i e d body s rt. f i e d body s = Some rt \<Longrightarrow>
        (\<forall>i s r s'. I s \<longrightarrow> body i s = Some (r, s') \<longrightarrow> I s') \<longrightarrow> I s \<longrightarrow> I (snd rt)"
      and eq: "(if i < e
      then Option.bind (body i s)
             (\<lambda>(r, s'). case r of None \<Rightarrow> f (i + d) e d body s' | Some v \<Rightarrow> Some (Some v, s'))
      else Some (None, s)) = Some rt"
    show "(\<forall>i s r s'. I s \<longrightarrow> body i s = Some (r, s') \<longrightarrow> I s') \<longrightarrow> I s \<longrightarrow> I (snd rt)"
    proof (cases "i < e")
      case True
      with eq obtain r s' where s': "body i s = Some (r, s')"
        "(case r of None \<Rightarrow> f (i + d) e d body s' | Some v \<Rightarrow> Some (Some v, s')) = Some rt"
        by (auto simp: bind_eq_Some_conv)
      show ?thesis
      proof (cases r)
        case None
        with IH [of "i + d" e d body s' rt] s' show ?thesis by auto
      next
        case (Some v)
        with s' show ?thesis by auto
      qed
    next
      case False
      with eq show ?thesis by auto
    qed
  qed
  with step init show ?thesis by auto
qed

text \<open>Partial correctness of a loop that may stop the machine.\<close>

lemma for_range_partial:
  assumes it: "iterates a e d n"
    and step: "\<And>k s s'. k < n \<Longrightarrow> I k s \<Longrightarrow> body (a + of_nat k * d) s = Some s' \<Longrightarrow> I (Suc k) s'"
    and init: "I 0 s" and ret: "for_range a e d body s = Some t"
  shows "I n t"
proof -
  have "for_range (a + of_nat k * d) e d body s = Some t \<Longrightarrow> I n t" if "k \<le> n" "I k s" for k s
    using that
  proof (induction "n - k" arbitrary: k s)
    case 0
    then show ?case using iterates_exit [OF it] by (auto simp: for_range_done)
  next
    case (Suc m)
    then have "k < n" by simp
    note lt = iterates_less(1) [OF it \<open>k < n\<close>]
    from Suc.prems(1) obtain s' where s': "body (a + of_nat k * d) s = Some s'"
      using for_range_stop [OF lt, of body s] by (cases "body (a + of_nat k * d) s") auto
    have "I (Suc k) s'" by (rule step [OF \<open>k < n\<close> Suc.prems(3) s'])
    moreover have "for_range (a + of_nat (Suc k) * d) e d body s' = Some t"
      using for_range_step [where body = body, OF lt s'] Suc.prems(1) by (simp add: algebra_simps)
    ultimately show ?case using Suc.hyps(1) [of "Suc k" s'] Suc.hyps(2) \<open>k < n\<close> by simp
  qed
  from this [of 0 s] init ret show ?thesis by simp
qed

end
