(* ===== verification/Byte_Memory.thy ===== *)
theory Byte_Memory
  imports Prelude
begin

text \<open>
  The address space as a byte array and the routines of \<^verbatim>\<open>kernel/src/common/memory.c\<close>
  and \<^verbatim>\<open>kernel/src/common/string.c\<close> over it. A pointer is a 64-bit word; the memory is
  total, so what the model says is about accesses that do not fault. Multi-byte loads and
  stores are little-endian, as the compiler's are on x86-64.

  The routines return their first argument in C; the model returns the memory they leave.
\<close>

type_synonym mem = "u64 \<Rightarrow> u8"

definition in_range :: "u64 \<Rightarrow> nat \<Rightarrow> u64 \<Rightarrow> bool" where
  "in_range p n a \<longleftrightarrow> unat (a - p) < n"

definition disjoint_ranges :: "u64 \<Rightarrow> nat \<Rightarrow> u64 \<Rightarrow> nat \<Rightarrow> bool" where
  "disjoint_ranges p n q k \<longleftrightarrow> n \<le> unat (q - p) \<and> k \<le> unat (p - q)"

section \<open>memory.c\<close>

primrec memcpy_upto :: "nat \<Rightarrow> u64 \<Rightarrow> u64 \<Rightarrow> mem \<Rightarrow> mem" where
  "memcpy_upto 0 dst src m = m"
| "memcpy_upto (Suc i) dst src m =
     (let m' = memcpy_upto i dst src m in m'(dst + of_nat i := m' (src + of_nat i)))"

definition memcpy :: "u64 \<Rightarrow> u64 \<Rightarrow> u64 \<Rightarrow> mem \<Rightarrow> mem" where
  "memcpy dst src num m = memcpy_upto (unat num) dst src m"

primrec memset_upto :: "nat \<Rightarrow> u64 \<Rightarrow> u8 \<Rightarrow> mem \<Rightarrow> mem" where
  "memset_upto 0 p v m = m"
| "memset_upto (Suc i) p v m = (memset_upto i p v m)(p + of_nat i := v)"

definition memset :: "u64 \<Rightarrow> int \<Rightarrow> u64 \<Rightarrow> mem \<Rightarrow> mem" where
  "memset p value num m = memset_upto (unat num) p (of_int value) m"

function memcmp_from :: "nat \<Rightarrow> nat \<Rightarrow> u64 \<Rightarrow> u64 \<Rightarrow> mem \<Rightarrow> int" where
  "memcmp_from i num p q m =
     (if i < num
      then if m (p + of_nat i) \<noteq> m (q + of_nat i) then 1 else memcmp_from (Suc i) num p q m
      else 0)"
  by pat_completeness auto
termination by (relation "measure (\<lambda>(i, num, _). num - i)") auto

declare memcmp_from.simps [simp del]

definition memcmp :: "u64 \<Rightarrow> u64 \<Rightarrow> u64 \<Rightarrow> mem \<Rightarrow> int" where
  "memcmp p q num m = memcmp_from 0 (unat num) p q m"

primrec move_down :: "nat \<Rightarrow> u64 \<Rightarrow> u64 \<Rightarrow> mem \<Rightarrow> mem" where
  "move_down 0 dest src m = m"
| "move_down (Suc i) dest src m =
     move_down i dest src (m(dest + of_nat i := m (src + of_nat i)))"

definition memmove :: "u64 \<Rightarrow> u64 \<Rightarrow> u64 \<Rightarrow> mem \<Rightarrow> mem" where
  "memmove dest src n m =
     (if dest < src then memcpy_upto (unat n) dest src m
      else if src < dest then move_down (unat n) dest src m
      else m)"

section \<open>string.c\<close>

text \<open>\<open>copied\<close> is how far the first loop of \<^verbatim>\<open>strncpy\<close> gets: to \<open>num\<close> or to the source's
  terminator. The second loop pads with zeros up to \<open>num\<close>.\<close>

function strncpy_copy :: "nat \<Rightarrow> nat \<Rightarrow> u64 \<Rightarrow> u64 \<Rightarrow> mem \<Rightarrow> nat \<times> mem" where
  "strncpy_copy i num dest src m =
     (if i < num \<and> m (src + of_nat i) \<noteq> 0
      then strncpy_copy (Suc i) num dest src (m(dest + of_nat i := m (src + of_nat i)))
      else (i, m))"
  by pat_completeness auto
termination by (relation "measure (\<lambda>(i, num, _). num - i)") auto

function strncpy_pad :: "nat \<Rightarrow> nat \<Rightarrow> u64 \<Rightarrow> mem \<Rightarrow> mem" where
  "strncpy_pad i num dest m =
     (if i < num then strncpy_pad (Suc i) num dest (m(dest + of_nat i := 0)) else m)"
  by pat_completeness auto
termination by (relation "measure (\<lambda>(i, num, _). num - i)") auto

declare strncpy_copy.simps [simp del] strncpy_pad.simps [simp del]

definition strncpy :: "u64 \<Rightarrow> u64 \<Rightarrow> u64 \<Rightarrow> mem \<Rightarrow> mem" where
  "strncpy dest src num m =
     (if dest = 0 then m
      else case strncpy_copy 0 (unat num) dest src m of
        (i, m') \<Rightarrow> strncpy_pad i (unat num) dest m')"

text \<open>\<^verbatim>\<open>strlen\<close> walks to the first zero byte; without one it never returns.\<close>

partial_function (option) strlen_from :: "u64 \<Rightarrow> mem \<Rightarrow> u64 option" where
  "strlen_from s m = (if m s \<noteq> 0 then strlen_from (s + 1) m else Some s)"

definition strlen :: "u64 \<Rightarrow> mem \<Rightarrow> u64 option" where
  "strlen str m = map_option (\<lambda>s. s - str) (strlen_from str m)"

section \<open>Multi-byte accesses\<close>

primrec load_le :: "nat \<Rightarrow> u64 \<Rightarrow> mem \<Rightarrow> u64" where
  "load_le 0 a m = 0"
| "load_le (Suc n) a m = ucast (m a) OR push_bit 8 (load_le n (a + 1) m)"

primrec store_le :: "nat \<Rightarrow> u64 \<Rightarrow> u64 \<Rightarrow> mem \<Rightarrow> mem" where
  "store_le 0 a v m = m"
| "store_le (Suc n) a v m = store_le n (a + 1) (drop_bit 8 v) (m(a := ucast v))"

abbreviation load64 :: "u64 \<Rightarrow> mem \<Rightarrow> u64" where "load64 a m \<equiv> load_le 8 a m"
abbreviation store64 :: "u64 \<Rightarrow> u64 \<Rightarrow> mem \<Rightarrow> mem" where "store64 a v m \<equiv> store_le 8 a v m"

definition load32 :: "u64 \<Rightarrow> mem \<Rightarrow> u32" where
  "load32 a m = ucast (load_le 4 a m)"

definition store32 :: "u64 \<Rightarrow> u32 \<Rightarrow> mem \<Rightarrow> mem" where
  "store32 a v m = store_le 4 a (ucast v) m"

section \<open>Address ranges\<close>

lemma in_range_0 [simp]: "\<not> in_range p 0 a"
  by (simp add: in_range_def)

lemma in_range_start [simp]: "in_range p n p \<longleftrightarrow> 0 < n"
  by (simp add: in_range_def)

lemma in_range_mono: "in_range p n a \<Longrightarrow> n \<le> k \<Longrightarrow> in_range p k a"
  by (simp add: in_range_def)

lemma unat_of_nat64: "i < 2 ^ 64 \<Longrightarrow> unat (of_nat i :: u64) = i"
  by (simp add: unat_of_nat)

lemma offset_eq_iff: "i < 2 ^ 64 \<Longrightarrow> unat (a - p) = i \<longleftrightarrow> a = p + of_nat i" for p :: u64
  by (auto simp: unat_of_nat64)

lemma in_range_Suc: "i < 2 ^ 64 \<Longrightarrow> in_range p (Suc i) a \<longleftrightarrow> in_range p i a \<or> a = p + of_nat i"
  using offset_eq_iff [of i a p] by (auto simp: in_range_def less_Suc_eq)

lemma in_range_offset [simp]: "i < 2 ^ 64 \<Longrightarrow> in_range p n (p + of_nat i) \<longleftrightarrow> i < n"
  by (simp add: in_range_def unat_of_nat64)

lemma in_rangeE:
  assumes "in_range p n a"
  obtains i where "i < n" and "i < 2 ^ 64" and "a = p + of_nat i"
proof
  show "unat (a - p) < n" using assms by (simp add: in_range_def)
  show "unat (a - p) < 2 ^ 64" by (rule unat_lt64)
  show "a = p + of_nat (unat (a - p))" by simp
qed

lemma unat_diff_le:
  fixes x y :: u64
  shows "unat (x - y) \<le> unat x \<or> unat (y - x) \<le> unat y"
  by (simp add: unat_sub_if')

lemma disjoint_rangesD:
  assumes "disjoint_ranges p n q k" and "in_range p n a"
  shows "\<not> in_range q k a"
proof
  assume "in_range q k a"
  with assms have "unat (a - p) < unat ((a - p) - (a - q))" "unat (a - q) < unat ((a - q) - (a - p))"
    by (auto simp: in_range_def disjoint_ranges_def)
  with unat_diff_le [of "a - p" "a - q"] show False by linarith
qed

lemma disjoint_ranges_sym: "disjoint_ranges p n q k \<longleftrightarrow> disjoint_ranges q k p n"
  by (auto simp: disjoint_ranges_def)

section \<open>What the routines leave in memory\<close>

lemma memset_upto_apply:
  "n \<le> 2 ^ 64 \<Longrightarrow> memset_upto n p v m a = (if in_range p n a then v else m a)"
  by (induction n) (auto simp: in_range_Suc)

lemma memset_apply:
  "memset p v num m a = (if in_range p (unat num) a then of_int v else m a)"
  using unat_lt64 [of num] by (simp add: memset_def memset_upto_apply)

text \<open>The forward copy is right when no byte is overwritten before it is read.\<close>

lemma memcpy_upto_apply:
  assumes "unat (src - dst) + n \<le> 2 ^ 64"
  shows "memcpy_upto n dst src m a = (if in_range dst n a then m (src + (a - dst)) else m a)"
  using assms
proof (induction n arbitrary: a)
  case 0
  then show ?case by simp
next
  case (Suc n)
  have "\<not> in_range dst n (src + of_nat n)"
  proof -
    have "src + of_nat n - dst = (src - dst) + of_nat n" by simp
    moreover have "unat ((src - dst) + of_nat n) = unat (src - dst) + n"
      using unat_step [of "src - dst" n 1] Suc.prems by simp
    ultimately show ?thesis by (simp only: in_range_def)
  qed
  moreover have "n < 2 ^ 64" using Suc.prems by simp
  ultimately show ?case using Suc.IH Suc.prems by (auto simp: in_range_Suc Let_def)
qed

lemma move_down_apply:
  assumes "n \<le> unat (src - dst)" and "n \<le> 2 ^ 64"
  shows "move_down n dst src m a = (if in_range dst n a then m (src + (a - dst)) else m a)"
  using assms
proof (induction n arbitrary: m)
  case 0
  then show ?case by simp
next
  case (Suc n)
  let ?m = "m(dst + of_nat n := m (src + of_nat n))"
  have n: "n < 2 ^ 64" using Suc.prems by simp
  have keep: "?m (src + (a - dst)) = m (src + (a - dst))" if "in_range dst n a"
  proof -
    have "src + (a - dst) \<noteq> dst + of_nat n"
    proof
      assume "src + (a - dst) = dst + of_nat n"
      then have eq: "of_nat n - (a - dst) = src - dst" by (simp add: algebra_simps)
      have "unat (of_nat n - (a - dst)) \<le> n"
        using that n by (simp add: in_range_def unat_sub_if' unat_of_nat64)
      then show False using Suc.prems(1) eq by simp
    qed
    then show ?thesis by simp
  qed
  have "move_down n dst src ?m a = (if in_range dst n a then ?m (src + (a - dst)) else ?m a)"
    by (rule Suc.IH) (use Suc.prems in auto)
  then show ?case using keep n by (auto simp: in_range_Suc)
qed

lemma memcpy_apply:
  "unat (src - dst) + unat num \<le> 2 ^ 64 \<Longrightarrow>
   memcpy dst src num m a = (if in_range dst (unat num) a then m (src + (a - dst)) else m a)"
  by (simp add: memcpy_def memcpy_upto_apply)

lemma memmove_apply:
  assumes "unat dest + unat n \<le> 2 ^ 64" and "unat src + unat n \<le> 2 ^ 64"
  shows "memmove dest src n m a = (if in_range dest (unat n) a then m (src + (a - dest)) else m a)"
proof (cases src dest rule: linorder_cases)
  case equal
  then show ?thesis by (simp add: memmove_def)
next
  case less
  then have "unat n \<le> unat (src - dest)"
    using assms(1) unat_lt64 [of dest] by (auto simp: unat_sub_if' word_less_nat_alt)
  then show ?thesis
    using less unat_lt64 [of n] by (auto simp: memmove_def move_down_apply)
next
  case greater
  then have "unat (src - dest) + unat n \<le> 2 ^ 64"
    using assms(2) by (auto simp: unat_sub_if' word_less_nat_alt)
  then show ?thesis using greater by (simp add: memmove_def memcpy_upto_apply)
qed

lemma memcmp_from_eq:
  "memcmp_from i num p q m = (if \<exists>k. i \<le> k \<and> k < num \<and> m (p + of_nat k) \<noteq> m (q + of_nat k) then 1 else 0)"
proof (induction i num p q m rule: memcmp_from.induct)
  case (1 i num p q m)
  show ?case
  proof (cases "i < num \<and> m (p + of_nat i) = m (q + of_nat i)")
    case True
    with "1.IH" show ?thesis
      by (subst memcmp_from.simps) (auto, metis not_less_eq_eq le_antisym)
  next
    case False
    then show ?thesis by (subst memcmp_from.simps) auto
  qed
qed

lemma memcmp_zero_iff:
  "memcmp p q num m = 0 \<longleftrightarrow> (\<forall>k < unat num. m (p + of_nat k) = m (q + of_nat k))"
  by (auto simp: memcmp_def memcmp_from_eq)

lemma memcmp_range: "memcmp p q num m \<in> {0, 1}"
  by (simp add: memcmp_def memcmp_from_eq)

text \<open>\<open>c_len m s n\<close>: the string at \<open>s\<close>, cut at \<open>n\<close> bytes, has this many bytes before its terminator.\<close>

definition c_len :: "mem \<Rightarrow> u64 \<Rightarrow> nat \<Rightarrow> nat" where
  "c_len m s n = length (takeWhile (\<lambda>k. m (s + of_nat k) \<noteq> 0) [0..<n])"

lemma c_len_eqI:
  assumes "j \<le> n" and "\<And>k. k < j \<Longrightarrow> m (s + of_nat k) \<noteq> 0" and "j < n \<Longrightarrow> m (s + of_nat j) = 0"
  shows "c_len m s n = j"
proof -
  have "takeWhile (\<lambda>k. m (s + of_nat k) \<noteq> 0) [0..<n] = take j [0..<n]"
    by (rule takeWhile_eq_take_P_nth) (use assms in auto)
  with assms(1) show ?thesis by (simp add: c_len_def)
qed

lemma strncpy_copy_spec:
  assumes "strncpy_copy i num dest src m = (j, m')" and "i \<le> num"
    and "unat (src - dest) + num \<le> 2 ^ 64"
  shows "i \<le> j \<and> j \<le> num \<and> (\<forall>k. i \<le> k \<and> k < j \<longrightarrow> m (src + of_nat k) \<noteq> 0) \<and>
    (j < num \<longrightarrow> m (src + of_nat j) = 0) \<and>
    (\<forall>a. m' a = (if i \<le> unat (a - dest) \<and> unat (a - dest) < j then m (src + (a - dest)) else m a))"
  using assms
proof (induction i num dest src m rule: strncpy_copy.induct)
  case (1 i num dest src m)
  show ?case
  proof (cases "i < num \<and> m (src + of_nat i) \<noteq> 0")
    case False
    with "1.prems" show ?thesis by (auto simp: strncpy_copy.simps)
  next
    case True
    let ?m = "m(dest + of_nat i := m (src + of_nat i))"
    have ret: "strncpy_copy (Suc i) num dest src ?m = (j, m')"
      using True "1.prems"(1) by (subst (asm) strncpy_copy.simps) simp
    have away: "src + of_nat k \<noteq> dest + of_nat i" if "i < k" "k < num" for k
    proof
      assume "src + of_nat k = dest + of_nat i"
      then have "(src - dest) + of_nat k = of_nat i" by (simp add: algebra_simps)
      moreover have "unat ((src - dest) + of_nat k) = unat (src - dest) + k"
        using unat_step [of "src - dest" k 1] "1.prems"(3) that by simp
      ultimately show False using that "1.prems"(3) by (simp add: unat_of_nat64)
    qed
    note IH = "1.IH" [OF True ret _ "1.prems"(3)]
    have j: "Suc i \<le> j" "j \<le> num" and
      nz: "\<And>k. Suc i \<le> k \<Longrightarrow> k < j \<Longrightarrow> ?m (src + of_nat k) \<noteq> 0" and
      z: "j < num \<Longrightarrow> ?m (src + of_nat j) = 0" and
      val: "\<And>a. m' a = (if Suc i \<le> unat (a - dest) \<and> unat (a - dest) < j
                    then ?m (src + (a - dest)) else ?m a)"
      using IH True by auto
    have "m' a = (if i \<le> unat (a - dest) \<and> unat (a - dest) < j then m (src + (a - dest)) else m a)" for a
    proof (cases "unat (a - dest) = i")
      case at: True
      then have "a = dest + of_nat i" using True "1.prems"(3) by (simp add: offset_eq_iff)
      with at j show ?thesis by (simp add: val)
    next
      case False
      then have "a \<noteq> dest + of_nat i" using True "1.prems"(3) by (auto simp: unat_of_nat64)
      moreover have "?m (src + (a - dest)) = m (src + (a - dest))"
        if "Suc i \<le> unat (a - dest)" "unat (a - dest) < j"
        using away [of "unat (a - dest)"] that j by simp
      ultimately show ?thesis using False by (auto simp: val)
    qed
    moreover have "m (src + of_nat k) \<noteq> 0" if "i \<le> k" "k < j" for k
      using nz [of k] away [of k] that True j by (cases "k = i") auto
    moreover have "m (src + of_nat j) = 0" if "j < num"
      using z [OF that] away [of j] that j by auto
    ultimately show ?thesis using j by auto
  qed
qed

lemma strncpy_pad_apply:
  "num \<le> 2 ^ 64 \<Longrightarrow> strncpy_pad i num dest m a =
     (if i \<le> unat (a - dest) \<and> unat (a - dest) < num then 0 else m a)"
proof (induction i num dest m rule: strncpy_pad.induct)
  case (1 i num dest m)
  show ?case
  proof (cases "i < num")
    case True
    let ?m = "m(dest + of_nat i := 0)"
    have at: "unat (a - dest) = i \<longleftrightarrow> a = dest + of_nat i" using True "1.prems" by (simp add: offset_eq_iff)
    have "strncpy_pad (Suc i) num dest ?m a =
        (if Suc i \<le> unat (a - dest) \<and> unat (a - dest) < num then 0 else ?m a)"
      by (rule "1.IH" [OF True "1.prems"])
    then show ?thesis using True at by (subst strncpy_pad.simps) auto
  next
    case False
    then show ?thesis by (subst strncpy_pad.simps) auto
  qed
qed

lemma strncpy_apply:
  assumes "unat (src - dest) + unat num \<le> 2 ^ 64" and "dest \<noteq> 0"
  shows "strncpy dest src num m a =
    (if in_range dest (unat num) a
     then if unat (a - dest) < c_len m src (unat num) then m (src + (a - dest)) else 0
     else m a)"
proof -
  obtain j m' where c: "strncpy_copy 0 (unat num) dest src m = (j, m')" by fastforce
  from strncpy_copy_spec [OF c _ assms(1)] have j: "j \<le> unat num"
    "\<And>k. k < j \<Longrightarrow> m (src + of_nat k) \<noteq> 0" "j < unat num \<Longrightarrow> m (src + of_nat j) = 0"
    and m': "\<And>a. m' a = (if unat (a - dest) < j then m (src + (a - dest)) else m a)"
    by auto
  from j have "c_len m src (unat num) = j" by (rule c_len_eqI)
  then show ?thesis
    using assms(2) c j(1) m' unat_lt64 [of num]
    by (auto simp: strncpy_def strncpy_pad_apply in_range_def)
qed

text \<open>\<open>strlen\<close>: the distance to the first zero byte, or no return at all.\<close>

lemma strncpy_copy_outside:
  "strncpy_copy i num dest src m = (j, m') \<Longrightarrow> i \<le> num \<Longrightarrow> num \<le> 2 ^ 64 \<Longrightarrow>
   j \<le> num \<and> (\<forall>a. \<not> in_range dest num a \<longrightarrow> m' a = m a)"
proof (induction i num dest src m arbitrary: j m' rule: strncpy_copy.induct)
  case (1 i num dest src m)
  show ?case
  proof (cases "i < num \<and> m (src + of_nat i) \<noteq> 0")
    case True
    let ?m = "m(dest + of_nat i := m (src + of_nat i))"
    have "strncpy_copy (Suc i) num dest src ?m = (j, m')"
      using 1(2) True by (subst (asm) strncpy_copy.simps) simp
    from 1(1) [OF True this] True 1(4)
    have "j \<le> num \<and> (\<forall>a. \<not> in_range dest num a \<longrightarrow> m' a = ?m a)" by simp
    moreover have "in_range dest num (dest + of_nat i)" using True 1(4) by simp
    ultimately show ?thesis by auto
  next
    case False
    then have "(i, m) = (j, m')" using 1(2) by (subst (asm) strncpy_copy.simps) (auto split: if_splits)
    then show ?thesis using 1(3) by simp
  qed
qed

lemma strncpy_outside: "\<not> in_range dest (unat num) a \<Longrightarrow> strncpy dest src num m a = m a"
proof -
  assume a: "\<not> in_range dest (unat num) a"
  obtain j m' where c: "strncpy_copy 0 (unat num) dest src m = (j, m')" by fastforce
  have le: "unat num \<le> 2 ^ 64" using unat_lt64 [of num] by simp
  from strncpy_copy_outside [OF c _ le] a have "m' a = m a" by simp
  moreover have "strncpy_pad j (unat num) dest m' a = m' a"
    using a by (simp add: strncpy_pad_apply [OF le] in_range_def)
  ultimately show ?thesis by (simp add: strncpy_def c)
qed

lemma strlen_from_Some:
  "m (s + of_nat n) = 0 \<Longrightarrow> (\<And>k. k < n \<Longrightarrow> m (s + of_nat k) \<noteq> 0) \<Longrightarrow> strlen_from s m = Some (s + of_nat n)"
proof (induction n arbitrary: s)
  case 0
  then show ?case by (subst strlen_from.simps) simp
next
  case (Suc n)
  have "m (s + 1 + of_nat k) \<noteq> 0" if "k < n" for k
    using Suc.prems(2) [of "Suc k"] that by (simp add: algebra_simps)
  with Suc.IH [of "s + 1"] Suc.prems(1) have "strlen_from (s + 1) m = Some (s + of_nat (Suc n))"
    by (simp add: algebra_simps)
  with Suc.prems(2) [of 0] show ?case by (subst strlen_from.simps) simp
qed

lemma strlen_from_Least:
  fixes m s
  defines "j \<equiv> LEAST k. m (s + of_nat k) = 0"
  assumes "m (s + i) = 0"
  shows "strlen_from s m = Some (s + of_nat j)" and "m (s + of_nat j) = 0"
    and "\<And>k. k < j \<Longrightarrow> m (s + of_nat k) \<noteq> 0" and "j \<le> unat i"
proof -
  have ex: "m (s + of_nat (unat i)) = 0" using assms(2) by simp
  show z: "m (s + of_nat j) = 0" unfolding j_def using ex by (rule LeastI)
  show nz: "\<And>k. k < j \<Longrightarrow> m (s + of_nat k) \<noteq> 0" unfolding j_def by (rule not_less_Least)
  show "j \<le> unat i" unfolding j_def using ex by (rule Least_le)
  show "strlen_from s m = Some (s + of_nat j)"
    by (rule strlen_from_Some [where n = j and s = s and m = m]) (fact z, fact nz)
qed

lemma strlen_from_zero:
  assumes "strlen_from s m = Some e"
  shows "m e = 0"
proof (rule strlen_from.raw_induct [where P = "\<lambda>s m e. m e = 0", OF _ assms])
  fix f s m e
  assume IH: "\<And>s m e. f s m = Some e \<Longrightarrow> m e = 0"
    and eq: "(if m s \<noteq> 0 then f (s + 1) m else Some s) = Some e"
  show "m e = 0"
  proof (cases "m s = 0")
    case True
    with eq show ?thesis by simp
  next
    case False
    with eq have "f (s + 1) m = Some e" by simp
    then show ?thesis by (rule IH)
  qed
qed

lemma strlen_Some_iff:
  "strlen s m = Some n \<longleftrightarrow> m (s + n) = 0 \<and> (\<forall>k < unat n. m (s + of_nat k) \<noteq> 0)"
  (is "?L \<longleftrightarrow> ?R")
proof -
  have first: "\<exists>j. strlen s m = Some j \<and> m (s + j) = 0 \<and> (\<forall>k < unat j. m (s + of_nat k) \<noteq> 0)"
    if "m (s + i) = 0" for i
  proof -
    note L = strlen_from_Least [of m s i, OF that]
    let ?j = "LEAST k. m (s + of_nat k) = 0"
    have "unat (of_nat ?j :: u64) = ?j" using unat_lt64 [of i] L(4) by (intro unat_of_nat64) linarith
    with L show ?thesis by (intro exI [of _ "of_nat ?j"]) (auto simp: strlen_def)
  qed
  have uniq: "j = n" if "m (s + j) = 0" "m (s + n) = 0" "\<forall>k < unat j. m (s + of_nat k) \<noteq> 0"
    "\<forall>k < unat n. m (s + of_nat k) \<noteq> 0" for j n
  proof -
    have "\<not> unat n < unat j" "\<not> unat j < unat n" using that by force+
    then show ?thesis by (simp add: word_unat_eq_iff)
  qed
  show ?thesis
  proof
    assume ?L
    then obtain e where "strlen_from s m = Some e" "n = e - s" by (auto simp: strlen_def)
    then have "m (s + n) = 0" using strlen_from_zero by force
    from first [OF this] \<open>?L\<close> show ?R by auto
  next
    assume ?R
    with first [of n] obtain j where "strlen s m = Some j" "m (s + j) = 0"
      "\<forall>k < unat j. m (s + of_nat k) \<noteq> 0" by blast
    with uniq [of j n] \<open>?R\<close> show ?L by blast
  qed
qed

lemma strlen_None_iff: "strlen s m = None \<longleftrightarrow> (\<forall>a. m a \<noteq> 0)"
proof
  assume none: "strlen s m = None"
  show "\<forall>a. m a \<noteq> 0"
  proof (rule ccontr)
    assume "\<not> (\<forall>a. m a \<noteq> 0)"
    then obtain a where a: "m a = 0" by blast
    then have "m (s + (a - s)) = 0" by simp
    from strlen_from_Least(1) [of m s "a - s", OF this]
    show False using none by (simp add: strlen_def)
  qed
next
  assume "\<forall>a. m a \<noteq> 0"
  then show "strlen s m = None"
    by (cases "strlen_from s m") (auto simp: strlen_def dest: strlen_from_zero)
qed

section \<open>Loads and stores\<close>

lemma bit_load_le:
  "bit (load_le n a m) j \<longleftrightarrow> j < 8 * n \<and> j < 64 \<and> bit (m (a + of_nat (j div 8))) (j mod 8)"
proof (induction n arbitrary: a j)
  case 0
  then show ?case by simp
next
  case (Suc n)
  show ?case
  proof (cases "j < 8")
    case True
    then show ?thesis by (auto simp: bit_simps)
  next
    case False
    then have "a + of_nat (j div 8) = a + 1 + of_nat ((j - 8) div 8)" "(j - 8) mod 8 = j mod 8"
      by (simp_all add: div_if mod_if le_mod_geq)
    with False show ?thesis
      by (auto simp: bit_simps Suc add.assoc dest: bit_imp_le_length)
  qed
qed

lemma store_le_apply:
  "n \<le> 2 ^ 64 \<Longrightarrow> store_le n a v m x =
     (if in_range a n x then ucast (drop_bit (8 * unat (x - a)) v) else m x)"
proof (induction n arbitrary: a v m)
  case 0
  then show ?case by simp
next
  case (Suc n)
  have off: "unat (x - (a + 1)) + 1 = unat (x - a)" if "x \<noteq> a"
  proof -
    have "x - (a + 1) = (x - a) - 1" by (simp add: algebra_simps)
    moreover have "unat ((x - a) - 1) = unat (x - a) - 1" using that by (intro unat_minus_one) simp
    moreover have "0 < unat (x - a)" using that by (simp add: unat_gt_0)
    ultimately show ?thesis by (simp only:)
  qed
  have IH: "store_le n (a + 1) (drop_bit 8 v) (m(a := ucast v)) x =
     (if in_range (a + 1) n x then ucast (drop_bit (8 * unat (x - (a + 1))) (drop_bit 8 v))
      else (m(a := ucast v)) x)"
    by (rule Suc.IH) (use Suc.prems in simp)
  show ?case
  proof (cases "x = a")
    case True
    then have "\<not> in_range (a + 1) n x"
      using Suc.prems by (simp add: in_range_def unsigned_minus_1_eq_mask mask_eq_exp_minus_1)
    with True IH show ?thesis by simp
  next
    case False
    then have "in_range (a + 1) n x \<longleftrightarrow> in_range a (Suc n) x"
      using off [OF False] by (auto simp: in_range_def)
    moreover have "8 + 8 * unat (x - (a + 1)) = 8 * unat (x - a)" using off [OF False] by simp
    ultimately show ?thesis using False IH by (simp add: drop_bit_drop_bit add.commute)
  qed
qed

lemma load_store_le:
  "n \<le> 8 \<Longrightarrow> load_le n a (store_le n a v m) = take_bit (8 * n) v"
  by (rule bit_word_eqI)
    (auto simp: bit_load_le store_le_apply bit_simps unat_of_nat64 div_less_iff_less_mult)

lemma load_store64 [simp]: "load64 a (store64 a v m) = v"
  by (simp add: load_store_le take_bit_word_eq_self)

lemma load_le_cong:
  "(\<And>x. in_range a n x \<Longrightarrow> m x = m' x) \<Longrightarrow> n \<le> 2 ^ 61 \<Longrightarrow> load_le n a m = load_le n a m'"
  by (rule bit_word_eqI) (auto simp: bit_load_le)

lemma load_store_disjoint:
  "disjoint_ranges a n b k \<Longrightarrow> n \<le> 2 ^ 61 \<Longrightarrow> k \<le> 2 ^ 61 \<Longrightarrow> load_le n a (store_le k b v m) = load_le n a m"
  by (rule load_le_cong) (auto simp: store_le_apply dest: disjoint_rangesD)

lemma load_le_zero: "(\<And>x. in_range a n x \<Longrightarrow> m x = 0) \<Longrightarrow> n \<le> 2 ^ 61 \<Longrightarrow> load_le n a m = 0"
  by (rule bit_word_eqI) (auto simp: bit_load_le)

end
