(* ===== verification/Kernel_State.thy ===== *)
theory Kernel_State
  imports Byte_Memory
begin

text \<open>
  The state the memory manager works on: the structures of
  \<^verbatim>\<open>kernel/include/structs/{mmu,memory_map,address_space,lock}_str.h\<close> and of
  \<^verbatim>\<open>kernel/include/common/vector.h\<close>, the file-level variables of
  \<^verbatim>\<open>kernel/src/sys/mmu.c\<close> and \<^verbatim>\<open>kernel/src/common/kmalloc.c\<close>, and the memory.

  The memory is indexed by virtual address. Physical memory is reached through the
  bootloader's direct map (\<^verbatim>\<open>PHYS_TO_VIRT\<close>), which shifts the whole 64-bit space.
\<close>

section \<open>Structures\<close>

record kernel_mem_info =
  physical_limit :: u64
  total_size :: u64
  free_size :: u64
  bitmap :: u64

text \<open>A \<^verbatim>\<open>vector_struct(type)\<close>: the element type only shows in the macros' element size.\<close>

record vec =
  vlength :: u64
  vcapacity :: u64
  vdata :: u64

record lock_t =
  lk_rflags :: u64
  lk_lock :: u32

record addr_space =
  pml4 :: u64
  memory_list :: vec
  as_lock :: lock_t

record mem_map =
  mm_virt_addr :: u64
  mm_phys_addr :: u64
  mm_flags :: u64
  mm_num_pages :: u64

record kstate =
  ram :: mem
  kmem :: kernel_mem_info
  global_mem_map :: vec
  kernel_addr_space :: addr_space
  kmalloc_checkno :: u64
  cr3 :: u64
  invlpg_log :: "u64 list"

definition LOCK_NEW :: lock_t where
  "LOCK_NEW = \<lparr>lk_rflags = 0, lk_lock = 0\<rparr>"

section \<open>Literal constants and address macros of mmu.h\<close>

abbreviation (input) PAGES_PER_BYTE :: u64 where "PAGES_PER_BYTE \<equiv> 8"
abbreviation (input) PAGE_SIZE :: u64 where "PAGE_SIZE \<equiv> 4096"
abbreviation (input) MEM_VIRT_OFFSET :: u64 where "MEM_VIRT_OFFSET \<equiv> 0xFFFF800000000000"
abbreviation (input) FREE :: u8 where "FREE \<equiv> 1"
abbreviation (input) ALLOCATED :: u8 where "ALLOCATED \<equiv> 0"
abbreviation (input) DEFAULT_PAGES :: u64 where "DEFAULT_PAGES \<equiv> 8"

definition PHYS_TO_VIRT :: "u64 \<Rightarrow> u64" where
  "PHYS_TO_VIRT a = a + MEM_VIRT_OFFSET"

definition VIRT_TO_PHYS :: "u64 \<Rightarrow> u64" where
  "VIRT_TO_PHYS a = a - MEM_VIRT_OFFSET"

definition NUM_PAGES :: "u64 \<Rightarrow> u64" where
  "NUM_PAGES a = (a + PAGE_SIZE - 1) div PAGE_SIZE"

lemma phys_virt_inverse [simp]:
  "PHYS_TO_VIRT (VIRT_TO_PHYS a) = a" "VIRT_TO_PHYS (PHYS_TO_VIRT a) = a"
  by (simp_all add: PHYS_TO_VIRT_def VIRT_TO_PHYS_def)

text \<open>The physical page a direct-map address lies in.\<close>

definition page_no :: "u64 \<Rightarrow> nat" where
  "page_no a = unat a div 4096"

abbreviation frame_of :: "u64 \<Rightarrow> nat" where
  "frame_of v \<equiv> page_no (VIRT_TO_PHYS v)"

lemma page_no_less: "page_no a < 2 ^ 52"
  using unat_lt64 [of a] by (simp add: page_no_def div_less_iff_less_mult)

lemma page_no_add:
  "unat a + k * 4096 < 2 ^ 64 \<Longrightarrow> page_no (a + of_nat k * 4096) = page_no a + k"
  using unat_step [of a k 4096] by (simp add: page_no_def)

lemma NUM_PAGES_unat:
  "unat a + 4095 < 2 ^ 64 \<Longrightarrow> unat (NUM_PAGES a) = (unat a + 4095) div 4096"
proof -
  assume a: "unat a + 4095 < 2 ^ 64"
  have "a + 4096 - 1 = a + 4095" by simp
  moreover have "unat (a + 4095) = unat a + 4095" using unat_step [of a 1 4095] a by simp
  moreover have "unat (4096 :: u64) = 4096" by simp
  ultimately show ?thesis by (simp only: NUM_PAGES_def unat_div)
qed

end
