(* ===== verification/Page_Interface.thy ===== *)
theory Page_Interface
  imports Prelude
begin

text \<open>
  The contract between an allocator and its clients. Both allocators of the kernel meet
  it: the physical page allocator (\<^verbatim>\<open>pm_get\<close>, \<^verbatim>\<open>pm_free\<close>) and the kernel heap
  (\<^verbatim>\<open>kmalloc\<close>, \<^verbatim>\<open>kfree\<close>). A client that issues any sequence of requests
  never receives a resource twice and never loses one.
\<close>

section \<open>A client's run\<close>

datatype request = Get u64 | Put nat

text \<open>
  The client keeps the list of what it holds, newest first; \<open>Put i\<close> gives back the \<open>i\<close>-th
  entry. The run stops (\<open>None\<close>) when the allocator does not return.
\<close>

primrec serve :: "(u64 \<Rightarrow> 's \<Rightarrow> (u64 \<times> 's) option) \<Rightarrow> (u64 \<Rightarrow> u64 \<Rightarrow> 's \<Rightarrow> 's option) \<Rightarrow>
    request \<Rightarrow> (u64 \<times> u64) list \<times> 's \<Rightarrow> ((u64 \<times> u64) list \<times> 's) option" where
  "serve get put (Get n) ls = map_option (\<lambda>(a, s). ((a, n) # fst ls, s)) (get n (snd ls))"
| "serve get put (Put i) ls =
     (if i < List.length (fst ls)
      then map_option (\<lambda>s. (take i (fst ls) @ drop (Suc i) (fst ls), s))
             (put (fst (fst ls ! i)) (snd (fst ls ! i)) (snd ls))
      else None)"

primrec serve_all :: "(u64 \<Rightarrow> 's \<Rightarrow> (u64 \<times> 's) option) \<Rightarrow> (u64 \<Rightarrow> u64 \<Rightarrow> 's \<Rightarrow> 's option) \<Rightarrow>
    request list \<Rightarrow> (u64 \<times> u64) list \<times> 's \<Rightarrow> ((u64 \<times> u64) list \<times> 's) option" where
  "serve_all get put [] ls = Some ls"
| "serve_all get put (r # rs) ls = Option.bind (serve get put r ls) (serve_all get put rs)"

primrec pairwise_disjoint :: "'a set list \<Rightarrow> bool" where
  "pairwise_disjoint [] = True"
| "pairwise_disjoint (x # xs) \<longleftrightarrow> (\<forall>y \<in> set xs. x \<inter> y = {}) \<and> pairwise_disjoint xs"

lemma pairwise_disjoint_append:
  "pairwise_disjoint (xs @ ys) \<longleftrightarrow>
     pairwise_disjoint xs \<and> pairwise_disjoint ys \<and> (\<forall>x \<in> set xs. \<forall>y \<in> set ys. x \<inter> y = {})"
  by (induction xs) auto

section \<open>The contract\<close>

locale block_store =
  fixes ok :: "'s \<Rightarrow> bool" and small :: "'s \<Rightarrow> u64 \<Rightarrow> bool" and avail :: "'s \<Rightarrow> nat set"
    and get :: "u64 \<Rightarrow> 's \<Rightarrow> (u64 \<times> 's) option" and put :: "u64 \<Rightarrow> u64 \<Rightarrow> 's \<Rightarrow> 's option"
    and block :: "u64 \<Rightarrow> u64 \<Rightarrow> nat set" and held :: "u64 \<Rightarrow> u64 \<Rightarrow> 's \<Rightarrow> bool"
  assumes get_ok: "ok s \<Longrightarrow> small s n \<Longrightarrow> get n s = Some (a, s') \<Longrightarrow>
      ok s' \<and> small s' = small s \<and> block a n \<subseteq> avail s \<and> avail s' = avail s - block a n \<and> held a n s'"
    and get_keeps: "ok s \<Longrightarrow> small s n \<Longrightarrow> get n s = Some (a, s') \<Longrightarrow> held b m s \<Longrightarrow> held b m s'"
    and put_ok: "ok s \<Longrightarrow> held a n s \<Longrightarrow>
      \<exists>s'. put a n s = Some s' \<and> ok s' \<and> small s' = small s \<and> avail s' = avail s \<union> block a n"
    and put_keeps: "ok s \<Longrightarrow> held a n s \<Longrightarrow> put a n s = Some s' \<Longrightarrow> held b m s \<Longrightarrow>
      block a n \<inter> block b m = {} \<Longrightarrow> held b m s'"
    and held_unavail: "ok s \<Longrightarrow> held a n s \<Longrightarrow> block a n \<inter> avail s = {}"
begin

definition blocks :: "(u64 \<times> u64) list \<Rightarrow> nat set list" where
  "blocks live = map (\<lambda>(a, n). block a n) live"

definition consistent :: "nat set \<Rightarrow> (u64 \<times> u64) list \<times> 's \<Rightarrow> bool" where
  "consistent A = (\<lambda>(live, s). ok s \<and> (\<forall>(a, n) \<in> set live. held a n s) \<and>
     pairwise_disjoint (blocks live) \<and> avail s \<union> \<Union> (set (blocks live)) = A)"

fun sized :: "'s \<Rightarrow> request \<Rightarrow> bool" where
  "sized s (Get n) = small s n"
| "sized s (Put i) = True"

lemma consistent_get:
  assumes "consistent A (live, s)" and "small s n" and "get n s = Some (a, s')"
  shows "consistent A ((a, n) # live, s')" and "small s' = small s"
proof -
  from assms(1) have ok: "ok s" by (simp add: consistent_def)
  note g = get_ok [OF ok assms(2,3)]
  then show "small s' = small s" by simp
  have "block a n \<inter> block b m = {}" if "(b, m) \<in> set live" for b m
    using that g held_unavail [OF ok, of b m] assms(1) by (fastforce simp: consistent_def)
  moreover have "held b m s'" if "(b, m) \<in> set live" for b m
    using that get_keeps [OF ok assms(2,3)] assms(1) by (fastforce simp: consistent_def)
  ultimately show "consistent A ((a, n) # live, s')"
    using assms(1) g by (auto simp: consistent_def blocks_def)
qed

lemma consistent_put:
  assumes "consistent A (xs @ (a, n) # ys, s)"
  shows "\<exists>s'. put a n s = Some s' \<and> consistent A (xs @ ys, s') \<and> small s' = small s"
proof -
  from assms have ok: "ok s" and held: "held a n s" by (auto simp: consistent_def)
  from put_ok [OF this] obtain s' where s': "put a n s = Some s'" "ok s'" "small s' = small s"
    "avail s' = avail s \<union> block a n" by blast
  have "held b m s'" if "(b, m) \<in> set xs \<union> set ys" for b m
  proof (rule put_keeps [OF ok held s'(1)])
    show "held b m s" using that assms by (auto simp: consistent_def)
    show "block a n \<inter> block b m = {}"
      using that assms by (fastforce simp: consistent_def blocks_def pairwise_disjoint_append)
  qed
  moreover have "avail s' \<union> \<Union> (set (blocks (xs @ ys))) = A"
    using assms s'(4) by (auto simp: consistent_def blocks_def)
  moreover have "pairwise_disjoint (blocks (xs @ ys))"
    using assms by (auto simp: consistent_def blocks_def pairwise_disjoint_append)
  ultimately have "consistent A (xs @ ys, s')" using s'(2) by (auto simp: consistent_def)
  with s' show ?thesis by blast
qed

lemma consistent_serve:
  assumes "consistent A (live, s)" and "sized s r" and "serve get put r (live, s) = Some (live', s')"
  shows "consistent A (live', s') \<and> small s' = small s"
proof (cases r)
  case (Get n)
  with assms(3) obtain a where "get n s = Some (a, s')" and "live' = (a, n) # live" by auto
  with consistent_get [OF assms(1), of n a s'] assms(2) Get show ?thesis by simp
next
  case (Put i)
  with assms(3) have i: "i < List.length live" by (simp split: if_splits)
  obtain a n where an: "live ! i = (a, n)" by fastforce
  have "live = take i live @ (a, n) # drop (Suc i) live"
    using id_take_nth_drop [OF i] an by simp
  with assms(1) have "consistent A (take i live @ (a, n) # drop (Suc i) live, s)" by simp
  from consistent_put [OF this] assms(3) i Put an show ?thesis by auto
qed

lemma consistent_serve_all:
  assumes "consistent A ls" and "\<forall>r \<in> set rs. sized (snd ls) r" and "serve_all get put rs ls = Some ls'"
  shows "consistent A ls'"
  using assms
proof (induction rs arbitrary: ls)
  case (Cons r rs)
  from Cons.prems(3) obtain t where t: "serve get put r ls = Some t" "serve_all get put rs t = Some ls'"
    by (auto simp: bind_eq_Some_conv)
  have c: "consistent A t \<and> small (snd t) = small (snd ls)"
    using consistent_serve [of A "fst ls" "snd ls" r "fst t" "snd t"] Cons.prems(1,2) t(1) by simp
  have "sized (snd t) q" if "q \<in> set rs" for q
    using Cons.prems(2) that c by (cases q) fastforce+
  then show ?case using Cons.IH [OF _ _ t(2)] c by blast
qed simp

text \<open>From nothing held: what is live is disjoint, off the free set, and nothing is lost.\<close>

lemma serve_all_sound:
  assumes "ok s" and "\<forall>n. Get n \<in> set rs \<longrightarrow> small s n" and "serve_all get put rs ([], s) = Some (live, s')"
  shows "pairwise_disjoint (map (\<lambda>(a, n). block a n) live)"
    and "avail s' \<union> \<Union> ((\<lambda>(a, n). block a n) ` set live) = avail s"
    and "avail s' \<inter> \<Union> ((\<lambda>(a, n). block a n) ` set live) = {}"
    and "ok s'" and "\<forall>(a, n) \<in> set live. held a n s'"
proof -
  have "consistent (avail s) ([], s)" using assms(1) by (simp add: consistent_def blocks_def)
  moreover have "sized s r" if "r \<in> set rs" for r using that assms(2) by (cases r rule: request.exhaust) simp_all
  ultimately have c: "consistent (avail s) (live, s')"
    using consistent_serve_all [of "avail s" "([], s)" rs] assms(3) by simp
  then show "pairwise_disjoint (map (\<lambda>(a, n). block a n) live)"
    and "avail s' \<union> \<Union> ((\<lambda>(a, n). block a n) ` set live) = avail s"
    and ok: "ok s'" and held: "\<forall>(a, n) \<in> set live. held a n s'"
    by (simp_all add: consistent_def blocks_def)
  show "avail s' \<inter> \<Union> ((\<lambda>(a, n). block a n) ` set live) = {}"
    using held held_unavail [OF ok] by fastforce
qed

end

end
