(* ===== verification/Phys_Alloc.thy ===== *)
theory Phys_Alloc
  imports Kernel_State Page_Interface
begin

text \<open>
  The physical page allocator of \<^verbatim>\<open>kernel/src/sys/mmu.c\<close>: a bitmap with one bit per
  4 KiB page, a set bit meaning that the page is free.
\<close>

section \<open>The code\<close>

definition bitmap_byte :: "u64 \<Rightarrow> kstate \<Rightarrow> u64" where
  "bitmap_byte i s = bitmap (kmem s) + i div (PAGE_SIZE * PAGES_PER_BYTE)"

definition bitmap_mask :: "u64 \<Rightarrow> u8" where
  "bitmap_mask i = push_bit (unat ((i div PAGE_SIZE) mod PAGES_PER_BYTE)) 1"

definition clear_page :: "u64 \<Rightarrow> kstate \<Rightarrow> kstate" where
  "clear_page i s =
     s\<lparr>ram := (ram s)(bitmap_byte i s := ram s (bitmap_byte i s) AND NOT (bitmap_mask i))\<rparr>"

definition bitmap_set :: "u64 \<Rightarrow> u64 \<Rightarrow> kstate \<Rightarrow> kstate option" where
  "bitmap_set address num_pages =
     for_range address (address + num_pages * PAGE_SIZE) PAGE_SIZE (\<lambda>i s. Some (clear_page i s))"

definition test_page :: "u64 \<Rightarrow> kstate \<Rightarrow> (u8 option \<times> kstate) option" where
  "test_page i s =
     Some (if ram s (bitmap_byte i s) AND bitmap_mask i = 0 then Some ALLOCATED else None, s)"

definition bitmap_free :: "u64 \<Rightarrow> u64 \<Rightarrow> kstate \<Rightarrow> u8 option" where
  "bitmap_free address num_pages s =
     map_option (\<lambda>(r, _). case r of Some v \<Rightarrow> v | None \<Rightarrow> FREE)
       (for_return address (address + num_pages * PAGE_SIZE) PAGE_SIZE test_page s)"

definition set_page :: "u64 \<Rightarrow> kstate \<Rightarrow> kstate" where
  "set_page i s =
     s\<lparr>ram := (ram s)(bitmap_byte i s := ram s (bitmap_byte i s) OR bitmap_mask i)\<rparr>"

definition pm_free :: "u64 \<Rightarrow> u64 \<Rightarrow> kstate \<Rightarrow> (status \<times> kstate) option" where
  "pm_free address num_pages s =
     for_range address (address + num_pages * PAGE_SIZE) PAGE_SIZE
       (\<lambda>i (ret, s). do {
          f \<leftarrow> bitmap_free i 1 s;
          let (ret, s) =
            (if f = ALLOCATED
             then (ret, s\<lparr>kmem := (kmem s)\<lparr>free_size := free_size (kmem s) + PAGE_SIZE\<rparr>\<rparr>)
             else (SYS_ERR, s));
          Some (ret, set_page i s)
        }) (SYS_OK, s)"

definition pm_allocate :: "u64 \<Rightarrow> u64 \<Rightarrow> kstate \<Rightarrow> (status \<times> kstate) option" where
  "pm_allocate address num_pages s = do {
     f \<leftarrow> bitmap_free address num_pages s;
     if f = ALLOCATED then Some (SYS_ERR, s)
     else do {
       s \<leftarrow> bitmap_set address num_pages s;
       Some (SYS_OK,
         s\<lparr>kmem := (kmem s)\<lparr>free_size := free_size (kmem s) - num_pages * PAGE_SIZE\<rparr>\<rparr>)
     }
   }"

text \<open>
  \<^verbatim>\<open>pm_get\<close> returns from inside its loop on success. When the loop runs out, the
  code logs and calls \<^verbatim>\<open>halt()\<close>; the \<^verbatim>\<open>return 0\<close> after it is unreachable.
\<close>

definition pm_get :: "u64 \<Rightarrow> u64 \<Rightarrow> kstate \<Rightarrow> (u64 \<times> kstate) option" where
  "pm_get num_pages address s = do {
     (r, s) \<leftarrow> for_return address (physical_limit (kmem s)) PAGE_SIZE
       (\<lambda>i s. do {
          (st, s) \<leftarrow> pm_allocate i num_pages s;
          Some (if st = SYS_OK then Some i else None, s)
        }) s;
     (case r of Some i \<Rightarrow> Some (i, s) | None \<Rightarrow> None)
   }"

section \<open>The bitmap as a set of free pages\<close>

definition upd_page :: "bool \<Rightarrow> u64 \<Rightarrow> nat \<Rightarrow> mem \<Rightarrow> mem" where
  "upd_page b bm p m =
     m(bm + of_nat (p div 8) :=
         (if b then Bit_Operations.set_bit else unset_bit) (p mod 8) (m (bm + of_nat (p div 8))))"

definition mark_pages :: "bool \<Rightarrow> u64 \<Rightarrow> nat list \<Rightarrow> mem \<Rightarrow> mem" where
  "mark_pages b bm ps = fold (upd_page b bm) ps"

definition page_free :: "kstate \<Rightarrow> nat \<Rightarrow> bool" where
  "page_free s p \<longleftrightarrow> bit (ram s (bitmap (kmem s) + of_nat (p div 8))) (p mod 8)"

definition free_pages :: "kstate \<Rightarrow> nat set" where
  "free_pages s = {p. p < 2 ^ 52 \<and> page_free s p}"

definition run :: "u64 \<Rightarrow> u64 \<Rightarrow> nat set" where
  "run a n = {page_no a ..< page_no a + unat n}"

definition fits :: "u64 \<Rightarrow> u64 \<Rightarrow> bool" where
  "fits a n \<longleftrightarrow> unat a + unat n * 4096 < 2 ^ 64"

lemma bitmap_byte_page: "bitmap_byte i s = bitmap (kmem s) + of_nat (page_no i div 8)"
proof -
  have "i div 32768 = of_nat (unat (i div 32768))" by simp
  also have "unat (i div 32768) = page_no i div 8"
    by (simp add: unat_div page_no_def div_mult2_eq)
  finally show ?thesis by (simp add: bitmap_byte_def)
qed

lemma bitmap_mask_page: "bitmap_mask i = push_bit (page_no i mod 8) 1"
  by (simp add: bitmap_mask_def page_no_def unat_div unat_mod)

lemma page_test: "ram s (bitmap_byte i s) AND bitmap_mask i = 0 \<longleftrightarrow> \<not> page_free s (page_no i)"
proof -
  have "(x AND push_bit k 1 = 0) = (\<not> bit x k)" for x :: u8 and k
    by (simp add: and_exp_eq_0_iff_not_bit)
  then show ?thesis by (simp add: bitmap_byte_page bitmap_mask_page page_free_def)
qed

lemma byte_addr_inj:
  assumes "p < 2 ^ 52" and "q < 2 ^ 52"
  shows "(of_nat (p div 8) :: u64) = of_nat (q div 8) \<longleftrightarrow> p div 8 = q div 8"
proof
  assume eq: "(of_nat (p div 8) :: u64) = of_nat (q div 8)"
  have "p div 8 < 2 ^ 64" "q div 8 < 2 ^ 64" using assms by simp_all
  with eq show "p div 8 = q div 8" by (metis unat_of_nat64)
qed simp

lemma bit_upd_page:
  "bit (upd_page b bm p m v) j = (if v = bm + of_nat (p div 8) \<and> j = p mod 8 then b else bit (m v) j)"
  by (auto simp: upd_page_def bit_simps dest: bit_imp_le_length)

lemma bit_mark_pages:
  "bit (mark_pages b bm ps m v) j =
     (if \<exists>p \<in> set ps. v = bm + of_nat (p div 8) \<and> j = p mod 8 then b else bit (m v) j)"
  unfolding mark_pages_def
  by (induction ps arbitrary: m) (auto simp: bit_upd_page)

lemma mark_pages_Nil [simp]: "mark_pages b bm [] m = m"
  by (simp add: mark_pages_def)

lemma mark_pages_Suc:
  "mark_pages b bm [p..<Suc (p + k)] m = upd_page b bm (p + k) (mark_pages b bm [p..<p + k] m)"
  by (simp add: mark_pages_def)

lemma mark_pages_outside:
  "(\<And>p. p \<in> set ps \<Longrightarrow> v \<noteq> bm + of_nat (p div 8)) \<Longrightarrow> mark_pages b bm ps m v = m v"
  by (rule bit_word_eqI) (auto simp: bit_mark_pages)

lemma page_free_mark:
  assumes "set ps \<subseteq> {..<2 ^ 52}" and "q < 2 ^ 52"
  shows "page_free (s\<lparr>ram := mark_pages b (bitmap (kmem s)) ps (ram s)\<rparr>) q =
    (if q \<in> set ps then b else page_free s q)"
proof -
  have "p = q" if "p \<in> set ps" "(of_nat (p div 8) :: u64) = of_nat (q div 8)" "q mod 8 = p mod 8" for p
  proof -
    have "p div 8 = q div 8" using that(1,2) assms by (subst byte_addr_inj [symmetric]) auto
    with that(3) show ?thesis by (metis div_mult_mod_eq)
  qed
  then show ?thesis by (auto simp: page_free_def bit_mark_pages)
qed

lemma free_pages_mark:
  assumes "set ps \<subseteq> {..<2 ^ 52}"
  shows "free_pages (s\<lparr>ram := mark_pages b (bitmap (kmem s)) ps (ram s)\<rparr>) =
    (if b then free_pages s \<union> set ps else free_pages s - set ps)"
  using assms page_free_mark [OF assms] by (auto simp: free_pages_def split: if_splits)

lemma free_pages_cong:
  "bitmap (kmem s') = bitmap (kmem s) \<Longrightarrow> ram s' = ram s \<Longrightarrow> free_pages s' = free_pages s"
  by (simp add: free_pages_def page_free_def)

section \<open>What the loops do\<close>

lemma set_page_eq:
  "set_page i s = s\<lparr>ram := upd_page True (bitmap (kmem s)) (page_no i) (ram s)\<rparr>"
  by (simp add: set_page_def upd_page_def bitmap_byte_page bitmap_mask_page set_bit_eq_or)

lemma clear_page_eq:
  "clear_page i s = s\<lparr>ram := upd_page False (bitmap (kmem s)) (page_no i) (ram s)\<rparr>"
  by (simp add: clear_page_def upd_page_def bitmap_byte_page bitmap_mask_page unset_bit_eq_and_not)

lemma fits_iterates:
  assumes "fits a n"
  shows "iterates a (a + n * 4096) 4096 (unat n)"
proof (rule iterates_exact)
  show "unat (a + n * 4096) = unat a + unat n * unat (4096 :: u64)"
    using unat_step [of a "unat n" 4096] assms by (simp add: fits_def)
qed (use assms in \<open>simp_all add: fits_def\<close>)

lemma fits_page_no:
  "fits a n \<Longrightarrow> k < unat n \<Longrightarrow> page_no (a + of_nat k * 4096) = page_no a + k"
  by (rule page_no_add) (simp add: fits_def)

lemma run_bound: "fits a n \<Longrightarrow> run a n \<subseteq> {..<2 ^ 52}"
  by (auto simp: run_def fits_def page_no_def)

lemma bitmap_set_eq:
  assumes "fits a n"
  shows "bitmap_set a n s =
    Some (s\<lparr>ram := mark_pages False (bitmap (kmem s)) [page_no a..<page_no a + unat n] (ram s)\<rparr>)"
proof -
  let ?I = "\<lambda>k t. t = s\<lparr>ram := mark_pages False (bitmap (kmem s)) [page_no a..<page_no a + k] (ram s)\<rparr>"
  have "\<exists>t. bitmap_set a n s = Some t \<and> ?I (unat n) t"
    unfolding bitmap_set_def
    by (rule for_range_rule [OF fits_iterates [OF assms]])
      (use assms in \<open>auto simp: clear_page_eq fits_page_no mark_pages_Suc
          simp del: upt_Suc\<close>)
  then show ?thesis by blast
qed

lemma page_in_range: "fits a n \<Longrightarrow> k < unat n \<Longrightarrow> page_no a + k < 2 ^ 52"
  using fits_page_no [of a n k] page_no_less [of "a + of_nat k * 4096"] by simp

lemma run_free_iff:
  "fits a n \<Longrightarrow> run a n \<subseteq> free_pages s \<longleftrightarrow> (\<forall>k < unat n. page_free s (page_no a + k))"
  using run_bound [of a n] by (fastforce simp: run_def free_pages_def le_iff_add)

lemma bitmap_free_eq:
  assumes "fits a n"
  shows "bitmap_free a n s = Some (if run a n \<subseteq> free_pages s then FREE else ALLOCATED)"
proof -
  note it = fits_iterates [OF assms]
  have body: "test_page (a + of_nat k * 4096) s =
      Some (if page_free s (page_no a + k) then None else Some ALLOCATED, s)" if "k < unat n" for k
    using fits_page_no [OF assms that] by (simp add: page_test test_page_def)
  show ?thesis
  proof (cases "\<forall>k < unat n. page_free s (page_no a + k)")
    case True
    have "for_return a (a + n * 4096) 4096 test_page s = Some (None, s)"
      by (rule for_return_none [OF it]) (simp add: body True)
    then show ?thesis using True run_free_iff [OF assms] by (simp add: bitmap_free_def)
  next
    case False
    define m where "m = (LEAST k. k < unat n \<and> \<not> page_free s (page_no a + k))"
    have m: "m < unat n \<and> \<not> page_free s (page_no a + m)"
      unfolding m_def by (rule LeastI_ex) (use False in blast)
    have before: "page_free s (page_no a + k)" if "k < m" for k
      using not_less_Least [OF that [unfolded m_def]] that m by simp
    have "for_return a (a + n * 4096) 4096 test_page s = Some (Some ALLOCATED, s)"
      by (rule for_return_some [OF it, where m = m]) (use m body before in auto)
    then show ?thesis using False run_free_iff [OF assms] by (simp add: bitmap_free_def)
  qed
qed

text \<open>
  \<open>released a k s\<close> is the state after the first \<open>k\<close> pages from \<open>a\<close> have been freed, and
  \<open>taken a n s\<close> the state after a successful allocation.
\<close>

definition released :: "u64 \<Rightarrow> nat \<Rightarrow> kstate \<Rightarrow> kstate" where
  "released a k s =
     s\<lparr>kmem := (kmem s)\<lparr>free_size :=
         free_size (kmem s) + of_nat (card ({page_no a..<page_no a + k} - free_pages s)) * PAGE_SIZE\<rparr>,
       ram := mark_pages True (bitmap (kmem s)) [page_no a..<page_no a + k] (ram s)\<rparr>"

definition taken :: "u64 \<Rightarrow> u64 \<Rightarrow> kstate \<Rightarrow> kstate" where
  "taken a n s =
     s\<lparr>ram := mark_pages False (bitmap (kmem s)) [page_no a..<page_no a + unat n] (ram s),
       kmem := (kmem s)\<lparr>free_size := free_size (kmem s) - n * PAGE_SIZE\<rparr>\<rparr>"

lemma released_0 [simp]: "released a 0 s = s"
  by (simp add: released_def)

lemma bitmap_released [simp]: "bitmap (kmem (released a k s)) = bitmap (kmem s)"
  by (simp add: released_def)

lemma page_free_released:
  assumes "page_no a + k \<le> 2 ^ 52" and "q < 2 ^ 52"
  shows "page_free (released a k s) q \<longleftrightarrow> q \<in> {page_no a..<page_no a + k} \<or> page_free s q"
proof -
  have "page_free (released a k s) q =
    page_free (s\<lparr>ram := mark_pages True (bitmap (kmem s)) [page_no a..<page_no a + k] (ram s)\<rparr>) q"
    by (simp add: released_def page_free_def)
  also have "\<dots> = (if q \<in> set [page_no a..<page_no a + k] then True else page_free s q)"
    by (rule page_free_mark) (use assms in auto)
  finally show ?thesis by auto
qed

lemma set_page_released:
  assumes "fits a n" and "k < unat n"
  defines "i \<equiv> a + of_nat k * 4096"
  shows "set_page i (if page_free s (page_no a + k) then released a k s
      else (released a k s)\<lparr>kmem := (kmem (released a k s))\<lparr>free_size := free_size (kmem (released a k s)) + PAGE_SIZE\<rparr>\<rparr>)
    = released a (Suc k) s"
proof -
  let ?p = "page_no a + k"
  have i: "page_no i = ?p" using assms fits_page_no by simp
  have "?p < 2 ^ 52" using assms(1,2) by (rule page_in_range)
  then have p: "?p \<in> free_pages s \<longleftrightarrow> page_free s ?p" by (simp add: free_pages_def)
  have "{page_no a..<Suc ?p} - free_pages s =
      (if page_free s ?p then {page_no a..<?p} - free_pages s
       else insert ?p ({page_no a..<?p} - free_pages s))"
    using p by (auto simp: less_Suc_eq)
  then have card: "card ({page_no a..<Suc ?p} - free_pages s) =
      card ({page_no a..<?p} - free_pages s) + (if page_free s ?p then 0 else 1)"
    by simp
  show ?thesis
    by (simp add: released_def set_page_eq i mark_pages_Suc card distrib_right
        del: upt_Suc)
qed

lemma pm_free_eq:
  assumes "fits a n"
  shows "pm_free a n s =
    Some (if run a n \<inter> free_pages s = {} then SYS_OK else SYS_ERR, released a (unat n) s)"
proof -
  let ?I = "\<lambda>k (ret, t). t = released a k s \<and>
    ret = (if {page_no a..<page_no a + k} \<inter> free_pages s = {} then SYS_OK else SYS_ERR)"
  have "\<exists>r. pm_free a n s = Some r \<and> ?I (unat n) r"
    unfolding pm_free_def
  proof (rule for_range_rule [OF fits_iterates [OF assms], where I = ?I])
    fix k and rt :: "status \<times> kstate"
    assume k: "k < unat n" and I: "?I k rt"
    let ?i = "a + of_nat k * 4096" and ?p = "page_no a + k"
    have i: "page_no ?i = ?p" using assms k by (rule fits_page_no)
    have p: "?p < 2 ^ 52" using assms k by (rule page_in_range)
    have "fits ?i 1"
      using assms k iterates_less(2) [OF fits_iterates [OF assms] k] by (simp add: fits_def)
    then have bf: "bitmap_free ?i 1 (released a k s) = Some (if page_free s ?p then FREE else ALLOCATED)"
      using p i page_free_released [of a k ?p s]
      by (simp add: bitmap_free_eq run_free_iff)
    have split: "{page_no a..<Suc ?p} \<inter> free_pages s = {} \<longleftrightarrow>
        {page_no a..<?p} \<inter> free_pages s = {} \<and> \<not> page_free s ?p"
    proof -
      have "{page_no a..<Suc ?p} = insert ?p {page_no a..<?p}" by auto
      moreover have "?p \<in> free_pages s \<longleftrightarrow> page_free s ?p" using p by (simp add: free_pages_def)
      ultimately show ?thesis by auto
    qed
    show "\<exists>r. (case rt of (ret, s) \<Rightarrow> do {
          f \<leftarrow> bitmap_free ?i 1 s;
          let (ret, s) =
            (if f = ALLOCATED
             then (ret, s\<lparr>kmem := (kmem s)\<lparr>free_size := free_size (kmem s) + PAGE_SIZE\<rparr>\<rparr>)
             else (SYS_ERR, s));
          Some (ret, set_page ?i s)
        }) = Some r \<and> ?I (Suc k) r"
      using I bf set_page_released [OF assms k, of s]
      by (cases rt) (auto simp: split simp del: upt_Suc split: if_splits)
  qed simp
  then show ?thesis by (auto simp: run_def)
qed

lemma pm_allocate_eq:
  assumes "fits a n"
  shows "pm_allocate a n s =
    Some (if run a n \<subseteq> free_pages s then (SYS_OK, taken a n s) else (SYS_ERR, s))"
  using assms by (simp add: pm_allocate_def bitmap_free_eq bitmap_set_eq taken_def)

lemma finite_free_pages [simp]: "finite (free_pages s)"
  by (rule finite_subset [of _ "{..<2 ^ 52}"]) (auto simp: free_pages_def)

lemma free_pages_taken:
  assumes "fits a n"
  shows "free_pages (taken a n s) = free_pages s - run a n"
proof -
  have "free_pages (taken a n s) =
    free_pages (s\<lparr>ram := mark_pages False (bitmap (kmem s)) [page_no a..<page_no a + unat n] (ram s)\<rparr>)"
    by (rule free_pages_cong) (simp_all add: taken_def)
  also have "\<dots> = free_pages s - run a n"
    by (subst free_pages_mark) (use run_bound [OF assms] in \<open>auto simp: run_def\<close>)
  finally show ?thesis .
qed

lemma free_pages_released:
  assumes "fits a n"
  shows "free_pages (released a (unat n) s) = free_pages s \<union> run a n"
proof -
  have "free_pages (released a (unat n) s) =
    free_pages (s\<lparr>ram := mark_pages True (bitmap (kmem s)) [page_no a..<page_no a + unat n] (ram s)\<rparr>)"
    by (rule free_pages_cong) (simp_all add: released_def)
  also have "\<dots> = free_pages s \<union> run a n"
    by (subst free_pages_mark) (use run_bound [OF assms] in \<open>auto simp: run_def\<close>)
  finally show ?thesis .
qed

section \<open>The search of pm_get\<close>

definition room :: "kstate \<Rightarrow> u64 \<Rightarrow> bool" where
  "room s n \<longleftrightarrow> unat (physical_limit (kmem s)) + (unat n + 1) * 4096 < 2 ^ 64"

definition try_page :: "u64 \<Rightarrow> u64 \<Rightarrow> kstate \<Rightarrow> (u64 option \<times> kstate) option" where
  "try_page n i s = do {
     (st, s) \<leftarrow> pm_allocate i n s;
     Some (if st = SYS_OK then Some i else None, s)
   }"

definition candidates :: "u64 \<Rightarrow> kstate \<Rightarrow> nat" where
  "candidates a s = (unat (physical_limit (kmem s)) - unat a + 4095) div 4096"

lemma step_bound_iff: "Suc k * 4096 \<le> (l :: nat) - a + 4095 \<longleftrightarrow> a + k * 4096 < l"
proof -
  have "4096 + x \<le> l - a + 4095 \<longleftrightarrow> a + x < l" for x by arith
  from this [of "k * 4096"] show ?thesis by (simp only: mult_Suc)
qed

lemma candidates_less:
  "k < candidates a s \<longleftrightarrow> unat a + k * 4096 < unat (physical_limit (kmem s))"
proof -
  have "k < candidates a s \<longleftrightarrow> Suc k * 4096 \<le> unat (physical_limit (kmem s)) - unat a + 4095"
    unfolding candidates_def Suc_le_eq [symmetric] by (simp add: less_eq_div_iff_mult_less_eq)
  also have "\<dots> \<longleftrightarrow> unat a + k * 4096 < unat (physical_limit (kmem s))"
    by (rule step_bound_iff)
  finally show ?thesis .
qed

lemma candidates_iterates:
  assumes "room s n"
  shows "iterates a (physical_limit (kmem s)) 4096 (candidates a s)"
proof -
  let ?L = "unat (physical_limit (kmem s))"
  have le: "?L \<le> unat a + candidates a s * 4096"
    using candidates_less [of "candidates a s" a s] by simp
  have last: "candidates a s = 0 \<or> unat a + (candidates a s - 1) * 4096 < ?L"
    using candidates_less [of "candidates a s - 1" a s] by auto
  have "unat a + candidates a s * 4096 < 2 ^ 64"
  proof (cases "candidates a s")
    case 0
    then show ?thesis using unat_lt64 [of a] by simp
  next
    case (Suc m)
    have r: "?L + (unat n + 1) * 4096 < 2 ^ 64" using assms by (simp add: room_def)
    show ?thesis using last r unfolding Suc by simp
  qed
  with le last show ?thesis by (simp add: iterates_def)
qed

lemma candidate_fits:
  assumes "room s n" and "k < candidates a s"
  shows "fits (a + of_nat k * 4096) n"
proof -
  have u: "unat (a + of_nat k * 4096) = unat a + k * 4096"
    using iterates_less(2) [OF candidates_iterates [OF assms(1)] assms(2)] by simp
  show ?thesis using assms candidates_less [of k a s] unfolding fits_def u room_def by simp
qed

lemma pm_get_unfold:
  "pm_get n a s = Option.bind (for_return a (physical_limit (kmem s)) 4096 (try_page n) s)
     (\<lambda>(r, s). case r of Some i \<Rightarrow> Some (i, s) | None \<Rightarrow> None)"
  by (simp add: pm_get_def try_page_def [abs_def])

lemma try_page_eq:
  "fits i n \<Longrightarrow> try_page n i s =
     Some (if run i n \<subseteq> free_pages s then (Some i, taken i n s) else (None, s))"
  by (simp add: try_page_def pm_allocate_eq)

lemma pm_get_first:
  assumes room: "room s n" and m: "m < candidates a s"
    and free: "run (a + of_nat m * 4096) n \<subseteq> free_pages s"
    and before: "\<And>k. k < m \<Longrightarrow> \<not> run (a + of_nat k * 4096) n \<subseteq> free_pages s"
  shows "pm_get n a s = Some (a + of_nat m * 4096, taken (a + of_nat m * 4096) n s)"
proof -
  have "for_return a (physical_limit (kmem s)) 4096 (try_page n) s =
      Some (Some (a + of_nat m * 4096), taken (a + of_nat m * 4096) n s)"
    by (rule for_return_some [OF candidates_iterates [OF room] m])
      (use m free before candidate_fits [OF room] in \<open>auto simp: try_page_eq\<close>)
  then show ?thesis by (simp add: pm_get_unfold)
qed

lemma pm_get_none:
  assumes room: "room s n"
    and "\<And>k. k < candidates a s \<Longrightarrow> \<not> run (a + of_nat k * 4096) n \<subseteq> free_pages s"
  shows "pm_get n a s = None"
proof -
  have "for_return a (physical_limit (kmem s)) 4096 (try_page n) s = Some (None, s)"
    by (rule for_return_none [OF candidates_iterates [OF room]])
      (use assms candidate_fits [OF room] in \<open>auto simp: try_page_eq\<close>)
  then show ?thesis by (simp add: pm_get_unfold)
qed

definition first_fit :: "u64 \<Rightarrow> u64 \<Rightarrow> kstate \<Rightarrow> nat \<Rightarrow> bool" where
  "first_fit n a s m \<longleftrightarrow> m < candidates a s \<and> run (a + of_nat m * 4096) n \<subseteq> free_pages s \<and>
     (\<forall>k < m. \<not> run (a + of_nat k * 4096) n \<subseteq> free_pages s)"

lemma first_fit_exists:
  assumes "k < candidates a s" and "run (a + of_nat k * 4096) n \<subseteq> free_pages s"
  shows "\<exists>m. first_fit n a s m"
proof -
  let ?P = "\<lambda>k. k < candidates a s \<and> run (a + of_nat k * 4096) n \<subseteq> free_pages s"
  have "?P (LEAST k. ?P k)" using assms by (intro LeastI [of ?P k]) simp
  moreover have "\<not> ?P j" if "j < (LEAST k. ?P k)" for j using that by (rule not_less_Least)
  ultimately have "first_fit n a s (LEAST k. ?P k)"
    unfolding first_fit_def by (meson less_trans)
  then show ?thesis ..
qed

lemma pm_get_first_fit:
  assumes "room s n" and "first_fit n a s m"
  shows "pm_get n a s = Some (a + of_nat m * 4096, taken (a + of_nat m * 4096) n s)"
  by (rule pm_get_first [OF assms(1)]) (use assms(2) in \<open>auto simp: first_fit_def\<close>)

lemma pm_get_None_iff:
  assumes "room s n"
  shows "pm_get n a s = None \<longleftrightarrow>
    (\<forall>k < candidates a s. \<not> run (a + of_nat k * 4096) n \<subseteq> free_pages s)" (is "_ \<longleftrightarrow> ?none")
proof (cases ?none)
  case True
  with pm_get_none [OF assms, of a] show ?thesis by simp
next
  case False
  then obtain m where "first_fit n a s m" using first_fit_exists by blast
  with pm_get_first_fit [OF assms] False show ?thesis by simp
qed

lemma pm_get_SomeE:
  assumes "room s n" and "pm_get n a s = Some (r, s')"
  obtains m where "first_fit n a s m" "r = a + of_nat m * 4096" "s' = taken r n s"
proof -
  have "\<not> (\<forall>k < candidates a s. \<not> run (a + of_nat k * 4096) n \<subseteq> free_pages s)"
    using pm_get_None_iff [OF assms(1), of a] assms(2) by simp
  then obtain m where m: "first_fit n a s m" using first_fit_exists by blast
  with pm_get_first_fit [OF assms(1) m] assms(2) show ?thesis by (intro that [of m]) simp_all
qed

lemma pm_get_SomeD:
  assumes "room s n" and "pm_get n a s = Some (r, s')"
  shows "fits r n" "run r n \<subseteq> free_pages s" "s' = taken r n s" "r < physical_limit (kmem s)"
    "\<exists>k. r = a + of_nat k * 4096 \<and> unat r = unat a + k * 4096"
proof -
  obtain m where m: "first_fit n a s m" "r = a + of_nat m * 4096" and s': "s' = taken r n s"
    using assms by (rule pm_get_SomeE)
  then have lt: "m < candidates a s" by (simp add: first_fit_def)
  note it = candidates_iterates [OF assms(1), of a]
  show "fits r n" using candidate_fits [OF assms(1) lt] m(2) by simp
  show "run r n \<subseteq> free_pages s" using m by (simp add: first_fit_def)
  show "s' = taken r n s" by (fact s')
  show "r < physical_limit (kmem s)" using iterates_less(1) [OF it lt] m(2) by simp
  show "\<exists>k. r = a + of_nat k * 4096 \<and> unat r = unat a + k * 4096"
    using iterates_less(2) [OF it lt] m(2) by auto
qed

section \<open>Returning what was taken\<close>

lemma mark_pages_back:
  assumes "\<And>p. p \<in> set ps \<Longrightarrow> bit (m (bm + of_nat (p div 8))) (p mod 8)"
  shows "mark_pages True bm ps (mark_pages False bm ps m) = m"
  by (rule ext, rule bit_word_eqI) (use assms in \<open>auto simp: bit_mark_pages\<close>)

lemma pm_free_taken:
  assumes "fits a n" and free: "run a n \<subseteq> free_pages s"
  shows "pm_free a n (taken a n s) = Some (SYS_OK, s)"
proof -
  have "run a n \<inter> free_pages (taken a n s) = {}"
    using free_pages_taken [OF assms(1)] by blast
  then have "pm_free a n (taken a n s) = Some (SYS_OK, released a (unat n) (taken a n s))"
    by (simp add: pm_free_eq [OF assms(1)])
  moreover have "released a (unat n) (taken a n s) = s"
  proof -
    have "{page_no a..<page_no a + unat n} - free_pages (taken a n s) = {page_no a..<page_no a + unat n}"
      using free_pages_taken [OF assms(1)] by (auto simp: run_def)
    then have c: "of_nat (card ({page_no a..<page_no a + unat n} - free_pages (taken a n s))) = n"
      by simp
    have m: "mark_pages True (bitmap (kmem s)) [page_no a..<page_no a + unat n]
       (mark_pages False (bitmap (kmem s)) [page_no a..<page_no a + unat n] (ram s)) = ram s"
      by (rule mark_pages_back) (use free in \<open>auto simp: run_def free_pages_def page_free_def\<close>)
    show ?thesis unfolding released_def c by (simp add: taken_def m)
  qed
  ultimately show ?thesis by simp
qed

section \<open>The free-size counter\<close>

definition accounted :: "kstate \<Rightarrow> bool" where
  "accounted s \<longleftrightarrow> free_size (kmem s) = of_nat (card (free_pages s)) * PAGE_SIZE"

lemma card_run: "card (run a n) = unat n"
  by (simp add: run_def)

lemma accounted_taken:
  assumes "fits a n" and "run a n \<subseteq> free_pages s" and "accounted s"
  shows "accounted (taken a n s)"
proof -
  have "card (free_pages s - run a n) = card (free_pages s) - unat n"
    using card_Diff_subset [OF _ assms(2)] by (simp add: card_run run_def)
  moreover have "unat n \<le> card (free_pages s)"
    using card_mono [OF _ assms(2)] by (simp add: card_run)
  ultimately show ?thesis using assms
    by (simp add: accounted_def free_pages_taken) (simp add: taken_def algebra_simps)
qed

lemma accounted_released:
  assumes "fits a n" and "accounted s"
  shows "accounted (released a (unat n) s)"
proof -
  have "card (free_pages s \<union> run a n) = card (free_pages s) + card (run a n - free_pages s)"
    by (metis Un_Diff_cancel Diff_disjoint card_Un_disjoint finite_Diff finite_atLeastLessThan
        finite_free_pages run_def)
  then show ?thesis using assms
    by (simp add: accounted_def free_pages_released) (simp add: released_def run_def algebra_simps)
qed

section \<open>The allocator meets the contract\<close>

definition pm_put :: "u64 \<Rightarrow> u64 \<Rightarrow> kstate \<Rightarrow> kstate option" where
  "pm_put a n s = map_option snd (pm_free a n s)"

definition pm_held :: "u64 \<Rightarrow> u64 \<Rightarrow> kstate \<Rightarrow> bool" where
  "pm_held a n s \<longleftrightarrow> fits a n \<and> run a n \<inter> free_pages s = {}"

lemma pm_put_held: "pm_held a n s \<Longrightarrow> pm_put a n s = Some (released a (unat n) s)"
  by (simp add: pm_put_def pm_held_def pm_free_eq)

lemma kmem_taken [simp]: "physical_limit (kmem (taken a n s)) = physical_limit (kmem s)"
  "bitmap (kmem (taken a n s)) = bitmap (kmem s)"
  by (simp_all add: taken_def)

lemma limit_released [simp]: "physical_limit (kmem (released a k s)) = physical_limit (kmem s)"
  by (simp add: released_def)

lemma room_cong: "physical_limit (kmem s') = physical_limit (kmem s) \<Longrightarrow> room s' = room s"
  by (simp add: room_def fun_eq_iff)

interpretation pm: block_store "\<lambda>s. True" room free_pages "\<lambda>n. pm_get n 0" pm_put run pm_held
proof
  fix n a s s'
  assume "room s n" and get: "pm_get n 0 s = Some (a, s')"
  note g = pm_get_SomeD [OF this]
  then show "True \<and> room s' = room s \<and> run a n \<subseteq> free_pages s \<and>
      free_pages s' = free_pages s - run a n \<and> pm_held a n s'"
    using room_cong [of s' s] free_pages_taken [of a n s] by (auto simp: pm_held_def)
  fix b m
  assume "pm_held b m s"
  then show "pm_held b m s'" using g free_pages_taken [of a n s] by (auto simp: pm_held_def)
next
  fix a n s
  assume held: "pm_held a n s"
  then show "\<exists>s'. pm_put a n s = Some s' \<and> True \<and> room s' = room s \<and>
      free_pages s' = free_pages s \<union> run a n"
    using pm_put_held [OF held] free_pages_released [of a n s] room_cong [of "released a (unat n) s" s]
    by (auto simp: pm_held_def)
  show "run a n \<inter> free_pages s = {}" using held by (simp add: pm_held_def)
  fix s' b m
  assume "pm_put a n s = Some s'" and "pm_held b m s" and "run a n \<inter> run b m = {}"
  then show "pm_held b m s'"
    using held pm_put_held [OF held] free_pages_released [of a n s] by (auto simp: pm_held_def)
qed

end
