(* ===== verification/Phys_Init.thy ===== *)
theory Phys_Init
  imports Phys_Alloc
begin

text \<open>
  \<^verbatim>\<open>pm_init\<close> of \<^verbatim>\<open>kernel/src/sys/mmu.c\<close>: sizing the memory from the bootloader's
  memory map, placing the bitmap and populating it.

  The types of \<^verbatim>\<open>limine.h\<close> are not in the repository. An entry has the three fields the
  code reads; its type is one of the constants \<^verbatim>\<open>ENTRY_INFO\<close> names, or another value.
  A request whose response is NULL is \<open>None\<close>.
\<close>

datatype memmap_type =
    LIMINE_MEMMAP_USABLE
  | LIMINE_MEMMAP_RESERVED
  | LIMINE_MEMMAP_ACPI_RECLAIMABLE
  | LIMINE_MEMMAP_ACPI_NVS
  | LIMINE_MEMMAP_BAD_MEMORY
  | LIMINE_MEMMAP_BOOTLOADER_RECLAIMABLE
  | LIMINE_MEMMAP_KERNEL_AND_MODULES
  | LIMINE_MEMMAP_FRAMEBUFFER
  | LIMINE_MEMMAP_OTHER u64

record memmap_entry =
  me_base :: u64
  me_length :: u64
  me_type :: memmap_type

definition ENTRY_TYPE_CHECK :: "memmap_entry \<Rightarrow> bool" where
  "ENTRY_TYPE_CHECK e \<longleftrightarrow>
     me_type e = LIMINE_MEMMAP_USABLE \<or>
     me_type e = LIMINE_MEMMAP_BOOTLOADER_RECLAIMABLE \<or>
     me_type e = LIMINE_MEMMAP_KERNEL_AND_MODULES \<or>
     me_type e = LIMINE_MEMMAP_ACPI_RECLAIMABLE"

definition pm_account :: "memmap_entry \<Rightarrow> kernel_mem_info \<Rightarrow> kernel_mem_info" where
  "pm_account e k =
     (if ENTRY_TYPE_CHECK e
      then let k = k\<lparr>total_size := total_size k + me_length e\<rparr>;
               new_limit = me_base e + me_length e
           in if new_limit > physical_limit k then k\<lparr>physical_limit := new_limit\<rparr> else k
      else k)"

definition low_entry :: "memmap_entry \<Rightarrow> bool" where
  "low_entry e \<longleftrightarrow> me_base e + me_length e \<le> 0x100000"

definition bitmap_fits_in :: "u64 \<Rightarrow> memmap_entry \<Rightarrow> bool" where
  "bitmap_fits_in bitmap_size e \<longleftrightarrow>
     \<not> low_entry e \<and> me_length e \<ge> bitmap_size \<and> me_type e = LIMINE_MEMMAP_USABLE"

definition bitmap_bytes :: "kernel_mem_info \<Rightarrow> u64" where
  "bitmap_bytes k = physical_limit k div (PAGE_SIZE * PAGES_PER_BYTE)"

definition pm_place :: "memmap_entry list \<Rightarrow> kernel_mem_info \<Rightarrow> kernel_mem_info" where
  "pm_place es k =
     (case find (bitmap_fits_in (bitmap_bytes k)) es of
        Some e \<Rightarrow> k\<lparr>bitmap := PHYS_TO_VIRT (me_base e)\<rparr>
      | None \<Rightarrow> k)"

primrec pm_populate :: "memmap_entry list \<Rightarrow> kstate \<Rightarrow> kstate option" where
  "pm_populate [] s = Some s"
| "pm_populate (e # es) s =
     (if \<not> low_entry e \<and> me_type e = LIMINE_MEMMAP_USABLE
      then do { (_, s) \<leftarrow> pm_free (me_base e) (NUM_PAGES (me_length e)) s; pm_populate es s }
      else pm_populate es s)"

definition pm_init :: "memmap_entry list option \<Rightarrow> kstate \<Rightarrow> kstate option" where
  "pm_init res s =
     (case res of
        None \<Rightarrow> None
      | Some es \<Rightarrow>
          if es = [] then None
          else do {
            let k = (kmem s)\<lparr>free_size := 0, physical_limit := 0, total_size := 0\<rparr>;
            let k = fold pm_account es k;
            let k = pm_place es k;
            let s = s\<lparr>kmem := k, ram := memset (bitmap k) 0 (bitmap_bytes k) (ram s)\<rparr>;
            s \<leftarrow> pm_populate es s;
            (_, s) \<leftarrow> pm_allocate (VIRT_TO_PHYS (bitmap (kmem s))) (NUM_PAGES (bitmap_bytes k)) s;
            Some s
          })"

section \<open>Sizing\<close>

lemma pm_account_limit:
  "physical_limit (fold pm_account es k) =
     Max (insert (physical_limit k) ((\<lambda>e. me_base e + me_length e) ` {e \<in> set es. ENTRY_TYPE_CHECK e}))"
proof (induction es arbitrary: k)
  case (Cons e es)
  have set: "{x. (x = e \<or> x \<in> set es) \<and> ENTRY_TYPE_CHECK x} =
      (if ENTRY_TYPE_CHECK e then insert e {x \<in> set es. ENTRY_TYPE_CHECK x} else {x \<in> set es. ENTRY_TYPE_CHECK x})"
    by auto
  let ?S = "(\<lambda>e. me_base e + me_length e) ` {e \<in> set es. ENTRY_TYPE_CHECK e}"
  have "Max (insert (max x y) T) = Max (insert x (insert y T))" if "finite T" for x y and T :: "u64 set"
    using that by (cases "T = {}") (simp_all add: max.assoc)
  then have "Max (insert (max x y) ?S) = Max (insert x (insert y ?S))" for x y by simp
  moreover have "physical_limit (pm_account e k) =
      (if ENTRY_TYPE_CHECK e then max (physical_limit k) (me_base e + me_length e) else physical_limit k)"
    by (auto simp: pm_account_def Let_def max_def)
  ultimately show ?case by (simp add: Cons.IH set)
qed simp

lemma pm_account_total:
  "total_size (fold pm_account es k) = total_size k + sum_list (map me_length (filter ENTRY_TYPE_CHECK es))"
  by (induction es arbitrary: k) (simp_all add: pm_account_def Let_def algebra_simps)

lemma pm_account_frame [simp]:
  "bitmap (fold pm_account es k) = bitmap k" "free_size (fold pm_account es k) = free_size k"
  by (induction es arbitrary: k) (simp_all add: pm_account_def Let_def)

lemma pm_place_frame [simp]:
  "physical_limit (pm_place es k) = physical_limit k" "total_size (pm_place es k) = total_size k"
  "free_size (pm_place es k) = free_size k" "bitmap_bytes (pm_place es k) = bitmap_bytes k"
  by (simp_all add: pm_place_def bitmap_bytes_def split: option.splits)

section \<open>Populating\<close>

text \<open>The pages a usable entry contributes, and the sanity the boot protocol gives entries.\<close>

definition entry_pages :: "memmap_entry \<Rightarrow> nat set" where
  "entry_pages e = run (me_base e) (NUM_PAGES (me_length e))"

definition pooled :: "memmap_entry \<Rightarrow> bool" where
  "pooled e \<longleftrightarrow> \<not> low_entry e \<and> me_type e = LIMINE_MEMMAP_USABLE"

lemma pm_populate_spec:
  assumes "\<forall>e \<in> set es. pooled e \<longrightarrow> fits (me_base e) (NUM_PAGES (me_length e))"
  shows "\<exists>s'. pm_populate es s = Some s' \<and>
    free_pages s' = free_pages s \<union> \<Union> (entry_pages ` {e \<in> set es. pooled e}) \<and>
    bitmap (kmem s') = bitmap (kmem s) \<and> physical_limit (kmem s') = physical_limit (kmem s) \<and>
    total_size (kmem s') = total_size (kmem s) \<and> (accounted s \<longrightarrow> accounted s')"
  using assms
proof (induction es arbitrary: s)
  case (Cons e es)
  show ?case
  proof (cases "pooled e")
    case True
    let ?n = "NUM_PAGES (me_length e)" and ?t = "released (me_base e) (unat (NUM_PAGES (me_length e))) s"
    from True Cons.prems have f: "fits (me_base e) ?n" by simp
    have "\<exists>s'. pm_populate es ?t = Some s' \<and>
      free_pages s' = free_pages ?t \<union> \<Union> (entry_pages ` {e \<in> set es. pooled e}) \<and>
      bitmap (kmem s') = bitmap (kmem ?t) \<and> physical_limit (kmem s') = physical_limit (kmem ?t) \<and>
      total_size (kmem s') = total_size (kmem ?t) \<and> (accounted ?t \<longrightarrow> accounted s')"
      using Cons.prems by (intro Cons.IH) simp
    moreover have "pm_populate (e # es) s = pm_populate es ?t"
      using True pm_free_eq [OF f] by (simp add: pooled_def)
    moreover have "{x \<in> set (e # es). pooled x} = insert e {x \<in> set es. pooled x}"
      using True by auto
    moreover have "free_pages ?t = free_pages s \<union> entry_pages e"
      using free_pages_released [OF f] by (simp add: entry_pages_def)
    moreover have "total_size (kmem ?t) = total_size (kmem s)" by (simp add: released_def)
    moreover have "accounted s \<longrightarrow> accounted ?t" using accounted_released [OF f] by blast
    ultimately show ?thesis by (auto simp: Un_assoc)
  next
    case False
    then have eq: "{x \<in> set (e # es). pooled x} = {x \<in> set es. pooled x}" by auto
    have "pm_populate (e # es) s = pm_populate es s" using False by (auto simp: pooled_def)
    then show ?thesis using Cons.IH [of s] Cons.prems eq by simp
  qed
qed simp

section \<open>The state after boot\<close>

lemma free_pages_cleared:
  assumes "k \<le> 2 ^ 49"
  shows "free_pages (s\<lparr>kmem := K, ram := memset (bitmap K) 0 (of_nat k) (ram s)\<rparr>) =
    {p. p < 2 ^ 52 \<and> k \<le> p div 8 \<and> page_free (s\<lparr>kmem := K\<rparr>) p}"
proof -
  have "unat (of_nat k :: u64) = k" using assms by (intro unat_of_nat64) simp
  moreover have "in_range (bitmap K) k (bitmap K + of_nat (p div 8)) \<longleftrightarrow> p div 8 < k"
    if "p < 2 ^ 52" for p
    using that by (simp add: in_range_def unat_of_nat64)
  ultimately show ?thesis
    by (auto simp: free_pages_def page_free_def memset_apply)
qed

lemma NUM_PAGES_mono:
  "unat b + 4095 < 2 ^ 64 \<Longrightarrow> a \<le> b \<Longrightarrow> unat (NUM_PAGES a) \<le> unat (NUM_PAGES b)"
  by (simp add: NUM_PAGES_unat word_le_nat_alt div_le_mono)

definition booted_limit :: "memmap_entry list \<Rightarrow> u64" where
  "booted_limit es =
     Max (insert 0 ((\<lambda>e. me_base e + me_length e) ` {e \<in> set es. ENTRY_TYPE_CHECK e}))"

definition map_bytes :: "memmap_entry list \<Rightarrow> u64" where
  "map_bytes es = booted_limit es div 32768"

text \<open>
  The loader's map is sane: a usable entry above 1 MB does not run off the address space,
  and one of them (\<open>e0\<close>, the first the code finds) can hold the bitmap.
\<close>

definition sane_map :: "memmap_entry list \<Rightarrow> memmap_entry \<Rightarrow> bool" where
  "sane_map es e0 \<longleftrightarrow>
     (\<forall>e \<in> set es. pooled e \<longrightarrow>
        unat (me_length e) + 4095 < 2 ^ 64 \<and> fits (me_base e) (NUM_PAGES (me_length e))) \<and>
     find (bitmap_fits_in (map_bytes es)) es = Some e0"

lemma find_SomeD: "find P xs = Some x \<Longrightarrow> P x \<and> x \<in> set xs"
  by (induction xs) (auto split: if_splits)

text \<open>The state in which the pages are released: sized, placed and cleared.\<close>

definition cleared_state :: "memmap_entry list \<Rightarrow> memmap_entry \<Rightarrow> kstate \<Rightarrow> kstate" where
  "cleared_state es e0 s =
     s\<lparr>kmem := \<lparr>physical_limit = booted_limit es,
         total_size = sum_list (map me_length (filter ENTRY_TYPE_CHECK es)), free_size = 0,
         bitmap = PHYS_TO_VIRT (me_base e0), \<dots> = kernel_mem_info.more (kmem s)\<rparr>,
       ram := memset (PHYS_TO_VIRT (me_base e0)) 0 (map_bytes es) (ram s)\<rparr>"

lemma pm_populate_kmem:
  assumes "\<forall>e \<in> set es. pooled e \<longrightarrow> fits (me_base e) (NUM_PAGES (me_length e))"
  shows "\<exists>t. pm_populate es (cleared_state es' e0 s) = Some t \<and>
    free_pages t = free_pages (cleared_state es' e0 s) \<union> \<Union> (entry_pages ` {e \<in> set es. pooled e}) \<and>
    bitmap (kmem t) = PHYS_TO_VIRT (me_base e0) \<and> physical_limit (kmem t) = booted_limit es' \<and>
    total_size (kmem t) = sum_list (map me_length (filter ENTRY_TYPE_CHECK es')) \<and>
    (accounted (cleared_state es' e0 s) \<longrightarrow> accounted t)"
  using pm_populate_spec [OF assms, of "cleared_state es' e0 s"] by (simp add: cleared_state_def)

lemma pm_init_start:
  fixes s :: kstate
  assumes "find (bitmap_fits_in (map_bytes es)) es = Some e0"
  shows "pm_init (Some es) s =
    Option.bind (pm_populate es (cleared_state es e0 s)) (\<lambda>t.
      map_option snd (pm_allocate (VIRT_TO_PHYS (bitmap (kmem t))) (NUM_PAGES (map_bytes es)) t))"
proof -
  let ?K = "kmem (cleared_state es e0 s)"
  have "kernel_mem_info.more (fold pm_account es k) = kernel_mem_info.more k" for k
    by (induction es arbitrary: k) (simp_all add: pm_account_def Let_def)
  then have acc: "fold pm_account es ((kmem s)\<lparr>free_size := 0, physical_limit := 0, total_size := 0\<rparr>) =
      ?K\<lparr>bitmap := bitmap (kmem s)\<rparr>"
    by (intro kernel_mem_info.equality)
      (simp_all add: pm_account_limit pm_account_total cleared_state_def booted_limit_def)
  have nb: "bitmap_bytes (?K\<lparr>bitmap := b\<rparr>) = map_bytes es" "bitmap_bytes ?K = map_bytes es" for b
    by (simp_all add: bitmap_bytes_def cleared_state_def map_bytes_def)
  have "pm_place es (?K\<lparr>bitmap := bitmap (kmem s)\<rparr>) = ?K"
    using assms by (simp add: pm_place_def nb) (simp add: cleared_state_def)
  moreover have "s\<lparr>kmem := ?K, ram := memset (bitmap ?K) 0 (map_bytes es) (ram s)\<rparr> = cleared_state es e0 s"
    by (simp add: cleared_state_def)
  moreover have "es \<noteq> []" using assms by auto
  ultimately show ?thesis
    by (simp add: pm_init_def Let_def acc nb map_option_case split: option.split) (auto split: bind_split)
qed

lemma pm_init_eq:
  fixes s :: kstate
  assumes sane: "sane_map es e0"
  defines "B \<equiv> run (me_base e0) (NUM_PAGES (map_bytes es))" and "s0 \<equiv> cleared_state es e0 s"
  shows "\<exists>t. pm_populate es s0 = Some t \<and> pm_init (Some es) s = Some (taken (me_base e0) (NUM_PAGES (map_bytes es)) t) \<and>
    B \<subseteq> \<Union> (entry_pages ` {e \<in> set es. pooled e}) \<and> fits (me_base e0) (NUM_PAGES (map_bytes es)) \<and>
    bitmap (kmem t) = PHYS_TO_VIRT (me_base e0) \<and> physical_limit (kmem t) = booted_limit es \<and>
    total_size (kmem t) = sum_list (map me_length (filter ENTRY_TYPE_CHECK es)) \<and>
    free_pages t = free_pages s0 \<union> \<Union> (entry_pages ` {e \<in> set es. pooled e}) \<and>
    (accounted s0 \<longrightarrow> accounted t)"
proof -
  let ?n = "NUM_PAGES (map_bytes es)" and ?P = "\<Union> (entry_pages ` {e \<in> set es. pooled e})"
  have find: "find (bitmap_fits_in (map_bytes es)) es = Some e0"
    and fit: "\<forall>e \<in> set es. pooled e \<longrightarrow> unat (me_length e) + 4095 < 2 ^ 64 \<and> fits (me_base e) (NUM_PAGES (me_length e))"
    using sane by (simp_all add: sane_map_def)
  have e0: "bitmap_fits_in (map_bytes es) e0" "e0 \<in> set es" using find_SomeD [OF find] by simp_all
  then have p0: "pooled e0" and le0: "map_bytes es \<le> me_length e0"
    by (simp_all add: bitmap_fits_in_def pooled_def)
  have l0: "unat (me_length e0) + 4095 < 2 ^ 64" and f0: "fits (me_base e0) (NUM_PAGES (me_length e0))"
    using fit p0 e0(2) by simp_all
  have mono: "unat ?n \<le> unat (NUM_PAGES (me_length e0))" by (rule NUM_PAGES_mono [OF l0 le0])
  then have fB: "fits (me_base e0) ?n" using f0 by (simp add: fits_def)
  have BP: "B \<subseteq> ?P" using mono p0 e0(2) by (fastforce simp: B_def entry_pages_def run_def)
  have "\<forall>e \<in> set es. pooled e \<longrightarrow> fits (me_base e) (NUM_PAGES (me_length e))" using fit by simp
  from pm_populate_kmem [OF this, of es e0 s, folded s0_def] obtain t where
    t: "pm_populate es s0 = Some t" "free_pages t = free_pages s0 \<union> ?P" "bitmap (kmem t) = PHYS_TO_VIRT (me_base e0)"
      "physical_limit (kmem t) = booted_limit es"
      "total_size (kmem t) = sum_list (map me_length (filter ENTRY_TYPE_CHECK es))" "accounted s0 \<longrightarrow> accounted t"
    by blast
  have "run (me_base e0) ?n \<subseteq> free_pages t" using BP t(2) by (auto simp: B_def)
  then have "pm_allocate (me_base e0) ?n t = Some (SYS_OK, taken (me_base e0) ?n t)"
    by (simp add: pm_allocate_eq [OF fB])
  then have "pm_init (Some es) s = Some (taken (me_base e0) ?n t)"
    using pm_init_start [OF find, of s] t(1,3) by (simp add: s0_def)
  with t BP fB show ?thesis by blast
qed

end
