(* ===== verification/Kmalloc.thy ===== *)
theory Kmalloc
  imports Phys_Init
begin

text \<open>
  The kernel heap of \<^verbatim>\<open>kernel/src/common/kmalloc.c\<close>. A block is a page of metadata
  (\<^verbatim>\<open>KMEM_METADATA\<close>) followed by the pages of the payload; the structure is kept in
  memory at the offsets the x86-64 ABI gives its fields.

  \<^verbatim>\<open>func\<close> is the address of the caller's \<^verbatim>\<open>__func__\<close> string, \<^verbatim>\<open>line\<close> the
  caller's \<^verbatim>\<open>__LINE__\<close>.
\<close>

section \<open>The code\<close>

abbreviation (input) KMEM_MAGIC_NUMBER :: u64 where "KMEM_MAGIC_NUMBER \<equiv> 0xBEEFBEEF"

text \<open>Offsets of the fields of \<^verbatim>\<open>KMEM_METADATA\<close>; \<^verbatim>\<open>file_name\<close> has 512 bytes.\<close>

abbreviation (input) md_magic :: "u64 \<Rightarrow> u64" where "md_magic mem \<equiv> mem"
abbreviation (input) md_checkno :: "u64 \<Rightarrow> u64" where "md_checkno mem \<equiv> mem + 8"
abbreviation (input) md_num_pages :: "u64 \<Rightarrow> u64" where "md_num_pages mem \<equiv> mem + 16"
abbreviation (input) md_size :: "u64 \<Rightarrow> u64" where "md_size mem \<equiv> mem + 24"
abbreviation (input) md_file_name :: "u64 \<Rightarrow> u64" where "md_file_name mem \<equiv> mem + 32"
abbreviation (input) md_lineno :: "u64 \<Rightarrow> u64" where "md_lineno mem \<equiv> mem + 544"

definition kmalloc_header :: "u64 \<Rightarrow> u64 \<Rightarrow> u64 \<Rightarrow> u64 \<Rightarrow> u64 \<Rightarrow> mem \<Rightarrow> mem" where
  "kmalloc_header mem checkno bytes func line m =
     (let m = memset mem 0 (bytes + PAGE_SIZE) m;
          m = store64 (md_magic mem) KMEM_MAGIC_NUMBER m;
          m = store64 (md_checkno mem) checkno m;
          m = store64 (md_num_pages mem) (NUM_PAGES bytes) m;
          m = store64 (md_size mem) bytes m;
          m = store64 (md_lineno mem) line m
      in strncpy (md_file_name mem) func (512 - 1) m)"

definition kmalloc_impl :: "u64 \<Rightarrow> u64 \<Rightarrow> u64 \<Rightarrow> kstate \<Rightarrow> (u64 \<times> kstate) option" where
  "kmalloc_impl bytes func line s = do {
     (p, s) \<leftarrow> pm_get (NUM_PAGES bytes + 1) 0 s;
     let mem = PHYS_TO_VIRT p;
     Some (mem + PAGE_SIZE,
       s\<lparr>ram := kmalloc_header mem (kmalloc_checkno s) bytes func line (ram s)\<rparr>)
   }"

definition kfree_impl :: "u64 \<Rightarrow> kstate \<Rightarrow> kstate option" where
  "kfree_impl address s =
     (let mem = address - PAGE_SIZE
      in if load64 (md_magic mem) (ram s) = KMEM_MAGIC_NUMBER
         then do {
           (_, s) \<leftarrow> pm_free (VIRT_TO_PHYS mem) (load64 (md_num_pages mem) (ram s) + 1) s;
           Some (s\<lparr>ram := store64 (md_magic mem) 0 (ram s)\<rparr>)
         }
         else Some s)"

definition krealloc_header :: "u64 \<Rightarrow> u64 \<Rightarrow> u64 \<Rightarrow> u64 \<Rightarrow> mem \<Rightarrow> mem" where
  "krealloc_header mem new_size func line m =
     (let m = store64 (md_size mem) new_size m;
          m = store64 (md_num_pages mem) (NUM_PAGES new_size) m;
          m = store64 (md_magic mem) KMEM_MAGIC_NUMBER m;
          m = store64 (md_lineno mem) line m
      in strncpy (md_file_name mem) func (512 - 1) m)"

definition krealloc_copy :: "u64 \<Rightarrow> u64 \<Rightarrow> u64 \<Rightarrow> mem \<Rightarrow> mem" where
  "krealloc_copy new_base address new_size m =
     (let mem = address - PAGE_SIZE;
          m = memset new_base 0 new_size m
      in if load64 (md_size mem) m > new_size
         then memcpy new_base address new_size m
         else memcpy new_base address (load64 (md_size mem) m) m)"

definition krealloc_impl :: "u64 \<Rightarrow> u64 \<Rightarrow> u64 \<Rightarrow> u64 \<Rightarrow> kstate \<Rightarrow> (u64 \<times> kstate) option" where
  "krealloc_impl address new_size func line s =
     (if address = 0 then kmalloc_impl new_size func line s
      else let mem = address - PAGE_SIZE
      in if NUM_PAGES (load64 (md_size mem) (ram s)) = NUM_PAGES new_size
         then Some (address, s\<lparr>ram := krealloc_header mem new_size func line (ram s)\<rparr>)
         else do {
           (new_base, s) \<leftarrow> kmalloc_impl new_size func line s;
           s \<leftarrow> kfree_impl address (s\<lparr>ram := krealloc_copy new_base address new_size (ram s)\<rparr>);
           Some (new_base, s)
         })"

section \<open>Memory layout\<close>

text \<open>
  The guard page is the first page at or past the physical limit. The search of
  \<^verbatim>\<open>pm_get\<close> starts below it and stops at it when its bit is clear, so the pages the
  allocator can hand out are those below it.
\<close>

definition guard_page :: "kstate \<Rightarrow> nat" where
  "guard_page s = (unat (physical_limit (kmem s)) + 4095) div 4096"

definition avail :: "kstate \<Rightarrow> nat set" where
  "avail s = free_pages s \<inter> {..<guard_page s}"

definition bitmap_frames :: "kstate \<Rightarrow> nat set" where
  "bitmap_frames s = (\<lambda>p. frame_of (bitmap (kmem s) + of_nat (p div 8))) ` {..guard_page s}"

definition alloc_ok :: "kstate \<Rightarrow> bool" where
  "alloc_ok s \<longleftrightarrow> unat (physical_limit (kmem s)) \<le> 2 ^ 46 \<and> \<not> page_free s (guard_page s) \<and>
     bitmap_frames s \<inter> avail s = {}"

definition same_layout :: "kstate \<Rightarrow> kstate \<Rightarrow> bool" where
  "same_layout s s' \<longleftrightarrow> physical_limit (kmem s') = physical_limit (kmem s) \<and>
     bitmap (kmem s') = bitmap (kmem s)"

definition only_changes :: "nat set \<Rightarrow> kstate \<Rightarrow> kstate \<Rightarrow> bool" where
  "only_changes F s s' \<longleftrightarrow> same_layout s s' \<and> (\<forall>a. frame_of a \<notin> F \<longrightarrow> ram s' a = ram s a)"

lemma only_changes_refl [simp]: "only_changes F s s"
  by (simp add: only_changes_def same_layout_def)

lemma only_changes_trans:
  "only_changes F s t \<Longrightarrow> only_changes G t u \<Longrightarrow> only_changes (F \<union> G) s u"
  by (simp add: only_changes_def same_layout_def)

lemma only_changes_mono: "only_changes F s t \<Longrightarrow> F \<subseteq> G \<Longrightarrow> only_changes G s t"
  by (auto simp: only_changes_def)

lemma layout_simps:
  assumes "same_layout s s'"
  shows "guard_page s' = guard_page s" and "bitmap_frames s' = bitmap_frames s"
  using assms by (simp_all add: same_layout_def guard_page_def bitmap_frames_def)

lemma page_free_only_changes:
  assumes "only_changes F s s'" and "F \<inter> bitmap_frames s = {}" and "p \<le> guard_page s"
  shows "page_free s' p = page_free s p"
proof -
  have "frame_of (bitmap (kmem s) + of_nat (p div 8)) \<notin> F"
    using assms(2,3) by (auto simp: bitmap_frames_def)
  with assms(1) show ?thesis by (simp add: only_changes_def same_layout_def page_free_def)
qed

lemma guard_page_bound: "guard_page s < 2 ^ 52 + 1"
  using unat_lt64 [of "physical_limit (kmem s)"] by (simp add: guard_page_def less_mult_imp_div_less)

lemma avail_alt: "avail s = {p. p < guard_page s \<and> p < 2 ^ 52 \<and> page_free s p}"
  by (auto simp: avail_def free_pages_def)

lemma avail_only_changes:
  assumes "only_changes F s s'" and "F \<inter> bitmap_frames s = {}"
  shows "avail s' = avail s" and "alloc_ok s' = alloc_ok s"
proof -
  have lay: "same_layout s s'" using assms(1) by (simp add: only_changes_def)
  note p = page_free_only_changes [OF assms]
  show av: "avail s' = avail s"
    using p by (auto simp: avail_alt layout_simps [OF lay])
  show "alloc_ok s' = alloc_ok s"
    using p [of "guard_page s"] lay av
    by (simp add: alloc_ok_def layout_simps [OF lay] same_layout_def)
qed

lemma only_changes_taken:
  assumes "fits a n" and "run a n \<subseteq> {..guard_page s}"
  shows "only_changes (bitmap_frames s) s (taken a n s)"
proof -
  have "mark_pages False (bitmap (kmem s)) [page_no a..<page_no a + unat n] (ram s) v = ram s v"
    if "frame_of v \<notin> bitmap_frames s" for v
    by (rule mark_pages_outside) (use that assms(2) in \<open>auto simp: bitmap_frames_def run_def\<close>)
  then show ?thesis by (simp add: only_changes_def same_layout_def) (simp add: taken_def)
qed

lemma only_changes_released:
  assumes "fits a n" and "run a n \<subseteq> {..guard_page s}"
  shows "only_changes (bitmap_frames s) s (released a (unat n) s)"
proof -
  have "mark_pages True (bitmap (kmem s)) [page_no a..<page_no a + unat n] (ram s) v = ram s v"
    if "frame_of v \<notin> bitmap_frames s" for v
    by (rule mark_pages_outside) (use that assms(2) in \<open>auto simp: bitmap_frames_def run_def\<close>)
  then show ?thesis by (simp add: only_changes_def same_layout_def) (simp add: released_def)
qed

text \<open>A run of direct-map frames is a byte range.\<close>

lemma frame_of_run:
  assumes "4096 dvd unat p" and "fits p n"
  shows "frame_of a \<in> run p n \<longleftrightarrow> in_range (PHYS_TO_VIRT p) (unat n * 4096) a"
proof -
  define q where "q = VIRT_TO_PHYS a"
  from assms(1) obtain c where c: "unat p = 4096 * c" by blast
  have d: "a - PHYS_TO_VIRT p = q - p" by (simp add: q_def PHYS_TO_VIRT_def VIRT_TO_PHYS_def)
  have f: "unat p + unat n * 4096 < 2 ^ 64" using assms(2) by (simp add: fits_def)
  have "page_no q \<in> run p n \<longleftrightarrow> unat p \<le> unat q \<and> unat q < unat p + unat n * 4096"
    unfolding run_def page_no_def c by auto
  also have "\<dots> \<longleftrightarrow> unat (q - p) < unat n * 4096"
  proof (cases "p \<le> q")
    case True
    then show ?thesis by (auto simp: unat_sub word_le_nat_alt)
  next
    case False
    then have "unat q < unat p" by (simp add: word_le_nat_alt)
    moreover have "unat (q - p) = unat q + 2 ^ 64 - unat p"
      using False by (simp add: unat_sub_if_size word_size word_le_nat_alt)
    ultimately show ?thesis using f by simp
  qed
  finally show ?thesis by (simp add: in_range_def d q_def)
qed

section \<open>Getting pages under a well-formed layout\<close>

lemma guard_page_less: "alloc_ok s \<Longrightarrow> guard_page s < 2 ^ 52"
  by (simp add: alloc_ok_def guard_page_def less_mult_imp_div_less)

lemma alloc_room: "alloc_ok s \<Longrightarrow> unat n \<le> 2 ^ 36 \<Longrightarrow> room s n"
  by (simp add: alloc_ok_def room_def)

lemma pm_get_alloc:
  assumes ok: "alloc_ok s" and n: "unat n \<le> 2 ^ 36" and get: "pm_get n 0 s = Some (p, s')"
  shows "4096 dvd unat p" "fits p n" "run p n \<subseteq> avail s" "s' = taken p n s"
    "only_changes (bitmap_frames s) s s'" "avail s' = avail s - run p n" "alloc_ok s'"
    "kmalloc_checkno s' = kmalloc_checkno s"
proof -
  note g = pm_get_SomeD [OF alloc_room [OF ok n] get]
  show "4096 dvd unat p" using g(5) by auto
  show f: "fits p n" by (fact g(1))
  show s': "s' = taken p n s" by (fact g(3))
  have start: "page_no p < guard_page s"
    using g(4) by (simp add: page_no_def guard_page_def word_less_nat_alt)
  have nf: "guard_page s \<notin> free_pages s" using ok by (simp add: alloc_ok_def free_pages_def)
  show sub: "run p n \<subseteq> avail s"
  proof
    fix q assume q: "q \<in> run p n"
    have "q < guard_page s"
    proof (rule ccontr)
      assume "\<not> q < guard_page s"
      with q start have "guard_page s \<in> run p n" by (simp add: run_def)
      with g(2) nf show False by blast
    qed
    with q g(2) show "q \<in> avail s" by (auto simp: avail_def)
  qed
  then have "run p n \<subseteq> {..guard_page s}" by (auto simp: avail_def)
  from only_changes_taken [OF f this] show oc: "only_changes (bitmap_frames s) s s'"
    by (simp add: s')
  then have lay: "same_layout s s'" by (simp add: only_changes_def)
  show av: "avail s' = avail s - run p n"
    using free_pages_taken [OF f, of s] layout_simps(1) [OF lay] unfolding s' by (auto simp: avail_def)
  have "guard_page s \<notin> free_pages s'" using nf free_pages_taken [OF f] by (simp add: s')
  then have "\<not> page_free s' (guard_page s')"
    using guard_page_less [OF ok] by (simp add: free_pages_def layout_simps [OF lay])
  then show "alloc_ok s'"
    using ok lay av by (auto simp: alloc_ok_def layout_simps [OF lay] same_layout_def)
  show "kmalloc_checkno s' = kmalloc_checkno s" by (simp add: s' taken_def)
qed

section \<open>The metadata page\<close>

lemma kmalloc_header_outside:
  assumes "unat bytes + 4096 \<le> k" and "552 \<le> k" and "k \<le> 2 ^ 64" and "\<not> in_range mem k a"
  shows "kmalloc_header mem c bytes func line m a = m a"
proof -
  have "unat (bytes + 4096) \<le> k"
    using assms(1) unat_word_ariths(1) [of bytes 4096] by (simp add: le_trans [OF mod_less_eq_dividend])
  then have "\<not> in_range mem (unat (bytes + 4096)) a" using assms(4) in_range_mono by blast
  moreover have "\<not> in_range (mem + of_nat i) l a" if "i + l \<le> 552" for i l
  proof
    assume "in_range (mem + of_nat i) l a"
    then obtain j where j: "j < l" "a = mem + of_nat i + of_nat j" by (rule in_rangeE)
    then have "a = mem + of_nat (i + j)" by simp
    moreover have "in_range mem 552 (mem + of_nat (i + j))"
      by (subst in_range_offset) (use j that in simp_all)
    ultimately have "in_range mem 552 a" by (simp only:)
    with assms(2,4) in_range_mono show False by blast
  qed
  from this [of 0 8] this [of 8 8] this [of 16 8] this [of 24 8] this [of 32 511] this [of 544 8]
  have "\<not> in_range mem 8 a" "\<not> in_range (mem + 8) 8 a" "\<not> in_range (mem + 16) 8 a"
    "\<not> in_range (mem + 24) 8 a" "\<not> in_range (mem + 32) (unat (511 :: u64)) a" "\<not> in_range (mem + 544) 8 a"
    by simp_all
  ultimately show ?thesis
    by (simp add: kmalloc_header_def Let_def strncpy_outside store_le_apply memset_apply)
qed

lemma load64_strncpy:
  assumes "disjoint_ranges a 8 dest (unat num)"
  shows "load64 a (strncpy dest src num m) = load64 a m"
  by (rule load_le_cong) (use assms disjoint_rangesD strncpy_outside in \<open>auto 4 3\<close>)

lemma kmalloc_header_fields:
  fixes mem :: u64
  defines "h \<equiv> \<lambda>c bytes func line m. kmalloc_header mem c bytes func line m"
  shows "load64 (md_magic mem) (h c bytes func line m) = KMEM_MAGIC_NUMBER"
    and "load64 (md_checkno mem) (h c bytes func line m) = c"
    and "load64 (md_num_pages mem) (h c bytes func line m) = NUM_PAGES bytes"
    and "load64 (md_size mem) (h c bytes func line m) = bytes"
    and "load64 (md_lineno mem) (h c bytes func line m) = line"
  by (simp_all add: h_def kmalloc_header_def Let_def load64_strncpy load_store_disjoint
      disjoint_ranges_def)

lemma in_range_payload:
  fixes bytes :: u64
  assumes "in_range (mem + 4096) (unat bytes) a" and "unat bytes \<le> 2 ^ 47"
  shows "in_range mem (unat (bytes + 4096)) a" and "i + l \<le> 4096 \<Longrightarrow> \<not> in_range (mem + of_nat i) l a"
proof -
  obtain j where j: "j < unat bytes" "a = mem + 4096 + of_nat j" using assms(1) by (rule in_rangeE)
  then have a: "a = mem + of_nat (4096 + j)" by simp
  have u: "unat (bytes + 4096) = unat bytes + 4096"
    using unat_step [of bytes 1 4096] assms(2) by simp
  show "in_range mem (unat (bytes + 4096)) a"
    unfolding a u using j assms(2) by (subst in_range_offset) simp_all
  show "\<not> in_range (mem + of_nat i) l a" if "i + l \<le> 4096"
  proof
    assume "in_range (mem + of_nat i) l a"
    then obtain k where k: "k < l" "a = mem + of_nat i + of_nat k" by (rule in_rangeE)
    then have "of_nat (4096 + j) = (of_nat (i + k) :: u64)" using a by simp
    then have "unat (of_nat (4096 + j) :: u64) = unat (of_nat (i + k) :: u64)" by (simp only:)
    moreover have "4096 + j < 2 ^ 64" "i + k < 2 ^ 64" using j k that assms(2) by simp_all
    ultimately have "4096 + j = i + k" by (simp only: unat_of_nat64)
    with k that show False by simp
  qed
qed

lemma kmalloc_header_payload:
  assumes "in_range (mem + 4096) (unat bytes) a" and "unat bytes \<le> 2 ^ 47"
  shows "kmalloc_header mem c bytes func line m a = 0"
proof -
  note r = in_range_payload [OF assms]
  from r(2) [of 0 8] r(2) [of 8 8] r(2) [of 16 8] r(2) [of 24 8] r(2) [of 32 511] r(2) [of 544 8]
  have "\<not> in_range mem 8 a" "\<not> in_range (mem + 8) 8 a" "\<not> in_range (mem + 16) 8 a"
    "\<not> in_range (mem + 24) 8 a" "\<not> in_range (mem + 32) (unat (511 :: u64)) a" "\<not> in_range (mem + 544) 8 a"
    by simp_all
  then show ?thesis using r(1)
    by (simp add: kmalloc_header_def Let_def strncpy_outside store_le_apply memset_apply)
qed

section \<open>Blocks\<close>

definition block_frames :: "u64 \<Rightarrow> u64 \<Rightarrow> nat set" where
  "block_frames v bytes = run (VIRT_TO_PHYS (v - PAGE_SIZE)) (NUM_PAGES bytes + 1)"

text \<open>A live block: its metadata is intact and its frames are neither free nor the bitmap's.\<close>

definition heap_block :: "u64 \<Rightarrow> u64 \<Rightarrow> kstate \<Rightarrow> bool" where
  "heap_block v bytes s \<longleftrightarrow>
     unat bytes \<le> 2 ^ 47 \<and>
     4096 dvd unat (VIRT_TO_PHYS (v - PAGE_SIZE)) \<and>
     fits (VIRT_TO_PHYS (v - PAGE_SIZE)) (NUM_PAGES bytes + 1) \<and>
     load64 (md_magic (v - PAGE_SIZE)) (ram s) = KMEM_MAGIC_NUMBER \<and>
     load64 (md_num_pages (v - PAGE_SIZE)) (ram s) = NUM_PAGES bytes \<and>
     load64 (md_size (v - PAGE_SIZE)) (ram s) = bytes \<and>
     block_frames v bytes \<subseteq> {..<guard_page s} \<and>
     block_frames v bytes \<inter> free_pages s = {} \<and>
     block_frames v bytes \<inter> bitmap_frames s = {}"

lemma NUM_PAGES_small:
  assumes "unat bytes \<le> 2 ^ 47"
  shows "unat (NUM_PAGES bytes + 1) = (unat bytes + 4095) div 4096 + 1"
    and "unat bytes + 4096 \<le> unat (NUM_PAGES bytes + 1) * 4096"
    and "unat (NUM_PAGES bytes + 1) \<le> 2 ^ 36"
proof -
  have n: "unat (NUM_PAGES bytes) = (unat bytes + 4095) div 4096"
    by (rule NUM_PAGES_unat) (use assms in simp)
  moreover have b: "(unat bytes + 4095) div 4096 \<le> 2 ^ 35"
    using div_le_mono [of "unat bytes + 4095" "2 ^ 47 + 4095" 4096] assms by simp
  ultimately show u: "unat (NUM_PAGES bytes + 1) = (unat bytes + 4095) div 4096 + 1"
    using unat_step [of "NUM_PAGES bytes" 1 1] by simp
  show "unat (NUM_PAGES bytes + 1) \<le> 2 ^ 36" unfolding u using b by simp
  show "unat bytes + 4096 \<le> unat (NUM_PAGES bytes + 1) * 4096"
    unfolding u using div_mult_mod_eq [of "unat bytes + 4095" 4096]
      mod_less_divisor [of 4096 "unat bytes + 4095"] by simp
qed

lemma block_range:
  assumes "4096 dvd unat (VIRT_TO_PHYS (v - PAGE_SIZE))" and "fits (VIRT_TO_PHYS (v - PAGE_SIZE)) (NUM_PAGES bytes + 1)"
  shows "frame_of a \<in> block_frames v bytes \<longleftrightarrow>
    in_range (v - PAGE_SIZE) (unat (NUM_PAGES bytes + 1) * 4096) a"
  using frame_of_run [OF assms, of a] by (simp add: block_frames_def)

section \<open>kmalloc\<close>

lemma kmalloc_unfold:
  "kmalloc_impl bytes func line s = Some (v, s') \<longleftrightarrow>
   (\<exists>t. pm_get (NUM_PAGES bytes + 1) 0 s = Some (VIRT_TO_PHYS (v - PAGE_SIZE), t) \<and>
     s' = t\<lparr>ram := kmalloc_header (v - PAGE_SIZE) (kmalloc_checkno t) bytes func line (ram t)\<rparr>)"
  (is "?l \<longleftrightarrow> ?r")
proof
  show "?l \<Longrightarrow> ?r" by (auto simp: kmalloc_impl_def bind_eq_Some_conv Let_def)
  show "?r \<Longrightarrow> ?l" by (auto simp: kmalloc_impl_def Let_def)
qed

lemma kmalloc_spec:
  assumes ok: "alloc_ok s" and b: "unat bytes \<le> 2 ^ 47"
    and ret: "kmalloc_impl bytes func line s = Some (v, s')"
  shows "heap_block v bytes s'" "alloc_ok s'" "block_frames v bytes \<subseteq> avail s"
    "avail s' = avail s - block_frames v bytes"
    "only_changes (bitmap_frames s \<union> block_frames v bytes) s s'"
    "\<forall>a. in_range v (unat bytes) a \<longrightarrow> ram s' a = 0"
    "load64 (md_lineno (v - PAGE_SIZE)) (ram s') = line"
    "load64 (md_checkno (v - PAGE_SIZE)) (ram s') = kmalloc_checkno s"
proof -
  let ?n = "NUM_PAGES bytes + 1" and ?mem = "v - PAGE_SIZE"
  obtain t where get: "pm_get ?n 0 s = Some (VIRT_TO_PHYS ?mem, t)"
    and s': "s' = t\<lparr>ram := kmalloc_header ?mem (kmalloc_checkno t) bytes func line (ram t)\<rparr>"
    using ret kmalloc_unfold by blast
  note n = NUM_PAGES_small [OF b]
  note g = pm_get_alloc [OF ok n(3) get, folded block_frames_def]
  note range = block_range [OF g(1,2)]
  have k: "552 \<le> unat ?n * 4096" "unat ?n * 4096 \<le> 2 ^ 64" using n(2,3) by simp_all
  have "ram s' a = ram t a" if "frame_of a \<notin> block_frames v bytes" for a
    using that kmalloc_header_outside [OF n(2) k] by (simp add: s' range)
  then have ct: "only_changes (block_frames v bytes) t s'"
    by (simp add: only_changes_def same_layout_def) (simp add: s')
  have lay: "same_layout s t" using g(5) by (simp add: only_changes_def)
  have disj: "block_frames v bytes \<inter> bitmap_frames t = {}"
    using ok g(3) by (auto simp: alloc_ok_def layout_simps [OF lay])
  show sub: "block_frames v bytes \<subseteq> avail s" by (fact g(3))
  show ok': "alloc_ok s'" using avail_only_changes [OF ct disj] g(7) by simp
  show av: "avail s' = avail s - block_frames v bytes"
    using avail_only_changes [OF ct disj] g(6) by simp
  show oc: "only_changes (bitmap_frames s \<union> block_frames v bytes) s s'"
    by (rule only_changes_trans [OF g(5) ct])
  then have lay': "same_layout s s'" by (simp add: only_changes_def)
  have bg: "block_frames v bytes \<subseteq> {..<guard_page s'}"
    using sub by (auto simp: avail_def layout_simps [OF lay'])
  have "block_frames v bytes \<inter> free_pages s' = {}"
  proof -
    have "block_frames v bytes \<inter> avail s' = {}" using av by blast
    with bg show ?thesis by (auto simp: avail_def)
  qed
  moreover have "block_frames v bytes \<inter> bitmap_frames s' = {}"
    using disj by (simp add: layout_simps [OF lay] layout_simps [OF lay'])
  ultimately show "heap_block v bytes s'"
    using b g(1,2) bg kmalloc_header_fields(1,3,4) [of ?mem "kmalloc_checkno t" bytes func line "ram t"]
    by (simp add: heap_block_def s')
  show "\<forall>a. in_range v (unat bytes) a \<longrightarrow> ram s' a = 0"
    using kmalloc_header_payload [of ?mem bytes] b by (simp add: s')
  show "load64 (md_lineno ?mem) (ram s') = line"
    using kmalloc_header_fields(5) [of ?mem] by (simp add: s')
  show "load64 (md_checkno ?mem) (ram s') = kmalloc_checkno s"
    using kmalloc_header_fields(2) [of ?mem "kmalloc_checkno t"] by (simp add: s' g(8))
qed

lemma kmalloc_None_iff:
  assumes "alloc_ok s" and "unat bytes \<le> 2 ^ 47"
  shows "kmalloc_impl bytes func line s = None \<longleftrightarrow>
    (\<forall>k < candidates 0 s. \<not> run (of_nat k * 4096) (NUM_PAGES bytes + 1) \<subseteq> free_pages s)"
proof -
  have "kmalloc_impl bytes func line s = None \<longleftrightarrow> pm_get (NUM_PAGES bytes + 1) 0 s = None"
    by (cases "pm_get (NUM_PAGES bytes + 1) 0 s") (auto simp: kmalloc_impl_def Let_def)
  then show ?thesis
    using pm_get_None_iff [OF alloc_room [OF assms(1) NUM_PAGES_small(3) [OF assms(2)]], of 0] by simp
qed

section \<open>kfree\<close>

lemma kfree_unfold:
  assumes "heap_block v bytes s"
  defines "p \<equiv> VIRT_TO_PHYS (v - PAGE_SIZE)"
  defines "t \<equiv> released p (unat (NUM_PAGES bytes + 1)) s"
  shows "kfree_impl v s = Some (t\<lparr>ram := store64 (md_magic (v - PAGE_SIZE)) 0 (ram t)\<rparr>)"
  using assms(1) pm_free_eq [of p "NUM_PAGES bytes + 1" s]
  by (simp add: heap_block_def kfree_impl_def p_def t_def Let_def block_frames_def)

lemma kfree_spec:
  assumes ok: "alloc_ok s" and held: "heap_block v bytes s"
  shows "\<exists>s'. kfree_impl v s = Some s' \<and> alloc_ok s' \<and> avail s' = avail s \<union> block_frames v bytes \<and>
    only_changes (bitmap_frames s \<union> block_frames v bytes) s s' \<and>
    load64 (md_magic (v - PAGE_SIZE)) (ram s') = 0 \<and> kmalloc_checkno s' = kmalloc_checkno s"
proof -
  let ?mem = "v - PAGE_SIZE" and ?n = "NUM_PAGES bytes + 1"
  let ?p = "VIRT_TO_PHYS ?mem"
  define t where "t = released ?p (unat ?n) s"
  define s' where "s' = t\<lparr>ram := store64 (md_magic ?mem) 0 (ram t)\<rparr>"
  have h: "4096 dvd unat ?p" "fits ?p ?n" "block_frames v bytes \<subseteq> {..<guard_page s}"
    "block_frames v bytes \<inter> bitmap_frames s = {}" "unat bytes \<le> 2 ^ 47"
    using held by (simp_all add: heap_block_def)
  then have "run ?p ?n \<subseteq> {..guard_page s}" by (auto simp: block_frames_def)
  from only_changes_released [OF h(2) this] have ct: "only_changes (bitmap_frames s) s t"
    by (simp add: t_def)
  then have lay: "same_layout s t" by (simp add: only_changes_def)
  have "\<not> in_range ?mem 8 a" if "frame_of a \<notin> block_frames v bytes" for a
    using that block_range [OF h(1,2)] in_range_mono [of ?mem 8 a "unat ?n * 4096"]
      NUM_PAGES_small(2) [OF h(5)] by auto
  then have cs: "only_changes (block_frames v bytes) t s'"
    by (simp add: only_changes_def same_layout_def s'_def store_le_apply)
  have free: "free_pages t = free_pages s \<union> block_frames v bytes"
    using free_pages_released [OF h(2)] by (simp add: t_def block_frames_def)
  have avt: "avail t = avail s \<union> block_frames v bytes"
    using free h(3) by (auto simp: avail_def layout_simps [OF lay])
  have "guard_page s \<notin> free_pages t"
    using ok h(3) free by (auto simp: alloc_ok_def free_pages_def)
  then have okt: "alloc_ok t"
    using ok guard_page_less [OF ok] lay h(4) avt
    by (auto simp: alloc_ok_def layout_simps [OF lay] same_layout_def free_pages_def)
  have disj: "block_frames v bytes \<inter> bitmap_frames t = {}" using h(4) by (simp add: layout_simps [OF lay])
  note a = avail_only_changes [OF cs disj]
  have "kfree_impl v s = Some s'" using kfree_unfold [OF held] by (simp add: s'_def t_def)
  moreover have "kmalloc_checkno s' = kmalloc_checkno s" by (simp add: s'_def t_def released_def)
  moreover have "load64 (md_magic ?mem) (ram s') = 0" by (simp add: s'_def)
  ultimately show ?thesis
    using a okt avt only_changes_trans [OF ct cs] by auto
qed

text \<open>Freeing an address without the magic number changes nothing.\<close>

lemma kfree_bad:
  "load64 (md_magic (v - PAGE_SIZE)) (ram s) \<noteq> KMEM_MAGIC_NUMBER \<Longrightarrow> kfree_impl v s = Some s"
  by (simp add: kfree_impl_def)

text \<open>What happens elsewhere leaves a block alone.\<close>

lemma heap_block_only_changes:
  assumes "heap_block v bytes s" and "only_changes F s s'" and "block_frames v bytes \<inter> F = {}"
    and "block_frames v bytes \<inter> avail s' = {}"
  shows "heap_block v bytes s'"
proof -
  let ?mem = "v - PAGE_SIZE" and ?n = "NUM_PAGES bytes + 1"
  from assms(1) have h: "4096 dvd unat (VIRT_TO_PHYS ?mem)" "fits (VIRT_TO_PHYS ?mem) ?n" "unat bytes \<le> 2 ^ 47"
    by (simp_all add: heap_block_def)
  have lay: "same_layout s s'" using assms(2) by (simp add: only_changes_def)
  have "load64 (?mem + of_nat i) (ram s') = load64 (?mem + of_nat i) (ram s)" if "i + 8 \<le> 4096" for i
  proof (rule load_le_cong)
    fix x assume "in_range (?mem + of_nat i) 8 x"
    then obtain j where "j < 8" "x = ?mem + of_nat i + of_nat j" by (rule in_rangeE)
    then have x: "x = ?mem + of_nat (i + j)" "i + j < 4096" using that by simp_all
    have "in_range ?mem (unat ?n * 4096) x"
      unfolding x(1) by (subst in_range_offset) (use x(2) NUM_PAGES_small(2) [OF h(3)] in simp_all)
    then have "frame_of x \<in> block_frames v bytes" by (simp add: block_range [OF h(1,2)])
    with assms(2,3) show "ram s' x = ram s x" by (auto simp: only_changes_def)
  qed simp
  from this [of 0] this [of 16] this [of 24]
  have "load64 ?mem (ram s') = load64 ?mem (ram s)" "load64 (?mem + 16) (ram s') = load64 (?mem + 16) (ram s)"
    "load64 (?mem + 24) (ram s') = load64 (?mem + 24) (ram s)"
    by simp_all
  moreover have "block_frames v bytes \<inter> free_pages s' = {}"
    using assms(1,4) by (auto simp: heap_block_def avail_def layout_simps [OF lay])
  ultimately show ?thesis using assms(1) by (simp add: heap_block_def layout_simps [OF lay])
qed

lemma heap_block_avail: "heap_block v bytes s \<Longrightarrow> block_frames v bytes \<inter> avail s = {}"
  by (auto simp: heap_block_def avail_def)

section \<open>The heap meets the allocator contract\<close>

interpretation heap: block_store alloc_ok "\<lambda>s n. unat n \<le> 2 ^ 47" avail
  "\<lambda>n. kmalloc_impl n func line" "\<lambda>v n. kfree_impl v" block_frames heap_block
  for func line
proof
  fix n a s s'
  assume ok: "alloc_ok s" and n: "unat n \<le> 2 ^ 47" and get: "kmalloc_impl n func line s = Some (a, s')"
  note k = kmalloc_spec [OF this]
  then show "alloc_ok s' \<and> (\<lambda>n. unat n \<le> 2 ^ 47) = (\<lambda>n. unat n \<le> 2 ^ 47) \<and> block_frames a n \<subseteq> avail s \<and>
      avail s' = avail s - block_frames a n \<and> heap_block a n s'"
    by simp
  fix b m
  assume held: "heap_block b m s"
  have dis: "block_frames b m \<inter> avail s = {}" using held by (rule heap_block_avail)
  show "heap_block b m s'"
  proof (rule heap_block_only_changes [OF held k(5)])
    show "block_frames b m \<inter> (bitmap_frames s \<union> block_frames a n) = {}"
      using held dis k(3) by (auto simp: heap_block_def)
    show "block_frames b m \<inter> avail s' = {}" using dis k(4) by blast
  qed
next
  fix a n s
  assume ok: "alloc_ok s" and held: "heap_block a n s"
  from kfree_spec [OF this] show "\<exists>s'. kfree_impl a s = Some s' \<and> alloc_ok s' \<and>
      (\<lambda>n. unat n \<le> 2 ^ 47) = (\<lambda>n. unat n \<le> 2 ^ 47) \<and> avail s' = avail s \<union> block_frames a n"
    by blast
  show "block_frames a n \<inter> avail s = {}" using held by (rule heap_block_avail)
  fix s' b m
  assume put: "kfree_impl a s = Some s'" and other: "heap_block b m s"
    and dis: "block_frames a n \<inter> block_frames b m = {}"
  from kfree_spec [OF ok held] put have s': "avail s' = avail s \<union> block_frames a n"
    "only_changes (bitmap_frames s \<union> block_frames a n) s s'" by auto
  show "heap_block b m s'"
  proof (rule heap_block_only_changes [OF other s'(2)])
    show "block_frames b m \<inter> (bitmap_frames s \<union> block_frames a n) = {}"
      using other dis by (auto simp: heap_block_def)
    show "block_frames b m \<inter> avail s' = {}" using dis s'(1) heap_block_avail [OF other] by blast
  qed
qed

section \<open>krealloc\<close>

lemma heap_block_geometry:
  assumes "heap_block v bytes s"
  shows "4096 dvd unat (VIRT_TO_PHYS (v - PAGE_SIZE))"
    and "fits (VIRT_TO_PHYS (v - PAGE_SIZE)) (NUM_PAGES bytes + 1)" and "unat bytes \<le> 2 ^ 47"
  using assms by (simp_all add: heap_block_def)

lemma block_frame_offset:
  assumes "heap_block v bytes s" and "i < unat bytes + 4096"
  shows "frame_of (v - PAGE_SIZE + of_nat i) \<in> block_frames v bytes"
proof -
  note g = heap_block_geometry [OF assms(1)]
  show ?thesis
    unfolding block_range [OF g(1,2)]
    by (subst in_range_offset) (use assms(2) g(3) NUM_PAGES_small(2) [OF g(3)] in simp_all)
qed

lemma payload_frame:
  assumes "heap_block v bytes s" and "in_range v (unat bytes) a"
  shows "frame_of a \<in> block_frames v bytes"
proof -
  obtain i where i: "i < unat bytes" "a = v + of_nat i" using assms(2) by (rule in_rangeE)
  then have "a = v - PAGE_SIZE + of_nat (i + 4096)" by simp
  then show ?thesis using block_frame_offset [OF assms(1), of "i + 4096"] i(1) by simp
qed

lemma heap_block_nonzero:
  assumes "heap_block v bytes s" and "alloc_ok s"
  shows "v \<noteq> 0"
proof
  assume v: "v = 0"
  have "frame_of (v - PAGE_SIZE + of_nat 0) \<in> block_frames v bytes"
    by (rule block_frame_offset [OF assms(1)]) simp
  then have "frame_of (v - PAGE_SIZE) < guard_page s" using assms(1) by (auto simp: heap_block_def)
  moreover have "guard_page s \<le> (2 ^ 46 + 4095) div 4096"
    using assms(2) unfolding guard_page_def alloc_ok_def by (intro div_le_mono) simp
  ultimately show False by (simp add: v VIRT_TO_PHYS_def page_no_def)
qed

lemma heap_block_payload_change:
  assumes "heap_block v bytes s"
    and same: "\<And>a. \<not> in_range v (unat bytes) a \<Longrightarrow> m a = ram s a" and "alloc_ok s"
  shows "heap_block v bytes (s\<lparr>ram := m\<rparr>)" and "only_changes (block_frames v bytes) s (s\<lparr>ram := m\<rparr>)"
    and "alloc_ok (s\<lparr>ram := m\<rparr>)" and "avail (s\<lparr>ram := m\<rparr>) = avail s"
proof -
  let ?s = "s\<lparr>ram := m\<rparr>"
  note g = heap_block_geometry [OF assms(1)]
  show oc: "only_changes (block_frames v bytes) s ?s"
    using same payload_frame [OF assms(1)] by (auto simp: only_changes_def same_layout_def)
  have "block_frames v bytes \<inter> bitmap_frames s = {}" using assms(1) by (simp add: heap_block_def)
  note av = avail_only_changes [OF oc this]
  show "alloc_ok ?s" and av1: "avail ?s = avail s" using av assms(3) by simp_all
  have lay: "same_layout s ?s" by (simp add: same_layout_def)
  have "load64 (v - PAGE_SIZE + of_nat i) m = load64 (v - PAGE_SIZE + of_nat i) (ram s)" if "i + 8 \<le> 4096" for i
  proof (rule load_le_cong)
    fix x assume x: "in_range (v - PAGE_SIZE + of_nat i) 8 x"
    have "\<not> in_range v (unat bytes) x"
      using in_range_payload(2) [of "v - PAGE_SIZE" bytes x i 8] g(3) x that by auto
    then show "m x = ram s x" by (rule same)
  qed simp
  from this [of 0] this [of 16] this [of 24]
  have "load64 (v - PAGE_SIZE) m = load64 (v - PAGE_SIZE) (ram s)"
    "load64 (v - PAGE_SIZE + 16) m = load64 (v - PAGE_SIZE + 16) (ram s)"
    "load64 (v - PAGE_SIZE + 24) m = load64 (v - PAGE_SIZE + 24) (ram s)"
    by simp_all
  moreover have "block_frames v bytes \<inter> free_pages ?s = {}"
    using assms(1) heap_block_avail [OF assms(1)] av1
    by (auto simp: heap_block_def avail_def layout_simps [OF lay])
  ultimately show "heap_block v bytes ?s"
    using assms(1) by (simp add: heap_block_def layout_simps [OF lay])
qed

lemma krealloc_header_outside:
  assumes "\<not> in_range mem 552 a"
  shows "krealloc_header mem bytes func line m a = m a"
proof -
  have "\<not> in_range (mem + of_nat i) l a" if "i + l \<le> 552" for i l
  proof
    assume "in_range (mem + of_nat i) l a"
    then obtain j where j: "j < l" "a = mem + of_nat i + of_nat j" by (rule in_rangeE)
    then have "a = mem + of_nat (i + j)" by simp
    moreover have "in_range mem 552 (mem + of_nat (i + j))"
      by (subst in_range_offset) (use j that in simp_all)
    ultimately have "in_range mem 552 a" by (simp only:)
    with assms show False by blast
  qed
  from this [of 0 8] this [of 16 8] this [of 24 8] this [of 32 511] this [of 544 8]
  show ?thesis
    by (simp add: krealloc_header_def Let_def strncpy_outside store_le_apply)
qed

lemma krealloc_header_fields:
  shows "load64 (md_magic mem) (krealloc_header mem bytes func line m) = KMEM_MAGIC_NUMBER"
    and "load64 (md_num_pages mem) (krealloc_header mem bytes func line m) = NUM_PAGES bytes"
    and "load64 (md_size mem) (krealloc_header mem bytes func line m) = bytes"
    and "load64 (md_lineno mem) (krealloc_header mem bytes func line m) = line"
  by (simp_all add: krealloc_header_def Let_def load64_strncpy load_store_disjoint
      disjoint_ranges_def)

lemma block_frames_cong: "NUM_PAGES a = NUM_PAGES b \<Longrightarrow> block_frames v a = block_frames v b"
  by (simp add: block_frames_def)

text \<open>Same page count: the block stays, only its metadata page changes.\<close>

lemma krealloc_in_place:
  assumes ok: "alloc_ok s" and held: "heap_block v old s" and b: "unat bytes \<le> 2 ^ 47"
    and same: "NUM_PAGES old = NUM_PAGES bytes"
  shows "\<exists>s'. krealloc_impl v bytes func line s = Some (v, s') \<and> alloc_ok s' \<and> heap_block v bytes s' \<and>
    avail s' = avail s \<and> only_changes (block_frames v old) s s' \<and>
    (\<forall>a. in_range v (unat old) a \<or> in_range v (unat bytes) a \<longrightarrow> ram s' a = ram s a)"
proof -
  let ?mem = "v - PAGE_SIZE"
  define s' where "s' = s\<lparr>ram := krealloc_header ?mem bytes func line (ram s)\<rparr>"
  have lay: "same_layout s s'" by (simp add: same_layout_def s'_def)
  have far: "\<not> in_range ?mem 552 a" if "frame_of a \<notin> block_frames v old" for a
  proof
    assume "in_range ?mem 552 a"
    then obtain i where "i < 552" "a = ?mem + of_nat i" by (rule in_rangeE)
    with block_frame_offset [OF held, of i] that show False by simp
  qed
  have oc: "only_changes (block_frames v old) s s'"
    using krealloc_header_outside far by (auto simp: only_changes_def same_layout_def s'_def)
  have "block_frames v old \<inter> bitmap_frames s = {}" using held by (simp add: heap_block_def)
  note av = avail_only_changes [OF oc this]
  have "block_frames v old \<inter> free_pages s' = {}"
    using held heap_block_avail [OF held] av(1)
    by (auto simp: heap_block_def avail_def layout_simps [OF lay])
  then have blk: "heap_block v bytes s'"
    using held b same block_frames_cong [OF same]
      krealloc_header_fields(1-3) [of ?mem bytes func line "ram s"]
    by (simp add: heap_block_def layout_simps [OF lay]) (simp add: s'_def)
  have "\<not> in_range ?mem 552 a" if "in_range v (unat n) a" "unat n \<le> 2 ^ 47" for a and n :: u64
    using in_range_payload(2) [of ?mem n a 0 552] that by simp
  then have "ram s' a = ram s a" if "in_range v (unat old) a \<or> in_range v (unat bytes) a" for a
    using that b heap_block_geometry(3) [OF held] by (auto simp: s'_def krealloc_header_outside)
  moreover have "krealloc_impl v bytes func line s = Some (v, s')"
  proof -
    have "load64 (md_size ?mem) (ram s) = old" using held by (simp add: heap_block_def)
    then show ?thesis using heap_block_nonzero [OF held ok] same
      by (simp add: krealloc_impl_def Let_def s'_def)
  qed
  ultimately show ?thesis using ok av oc blk by blast
qed

lemma unat_opposite:
  fixes v w :: u64
  assumes "v \<noteq> w"
  shows "unat (v - w) + unat (w - v) = 2 ^ 64"
proof -
  have "unat v < 2 ^ 64" "unat w < 2 ^ 64" by (rule unat_lt64)+
  moreover have "unat v \<noteq> unat w" using assms by (simp add: word_unat_eq_iff)
  ultimately show ?thesis
    by (simp add: unat_sub_if_size word_size word_le_nat_alt)
qed

lemma block_no_wrap:
  assumes "heap_block v old s" and "heap_block w bytes t" and "block_frames v old \<inter> block_frames w bytes = {}"
    and "k \<le> unat old" and "k \<le> unat bytes"
  shows "unat (v - w) + k \<le> 2 ^ 64"
proof (rule ccontr)
  assume "\<not> ?thesis"
  then have big: "2 ^ 64 < unat (v - w) + k" by simp
  with unat_lt64 [of "v - w"] have k: "0 < k" by linarith
  have "v \<noteq> w" using big heap_block_geometry(3) [OF assms(1)] assms(4) by auto
  then have "unat (w - v) < k" using unat_opposite [of v w] big by linarith
  then have "in_range v (unat old) w" using assms(4) by (simp add: in_range_def)
  then have "frame_of w \<in> block_frames v old" by (rule payload_frame [OF assms(1)])
  moreover have "frame_of w \<in> block_frames w bytes"
    by (rule payload_frame [OF assms(2)]) (use k assms(5) in simp)
  ultimately show False using assms(3) by blast
qed

text \<open>The copy moves the common prefix and clears the rest of the new payload.\<close>

lemma krealloc_copy_apply:
  assumes "heap_block v old t" and "heap_block w bytes t" and "block_frames v old \<inter> block_frames w bytes = {}"
  shows "krealloc_copy w v bytes (ram t) a =
    (if in_range w (min (unat old) (unat bytes)) a then ram t (v + (a - w))
     else if in_range w (unat bytes) a then 0 else ram t a)"
proof -
  let ?z = "memset w 0 bytes (ram t)" and ?k = "min (unat old) (unat bytes)"
  have off: "\<not> in_range w (unat bytes) x" if "frame_of x \<in> block_frames v old" for x
    using that payload_frame [OF assms(2), of x] assms(3) by blast
  have sz: "load64 (md_size (v - PAGE_SIZE)) ?z = old"
  proof -
    have "load64 (v - PAGE_SIZE + of_nat 24) ?z = load64 (v - PAGE_SIZE + of_nat 24) (ram t)"
    proof (rule load_le_cong)
      fix x assume "in_range (v - PAGE_SIZE + of_nat 24) 8 x"
      then obtain j where "j < 8" "x = v - PAGE_SIZE + of_nat 24 + of_nat j" by (rule in_rangeE)
      then have x: "x = v - PAGE_SIZE + of_nat (24 + j)" and "24 + j < unat old + 4096" by simp_all
      have "frame_of x \<in> block_frames v old"
        unfolding x by (rule block_frame_offset [OF assms(1)]) fact
      from off [OF this] show "?z x = ram t x" by (simp add: memset_apply)
    qed simp
    then show ?thesis using assms(1) by (simp add: heap_block_def)
  qed
  define num where "num = (if bytes < old then bytes else old)"
  have num: "unat num = ?k" by (simp add: num_def word_less_nat_alt min_def)
  have copy: "krealloc_copy w v bytes (ram t) = memcpy w v num ?z"
    using sz by (simp add: krealloc_copy_def Let_def num_def)
  have "unat (v - w) + unat num \<le> 2 ^ 64"
    by (rule block_no_wrap [OF assms]) (simp_all add: num)
  then have "memcpy w v num ?z a = (if in_range w ?k a then ?z (v + (a - w)) else ?z a)"
    by (simp add: memcpy_apply num)
  moreover have "?z (v + (a - w)) = ram t (v + (a - w))" if "in_range w ?k a"
  proof -
    have "in_range v (unat old) (v + (a - w))" using that by (simp add: in_range_def)
    from off [OF payload_frame [OF assms(1) this]] show ?thesis by (simp add: memset_apply)
  qed
  ultimately show ?thesis by (simp add: copy memset_apply)
qed

text \<open>Another page count: a new block, the contents moved, the old block freed.\<close>

lemma krealloc_copied:
  fixes v w bytes :: u64
  assumes ok: "alloc_ok s" and held: "heap_block v old s" and b: "unat bytes \<le> 2 ^ 47"
    and t: "kmalloc_impl bytes func line s = Some (w, t)"
  defines "u \<equiv> t\<lparr>ram := krealloc_copy w v bytes (ram t)\<rparr>"
  shows "alloc_ok u" "heap_block v old u" "heap_block w bytes u" "avail u = avail s - block_frames w bytes"
    "block_frames v old \<inter> block_frames w bytes = {}" "only_changes (bitmap_frames s \<union> block_frames w bytes) s u"
    "in_range w (unat bytes) a \<Longrightarrow> ram u a = (if unat (a - w) < unat old then ram s (v + (a - w)) else 0)"
proof -
  note k = kmalloc_spec [OF ok b t]
  note disv = heap_block_avail [OF held]
  show dis: "block_frames v old \<inter> block_frames w bytes = {}" using disv k(3) by blast
  have vt: "heap_block v old t" by (rule heap.get_keeps [OF ok b t held])
  note copy = krealloc_copy_apply [OF vt k(1) dis]
  have same: "krealloc_copy w v bytes (ram t) x = ram t x" if "\<not> in_range w (unat bytes) x" for x
  proof -
    have "\<not> in_range w (min (unat old) (unat bytes)) x" using that by (auto simp: in_range_def)
    then show ?thesis using that by (simp add: copy)
  qed
  have c: "heap_block w bytes u" "only_changes (block_frames w bytes) t u" "alloc_ok u" "avail u = avail t"
    unfolding u_def by (rule heap_block_payload_change [OF k(1) same k(2)], assumption)+
  show "alloc_ok u" "heap_block w bytes u" by (rule c)+
  show "avail u = avail s - block_frames w bytes" using c(4) k(4) by simp
  show "heap_block v old u"
    by (rule heap_block_only_changes [OF vt c(2) dis]) (use disv in \<open>auto simp: c(4) k(4)\<close>)
  show "only_changes (bitmap_frames s \<union> block_frames w bytes) s u"
    by (rule only_changes_mono [OF only_changes_trans [OF k(5) c(2)]]) blast
  assume a: "in_range w (unat bytes) a"
  have "ram u a = (if unat (a - w) < unat old then ram t (v + (a - w)) else 0)"
    using a by (auto simp: u_def copy in_range_def)
  moreover have "ram t (v + (a - w)) = ram s (v + (a - w))" if "unat (a - w) < unat old"
  proof -
    have "in_range v (unat old) (v + (a - w))" using that by (simp add: in_range_def)
    then have "frame_of (v + (a - w)) \<in> block_frames v old" by (rule payload_frame [OF held])
    then have "frame_of (v + (a - w)) \<notin> bitmap_frames s \<union> block_frames w bytes"
      using dis held by (auto simp: heap_block_def)
    with k(5) show ?thesis by (simp add: only_changes_def)
  qed
  ultimately show "ram u a = (if unat (a - w) < unat old then ram s (v + (a - w)) else 0)" by simp
qed

lemma krealloc_moves:
  assumes "alloc_ok s" and "heap_block v old s" and "NUM_PAGES old \<noteq> NUM_PAGES bytes"
  shows "krealloc_impl v bytes func line s =
    Option.bind (kmalloc_impl bytes func line s)
      (\<lambda>(w, t). map_option (\<lambda>s'. (w, s')) (kfree_impl v (t\<lparr>ram := krealloc_copy w v bytes (ram t)\<rparr>)))"
proof -
  have "load64 (md_size (v - PAGE_SIZE)) (ram s) = old" using assms(2) by (simp add: heap_block_def)
  then show ?thesis
    using assms(3) heap_block_nonzero [OF assms(2,1)]
    by (cases "kmalloc_impl bytes func line s")
      (auto simp: krealloc_impl_def Let_def map_option_case split: option.splits)
qed

lemma krealloc_moved:
  assumes ok: "alloc_ok s" and held: "heap_block v old s" and b: "unat bytes \<le> 2 ^ 47"
    and diff: "NUM_PAGES old \<noteq> NUM_PAGES bytes"
    and ret: "krealloc_impl v bytes func line s = Some (w, s')"
  shows "alloc_ok s'" "heap_block w bytes s'" "block_frames w bytes \<subseteq> avail s"
    "avail s' = (avail s - block_frames w bytes) \<union> block_frames v old"
    "only_changes (bitmap_frames s \<union> block_frames w bytes \<union> block_frames v old) s s'"
    "in_range w (unat bytes) a \<Longrightarrow> ram s' a = (if unat (a - w) < unat old then ram s (v + (a - w)) else 0)"
proof -
  obtain t where t: "kmalloc_impl bytes func line s = Some (w, t)"
    and free: "kfree_impl v (t\<lparr>ram := krealloc_copy w v bytes (ram t)\<rparr>) = Some s'"
    using ret by (auto simp: krealloc_moves [OF ok held diff] bind_eq_Some_conv)
  note u = krealloc_copied [OF ok held b t]
  from kfree_spec [OF u(1,2)] free obtain
    f: "alloc_ok s'" "avail s' = avail (t\<lparr>ram := krealloc_copy w v bytes (ram t)\<rparr>) \<union> block_frames v old"
      "only_changes (bitmap_frames (t\<lparr>ram := krealloc_copy w v bytes (ram t)\<rparr>) \<union> block_frames v old)
         (t\<lparr>ram := krealloc_copy w v bytes (ram t)\<rparr>) s'"
    by auto
  have lay: "same_layout s (t\<lparr>ram := krealloc_copy w v bytes (ram t)\<rparr>)"
    using u(6) by (simp add: only_changes_def)
  show "alloc_ok s'" by (fact f(1))
  show "block_frames w bytes \<subseteq> avail s" by (rule kmalloc_spec(3) [OF ok b t])
  show "avail s' = (avail s - block_frames w bytes) \<union> block_frames v old" using f(2) u(4) by simp
  show "heap_block w bytes s'" by (rule heap.put_keeps [OF u(1,2) free u(3,5)])
  show "only_changes (bitmap_frames s \<union> block_frames w bytes \<union> block_frames v old) s s'"
    by (rule only_changes_mono [OF only_changes_trans [OF u(6) f(3)]]) (auto simp: layout_simps [OF lay])
  assume a: "in_range w (unat bytes) a"
  have "frame_of a \<in> block_frames w bytes"
    by (rule payload_frame [OF kmalloc_spec(1) [OF ok b t] a])
  then have "frame_of a \<notin> bitmap_frames (t\<lparr>ram := krealloc_copy w v bytes (ram t)\<rparr>) \<union> block_frames v old"
    using u(3,5) by (auto simp: heap_block_def)
  then have "ram s' a = ram (t\<lparr>ram := krealloc_copy w v bytes (ram t)\<rparr>) a"
    using f(3) by (simp add: only_changes_def)
  then show "ram s' a = (if unat (a - w) < unat old then ram s (v + (a - w)) else 0)" by (simp only: u(7) [OF a])
qed

text \<open>All cases together; a null address stands for "no block yet".\<close>

definition opt_block :: "u64 \<Rightarrow> u64 \<Rightarrow> kstate \<Rightarrow> bool" where
  "opt_block v old s \<longleftrightarrow> (if v = 0 then old = 0 else heap_block v old s)"

definition opt_frames :: "u64 \<Rightarrow> u64 \<Rightarrow> nat set" where
  "opt_frames v old = (if v = 0 then {} else block_frames v old)"

lemma krealloc_stays:
  assumes ok: "alloc_ok s" and held: "heap_block v old s" and b: "unat bytes \<le> 2 ^ 47"
    and pages: "NUM_PAGES old = NUM_PAGES bytes" and ret: "krealloc_impl v bytes func line s = Some (w, s')"
  shows "alloc_ok s'" "heap_block w bytes s'" "block_frames w bytes \<subseteq> avail s \<union> block_frames v old"
    "avail s' = (avail s \<union> block_frames v old) - block_frames w bytes"
    "only_changes (bitmap_frames s \<union> block_frames v old \<union> block_frames w bytes) s s'"
    "\<forall>i < min (unat old) (unat bytes). ram s' (w + of_nat i) = ram s (v + of_nat i)"
proof -
  note eq = block_frames_cong [OF pages, of v]
  from krealloc_in_place [OF ok held b pages, of func line] ret
  have s': "w = v" "alloc_ok s'" "heap_block v bytes s'" "avail s' = avail s" "only_changes (block_frames v old) s s'"
    and same: "\<forall>a. in_range v (unat old) a \<or> in_range v (unat bytes) a \<longrightarrow> ram s' a = ram s a"
    by auto
  show "alloc_ok s'" "heap_block w bytes s'" using s' by simp_all
  show "block_frames w bytes \<subseteq> avail s \<union> block_frames v old" using s'(1) eq by simp
  show "avail s' = (avail s \<union> block_frames v old) - block_frames w bytes"
    using s'(1,4) heap_block_avail [OF held] eq by blast
  show "only_changes (bitmap_frames s \<union> block_frames v old \<union> block_frames w bytes) s s'"
    by (rule only_changes_mono [OF s'(5)]) blast
  have "ram s' (v + of_nat i) = ram s (v + of_nat i)" if "i < min (unat old) (unat bytes)" for i
  proof -
    have "i < 2 ^ 64" using that unat_lt64 [of old] by simp
    then have "in_range v (unat old) (v + of_nat i)" using that by simp
    with same show ?thesis by blast
  qed
  then show "\<forall>i < min (unat old) (unat bytes). ram s' (w + of_nat i) = ram s (v + of_nat i)" by (simp add: s'(1))
qed

lemma krealloc_leaves:
  assumes ok: "alloc_ok s" and held: "heap_block v old s" and b: "unat bytes \<le> 2 ^ 47"
    and pages: "NUM_PAGES old \<noteq> NUM_PAGES bytes" and ret: "krealloc_impl v bytes func line s = Some (w, s')"
  shows "alloc_ok s'" "heap_block w bytes s'" "block_frames w bytes \<subseteq> avail s \<union> block_frames v old"
    "avail s' = (avail s \<union> block_frames v old) - block_frames w bytes"
    "only_changes (bitmap_frames s \<union> block_frames v old \<union> block_frames w bytes) s s'"
    "\<forall>i < min (unat old) (unat bytes). ram s' (w + of_nat i) = ram s (v + of_nat i)"
proof -
  note m = krealloc_moved [OF ok held b pages ret]
  show "alloc_ok s'" "heap_block w bytes s'" "block_frames w bytes \<subseteq> avail s \<union> block_frames v old"
    using m(1-3) by auto
  show "avail s' = (avail s \<union> block_frames v old) - block_frames w bytes"
    using m(3,4) heap_block_avail [OF held] by blast
  show "only_changes (bitmap_frames s \<union> block_frames v old \<union> block_frames w bytes) s s'"
    by (rule only_changes_mono [OF m(5)]) blast
  have "ram s' (w + of_nat i) = ram s (v + of_nat i)" if i: "i < min (unat old) (unat bytes)" for i
  proof -
    have "i < 2 ^ 64" using i unat_lt64 [of old] by simp
    then show ?thesis using m(6) [of "w + of_nat i"] i by (simp add: unat_of_nat64)
  qed
  then show "\<forall>i < min (unat old) (unat bytes). ram s' (w + of_nat i) = ram s (v + of_nat i)" by blast
qed

lemma krealloc_spec:
  assumes ok: "alloc_ok s" and old: "opt_block v old s" and b: "unat bytes \<le> 2 ^ 47"
    and ret: "krealloc_impl v bytes func line s = Some (w, s')"
  shows "alloc_ok s'" "heap_block w bytes s'" "w \<noteq> 0"
    "block_frames w bytes \<subseteq> avail s \<union> opt_frames v old"
    "avail s' = (avail s \<union> opt_frames v old) - block_frames w bytes"
    "only_changes (bitmap_frames s \<union> opt_frames v old \<union> block_frames w bytes) s s'"
    "\<forall>i < min (unat old) (unat bytes). ram s' (w + of_nat i) = ram s (v + of_nat i)"
proof -
  have "alloc_ok s' \<and> heap_block w bytes s' \<and> block_frames w bytes \<subseteq> avail s \<union> opt_frames v old \<and>
    avail s' = (avail s \<union> opt_frames v old) - block_frames w bytes \<and>
    only_changes (bitmap_frames s \<union> opt_frames v old \<union> block_frames w bytes) s s' \<and>
    (\<forall>i < min (unat old) (unat bytes). ram s' (w + of_nat i) = ram s (v + of_nat i))"
  proof (cases "v = 0")
    case True
    then have "kmalloc_impl bytes func line s = Some (w, s')" using ret by (simp add: krealloc_impl_def)
    from kmalloc_spec [OF ok b this] show ?thesis using True old by (simp add: opt_frames_def opt_block_def)
  next
    case False
    then have held: "heap_block v old s" and F: "opt_frames v old = block_frames v old"
      using old by (simp_all add: opt_block_def opt_frames_def)
    show ?thesis unfolding F
      using krealloc_stays [OF ok held b _ ret] krealloc_leaves [OF ok held b _ ret]
      by (cases "NUM_PAGES old = NUM_PAGES bytes") simp_all
  qed
  then show "alloc_ok s'" "heap_block w bytes s'"
    "block_frames w bytes \<subseteq> avail s \<union> opt_frames v old"
    "avail s' = (avail s \<union> opt_frames v old) - block_frames w bytes"
    "only_changes (bitmap_frames s \<union> opt_frames v old \<union> block_frames w bytes) s s'"
    "\<forall>i < min (unat old) (unat bytes). ram s' (w + of_nat i) = ram s (v + of_nat i)"
    by blast+
  then show "w \<noteq> 0" using heap_block_nonzero by blast
qed

end
