(* ===== verification/Vectors.thy ===== *)
theory Vectors
  imports Kmalloc
begin

text \<open>
  The dynamic array of \<^verbatim>\<open>kernel/include/common/vector.h\<close>. The macros work on a structure
  of length, capacity (in bytes) and data pointer; the element type enters through its size
  and through how an element is stored.
\<close>

section \<open>The code\<close>

abbreviation (input) RESIZE :: u64 where "RESIZE \<equiv> 4"

definition vector_len :: "vec \<Rightarrow> u64" where
  "vector_len v = vlength v"

definition vector_at :: "u64 \<Rightarrow> (u64 \<Rightarrow> mem \<Rightarrow> 'a) \<Rightarrow> vec \<Rightarrow> u64 \<Rightarrow> mem \<Rightarrow> 'a" where
  "vector_at es ld v i m = ld (vdata v + i * es) m"

definition vector_append :: "u64 \<Rightarrow> (u64 \<Rightarrow> 'a \<Rightarrow> mem \<Rightarrow> mem) \<Rightarrow> u64 \<Rightarrow> u64 \<Rightarrow> vec \<Rightarrow> 'a \<Rightarrow> kstate \<Rightarrow>
    (vec \<times> kstate) option" where
  "vector_append es st func line v e s = do {
     let v = v\<lparr>vlength := vlength v + 1\<rparr>;
     (v, s) \<leftarrow>
       (if vcapacity v < vlength v * es
        then do {
          let v = v\<lparr>vcapacity := vlength v * es * RESIZE\<rparr>;
          (p, s) \<leftarrow> krealloc_impl (vdata v) (vcapacity v) func line s;
          Some (v\<lparr>vdata := p\<rparr>, s)
        }
        else Some (v, s));
     Some (v, s\<lparr>ram := st (vdata v + (vlength v - 1) * es) e (ram s)\<rparr>)
   }"

definition vector_erase :: "u64 \<Rightarrow> vec \<Rightarrow> u64 \<Rightarrow> mem \<Rightarrow> vec \<times> mem" where
  "vector_erase es v index m =
     (v\<lparr>vlength := vlength v - 1\<rparr>,
      memcpy (vdata v + index * es) (vdata v + (index + 1) * es) (es * vlength v - index - 1) m)"

text \<open>
  \<^verbatim>\<open>vector_erase_value\<close>, which \<^verbatim>\<open>unmap_page_entry\<close> also writes out by hand: the
  first element equal to the value goes.
\<close>

function vector_erase_value_from ::
    "u64 \<Rightarrow> u64 \<Rightarrow> (u64 \<Rightarrow> mem \<Rightarrow> 'a) \<Rightarrow> vec \<Rightarrow> 'a \<Rightarrow> mem \<Rightarrow> vec \<times> mem" where
  "vector_erase_value_from i es ld v x m =
     (if i < vector_len v
      then if vector_at es ld v i m = x then vector_erase es v i m
           else vector_erase_value_from (i + 1) es ld v x m
      else (v, m))"
  by pat_completeness auto
termination
proof (relation "measure (\<lambda>(i, es, ld, v, x, m). unat (vector_len v) - unat i)", goal_cases)
  case (2 i es ld v x m)
  then have "unat i < unat (vector_len v)" by (simp add: word_less_nat_alt)
  moreover have "unat (i + 1) = unat i + 1"
    using calculation unat_lt64 [of "vector_len v"] unat_step [of i 1 1] by simp
  ultimately show ?case by simp
qed simp

declare vector_erase_value_from.simps [simp del]

definition vector_erase_value :: "u64 \<Rightarrow> (u64 \<Rightarrow> mem \<Rightarrow> 'a) \<Rightarrow> vec \<Rightarrow> 'a \<Rightarrow> mem \<Rightarrow> vec \<times> mem" where
  "vector_erase_value = vector_erase_value_from 0"

text \<open>
  \<^verbatim>\<open>vector_free\<close>. The macro clears \<^verbatim>\<open>len\<close>, a field the structure does not
  have, so no file of the repository could use it; the field meant is the length.
\<close>

section \<open>The list a vector stands for\<close>

definition vec_elems :: "u64 \<Rightarrow> (u64 \<Rightarrow> mem \<Rightarrow> 'a) \<Rightarrow> vec \<Rightarrow> mem \<Rightarrow> 'a list" where
  "vec_elems es ld v m = map (\<lambda>i. ld (vdata v + of_nat (i * unat es)) m) [0..<unat (vlength v)]"

definition vec_ok :: "u64 \<Rightarrow> vec \<Rightarrow> kstate \<Rightarrow> bool" where
  "vec_ok es v s \<longleftrightarrow> opt_block (vdata v) (vcapacity v) s \<and> unat (vlength v) * unat es \<le> unat (vcapacity v)"

definition vec_frames :: "vec \<Rightarrow> nat set" where
  "vec_frames v = opt_frames (vdata v) (vcapacity v)"

lemma vec_elems_length [simp]: "List.length (vec_elems es ld v m) = unat (vlength v)"
  by (simp add: vec_elems_def)

lemma vec_elems_nth:
  "i < unat (vlength v) \<Longrightarrow> vec_elems es ld v m ! i = ld (vdata v + of_nat (i * unat es)) m"
  by (simp add: vec_elems_def)

lemma vector_at_elems:
  assumes "i < vlength v"
  shows "vector_at es ld v i m = vec_elems es ld v m ! unat i"
  using assms by (simp add: vector_at_def vec_elems_nth word_less_nat_alt)

text \<open>How an element sits in memory: loads see exactly the \<open>es\<close> bytes a store writes.\<close>

locale elem_codec =
  fixes es :: u64 and ld :: "u64 \<Rightarrow> mem \<Rightarrow> 'a" and st :: "u64 \<Rightarrow> 'a \<Rightarrow> mem \<Rightarrow> mem"
  assumes load_store: "ld a (st a e m) = e"
    and store_outside: "\<not> in_range a (unat es) x \<Longrightarrow> st a e m x = m x"
    and load_local: "(\<And>j. j < unat es \<Longrightarrow> m (a + of_nat j) = m' (b + of_nat j)) \<Longrightarrow> ld a m = ld b m'"
    and es_pos: "0 < unat es"
begin

lemma elem_bytes:
  assumes "i < n" and "j < unat es"
  shows "i * unat es + j < n * unat es"
proof -
  have "i * unat es + j < Suc i * unat es" using assms(2) by simp
  also have "\<dots> \<le> n * unat es" using assms(1) by (intro mult_le_mono1) simp
  finally show ?thesis .
qed

lemma vec_elems_cong:
  assumes "vlength v' = vlength v"
    and "\<And>i. i < unat (vlength v) * unat es \<Longrightarrow> m' (vdata v' + of_nat i) = m (vdata v + of_nat i)"
  shows "vec_elems es ld v' m' = vec_elems es ld v m"
proof (rule nth_equalityI)
  fix i assume "i < List.length (vec_elems es ld v' m')"
  then have i: "i < unat (vlength v)" using assms(1) by simp
  have "ld (vdata v' + of_nat (i * unat es)) m' = ld (vdata v + of_nat (i * unat es)) m"
  proof (rule load_local)
    fix j assume "j < unat es"
    from assms(2) [OF elem_bytes [OF i this]]
    show "m' (vdata v' + of_nat (i * unat es) + of_nat j) = m (vdata v + of_nat (i * unat es) + of_nat j)"
      by (simp add: add.assoc)
  qed
  with i assms(1) show "vec_elems es ld v' m' ! i = vec_elems es ld v m ! i"
    by (simp add: vec_elems_nth)
qed (simp add: assms(1))

text \<open>Writing the last slot of a vector whose block has room for it.\<close>

lemma store_last:
  fixes e :: 'a
  assumes blk: "heap_block p cap s" and ok: "alloc_ok s" and fit: "(n + 1) * unat es \<le> unat cap"
  defines "s' \<equiv> s\<lparr>ram := st (p + of_nat (n * unat es)) e (ram s)\<rparr>"
  shows "heap_block p cap s'" "only_changes (block_frames p cap) s s'" "alloc_ok s'" "avail s' = avail s"
    "i < n * unat es \<Longrightarrow> ram s' (p + of_nat i) = ram s (p + of_nat i)"
proof -
  have cap: "unat cap < 2 ^ 64" by (rule unat_lt64)
  have slot: "in_range p (unat cap) x" if "in_range (p + of_nat (n * unat es)) (unat es) x" for x
  proof -
    from that obtain j where j: "j < unat es" "x = p + of_nat (n * unat es) + of_nat j" by (rule in_rangeE)
    then have "x = p + of_nat (n * unat es + j)" and "n * unat es + j < unat cap"
      using fit elem_bytes [of n "n + 1" j] by (simp_all add: add.assoc)
    then show ?thesis using cap by (simp only: in_range_offset less_trans)
  qed
  have same: "st (p + of_nat (n * unat es)) e (ram s) x = ram s x" if "\<not> in_range p (unat cap) x" for x
    using that slot by (intro store_outside) blast
  note c = heap_block_payload_change [OF blk same ok]
  show "heap_block p cap s'" "only_changes (block_frames p cap) s s'" "alloc_ok s'" "avail s' = avail s"
    using c by (simp_all add: s'_def)
  assume i: "i < n * unat es"
  have "\<not> in_range (p + of_nat (n * unat es)) (unat es) (p + of_nat i)"
  proof
    assume "in_range (p + of_nat (n * unat es)) (unat es) (p + of_nat i)"
    then obtain j where j: "j < unat es" "p + of_nat i = p + of_nat (n * unat es) + of_nat j" by (rule in_rangeE)
    then have "(of_nat i :: u64) = of_nat (n * unat es + j)" by (simp add: add.assoc)
    then have "unat (of_nat i :: u64) = unat (of_nat (n * unat es + j) :: u64)" by (simp only:)
    moreover have "n * unat es + j < unat cap" using fit elem_bytes [of n "n + 1" j] j(1) by simp
    then have "n * unat es + j < 2 ^ 64" "i < 2 ^ 64" using i cap by linarith+
    ultimately have "i = n * unat es + j" by (simp only: unat_of_nat64)
    with i show False by simp
  qed
  then show "ram s' (p + of_nat i) = ram s (p + of_nat i)" by (simp add: s'_def store_outside)
qed

lemma vec_ok_elems:
  assumes "vec_ok es v s" and "heap_block p cap s'" and "p = vdata v" and "vcapacity v = cap"
  shows "unat (vlength v) * unat es \<le> unat cap"
  using assms by (simp add: vec_ok_def)

text \<open>Sizes below the bound do not wrap around.\<close>

lemma append_sizes:
  fixes v :: vec
  assumes bound: "(unat (vlength v) + 1) * unat es * 4 \<le> 2 ^ 47"
  shows "unat (vlength v + 1) = unat (vlength v) + 1"
    "unat ((vlength v + 1) * es) = (unat (vlength v) + 1) * unat es"
    "unat ((vlength v + 1) * es * 4) = (unat (vlength v) + 1) * unat es * 4"
proof -
  have "(unat (vlength v) + 1) * 1 \<le> (unat (vlength v) + 1) * unat es" using es_pos by (intro mult_le_mono2) simp
  then show n1: "unat (vlength v + 1) = unat (vlength v) + 1" using unat_step [of "vlength v" 1 1] bound by simp
  show size1: "unat ((vlength v + 1) * es) = (unat (vlength v) + 1) * unat es"
    using bound n1 unat_step [of 0 "unat (vlength v) + 1" es] by (simp add: add.commute)
  show "unat ((vlength v + 1) * es * 4) = (unat (vlength v) + 1) * unat es * 4"
    using bound size1 unat_step [of 0 4 "(vlength v + 1) * es"] by (simp add: mult.commute)
qed

text \<open>The block \<open>p\<close> of capacity \<open>cap\<close> that has room for the element, and the state \<open>t\<close> before it is stored.\<close>

lemma append_place:
  assumes ok: "alloc_ok s" and v: "vec_ok es v s"
    and bound: "(unat (vlength v) + 1) * unat es * 4 \<le> 2 ^ 47"
    and ret: "vector_append es st func line v e s = Some (v', s')"
  obtains p cap t where "heap_block p cap t" "alloc_ok t" "p \<noteq> 0" "(unat (vlength v) + 1) * unat es \<le> unat cap"
    "block_frames p cap \<subseteq> avail s \<union> vec_frames v"
    "avail t = (avail s \<union> vec_frames v) - block_frames p cap"
    "only_changes (bitmap_frames s \<union> vec_frames v \<union> block_frames p cap) s t"
    "\<forall>i < unat (vlength v) * unat es. ram t (p + of_nat i) = ram s (vdata v + of_nat i)"
    "v' = v\<lparr>vlength := vlength v + 1, vcapacity := cap, vdata := p\<rparr>"
    "s' = t\<lparr>ram := st (p + of_nat (unat (vlength v) * unat es)) e (ram t)\<rparr>"
proof (cases "vcapacity v < (vlength v + 1) * es")
  case True
  then obtain p t where k: "krealloc_impl (vdata v) ((vlength v + 1) * es * 4) func line s = Some (p, t)"
    and v': "v' = v\<lparr>vlength := vlength v + 1, vcapacity := (vlength v + 1) * es * 4, vdata := p\<rparr>"
    and s': "s' = t\<lparr>ram := st (p + vlength v * es) e (ram t)\<rparr>"
    using ret by (auto simp: vector_append_def Let_def bind_eq_Some_conv)
  note size4 = append_sizes(3) [OF bound]
  have ob: "opt_block (vdata v) (vcapacity v) s" using v by (simp add: vec_ok_def)
  have le: "unat ((vlength v + 1) * es * 4) \<le> 2 ^ 47" using bound size4 by simp
  note kr = krealloc_spec [OF ok ob le k, folded vec_frames_def]
  have cap: "unat (vlength v) * unat es \<le> unat (vcapacity v)" using v by (simp add: vec_ok_def)
  show ?thesis
  proof (rule that [OF kr(2,1,3) _ kr(4,5,6) _ v'])
    show "(unat (vlength v) + 1) * unat es \<le> unat ((vlength v + 1) * es * 4)" using size4 by simp
    show "\<forall>i < unat (vlength v) * unat es. ram t (p + of_nat i) = ram s (vdata v + of_nat i)"
      using kr(7) cap size4 by simp
    show "s' = t\<lparr>ram := st (p + of_nat (unat (vlength v) * unat es)) e (ram t)\<rparr>" by (simp add: s')
  qed
next
  case False
  then have le: "(unat (vlength v) + 1) * unat es \<le> unat (vcapacity v)"
    using append_sizes(2) [OF bound] by (simp add: not_less word_le_nat_alt)
  then have "vdata v \<noteq> 0" using v es_pos by (auto simp: vec_ok_def opt_block_def)
  then have blk: "heap_block (vdata v) (vcapacity v) s"
    and F: "vec_frames v = block_frames (vdata v) (vcapacity v)"
    using v by (simp_all add: vec_ok_def opt_block_def vec_frames_def opt_frames_def)
  show ?thesis
  proof (rule that [OF blk ok \<open>vdata v \<noteq> 0\<close> le])
    show "avail s = (avail s \<union> vec_frames v) - block_frames (vdata v) (vcapacity v)"
      using heap_block_avail [OF blk] F by blast
    show "v' = v\<lparr>vlength := vlength v + 1, vcapacity := vcapacity v, vdata := vdata v\<rparr>"
      and "s' = s\<lparr>ram := st (vdata v + of_nat (unat (vlength v) * unat es)) e (ram s)\<rparr>"
      using ret False by (auto simp: vector_append_def Let_def)
  qed (simp_all add: F)
qed

text \<open>
  Appending: the new vector stands for the list with the element at its end, and nothing
  outside the two blocks and the bitmap is written.
\<close>

lemma append_spec:
  assumes ok: "alloc_ok s" and v: "vec_ok es v s"
    and bound: "(unat (vlength v) + 1) * unat es * 4 \<le> 2 ^ 47"
    and ret: "vector_append es st func line v e s = Some (v', s')"
  shows "vec_ok es v' s'" "alloc_ok s'"
    "vec_elems es ld v' (ram s') = vec_elems es ld v (ram s) @ [e]"
    "vec_frames v' \<subseteq> avail s \<union> vec_frames v"
    "avail s' = (avail s \<union> vec_frames v) - vec_frames v'"
    "only_changes (bitmap_frames s \<union> vec_frames v \<union> vec_frames v') s s'"
    "vdata v' \<noteq> 0"
proof -
  let ?n = "unat (vlength v)"
  note n1 = append_sizes(1) [OF bound]
  obtain p cap t where t: "heap_block p cap t" "alloc_ok t" "p \<noteq> 0" "(?n + 1) * unat es \<le> unat cap"
      "block_frames p cap \<subseteq> avail s \<union> vec_frames v"
      "avail t = (avail s \<union> vec_frames v) - block_frames p cap"
      "only_changes (bitmap_frames s \<union> vec_frames v \<union> block_frames p cap) s t"
      "\<forall>i < ?n * unat es. ram t (p + of_nat i) = ram s (vdata v + of_nat i)"
    and v': "v' = v\<lparr>vlength := vlength v + 1, vcapacity := cap, vdata := p\<rparr>"
    and s': "s' = t\<lparr>ram := st (p + of_nat (?n * unat es)) e (ram t)\<rparr>"
    by (rule append_place [OF ok v bound ret])
  note st = store_last [OF t(1,2,4), where e = e, folded s']
  have frames: "vec_frames v' = block_frames p cap" using t(3) by (simp add: v' vec_frames_def opt_frames_def)
  show "vec_ok es v' s'" using st(1) t(3,4) n1 by (simp add: v' vec_ok_def opt_block_def)
  show "alloc_ok s'" by (fact st(3))
  show "vec_frames v' \<subseteq> avail s \<union> vec_frames v" using t(5) frames by simp
  show "avail s' = (avail s \<union> vec_frames v) - vec_frames v'" using t(6) st(4) frames by simp
  have "only_changes ((bitmap_frames s \<union> vec_frames v \<union> block_frames p cap) \<union> block_frames p cap) s s'"
    by (rule only_changes_trans [OF t(7) st(2)])
  then show "only_changes (bitmap_frames s \<union> vec_frames v \<union> vec_frames v') s s'"
    by (simp add: frames Un_assoc)
  show "vdata v' \<noteq> 0" using t(3) by (simp add: v')
  have "vec_elems es ld (v'\<lparr>vlength := vlength v\<rparr>) (ram s') = vec_elems es ld v (ram s)"
    by (rule vec_elems_cong) (use st(5) t(8) in \<open>simp_all add: v'\<close>)
  moreover have "ld (p + of_nat (?n * unat es)) (ram s') = e" by (simp add: s' load_store)
  ultimately show "vec_elems es ld v' (ram s') = vec_elems es ld v (ram s) @ [e]"
    by (simp add: vec_elems_def v' n1)
qed

text \<open>
  Erasing: the macro copies \<open>es * length - index - 1\<close> bytes where
  \<open>(length - index - 1) * es\<close> would do. The list loses its element, and the bytes past the
  last element, up to \<open>index * es + es * length - index - 1\<close>, are overwritten too.
\<close>

lemma unat_sub64:
  "unat (x - y) = (if unat y \<le> unat x then unat x - unat y else unat x + 2 ^ 64 - unat y)"
  for x y :: u64
  using unat_sub_if_size [of x y] by (simp add: word_size word_le_nat_alt)

lemma shifted_less:
  "a \<le> 2 ^ 62 \<Longrightarrow> c \<le> 2 ^ 62 \<Longrightarrow>
   (if a \<le> y then y - a else y + 2 ^ 64 - a) < c \<longleftrightarrow> a \<le> y \<and> y < a + (c :: nat)"
  by auto

definition erase_end :: "vec \<Rightarrow> nat \<Rightarrow> nat" where
  "erase_end v i = i * unat es + (unat es * unat (vlength v) - i - 1)"

lemma erase_count:
  assumes i: "i < vlength v" and small: "unat (vlength v) * unat es \<le> 2 ^ 47"
  shows "unat (es * vlength v - i - 1) = unat es * unat (vlength v) - unat i - 1"
proof -
  let ?n = "unat (vlength v)" and ?i = "unat i"
  have lt: "?i < ?n" using i by (simp add: word_less_nat_alt)
  have ge: "?n \<le> ?n * unat es" using es_pos by simp
  have iw: "?i < unat es * ?n" using less_le_trans [OF lt ge] by (simp only: mult.commute)
  have a: "unat (es * vlength v) = unat es * ?n"
    using unat_step [of 0 ?n es] small by (simp add: mult.commute)
  have b: "unat (es * vlength v - i) = unat es * ?n - ?i"
    using a iw by (subst unat_sub) (simp_all add: word_le_nat_alt)
  have "1 \<le> es * vlength v - i"
    using b iw by (simp add: word_le_nat_alt)
  then show ?thesis using b by (simp add: unat_sub)
qed

lemma erase_bytes:
  assumes i: "i < vlength v" and small: "unat (vlength v) * unat es \<le> 2 ^ 47"
    and e: "vector_erase es v i m = (v', m')"
  shows "v' = v\<lparr>vlength := vlength v - 1\<rparr>" and "unat (vlength v') = unat (vlength v) - 1"
    and "m' x = (if unat i * unat es \<le> unat (x - vdata v) \<and> unat (x - vdata v) < erase_end v (unat i)
      then m (x + es) else m x)"
proof -
  let ?n = "unat (vlength v)" and ?i = "unat i"
  have lt: "?i < ?n" using i by (simp add: word_less_nat_alt)
  have ie: "?i * unat es + unat es \<le> ?n * unat es"
    using mult_le_mono1 [of "Suc ?i" ?n "unat es"] lt by simp
  show v': "v' = v\<lparr>vlength := vlength v - 1\<rparr>" using e by (simp add: vector_erase_def)
  have "1 \<le> vlength v" using lt by (simp add: word_le_nat_alt)
  then show "unat (vlength v') = ?n - 1" by (simp add: v' unat_sub)
  note w = erase_count [OF i small]
  have "unat (of_nat (?i * unat es) :: u64) = ?i * unat es"
    by (rule unat_of_nat64) (use ie small in simp)
  then have offs: "unat (i * es) = ?i * unat es" by simp
  let ?d = "vdata v + i * es"
  have src: "vdata v + (i + 1) * es = ?d + es" by (simp add: algebra_simps)
  have m': "m' = memcpy ?d (?d + es) (es * vlength v - i - 1) m"
    using e src by (simp add: vector_erase_def)
  have nowrap: "unat (?d + es - ?d) + unat (es * vlength v - i - 1) \<le> 2 ^ 64"
  proof -
    have "unat es \<le> ?n * unat es" using lt by simp
    then have "unat es \<le> 2 ^ 47" using small by (rule le_trans)
    then show ?thesis using small by (simp add: w mult.commute)
  qed
  have low: "?i * unat es \<le> 2 ^ 62" using ie small by simp
  have "unat es * ?n \<le> 2 ^ 47" using small by (simp only: mult.commute)
  then have high: "unat es * ?n - ?i - 1 \<le> 2 ^ 62" by simp
  have split: "unat (x - ?d) = (if ?i * unat es \<le> unat (x - vdata v) then unat (x - vdata v) - ?i * unat es
      else unat (x - vdata v) + 2 ^ 64 - ?i * unat es)"
  proof -
    have d: "x - ?d = (x - vdata v) - i * es" by simp
    show ?thesis unfolding d unat_sub64 offs ..
  qed
  have "in_range ?d (unat (es * vlength v - i - 1)) x \<longleftrightarrow>
      ?i * unat es \<le> unat (x - vdata v) \<and> unat (x - vdata v) < erase_end v ?i"
    unfolding in_range_def split w erase_end_def
    by (rule shifted_less [OF low high])
  then show "m' x = (if unat i * unat es \<le> unat (x - vdata v) \<and> unat (x - vdata v) < erase_end v (unat i)
      then m (x + es) else m x)"
    using memcpy_apply [OF nowrap] by (simp add: m' add.commute)
qed

lemma erase_byte_of_elem:
  assumes i: "i < vlength v" and small: "unat (vlength v) * unat es \<le> 2 ^ 47"
    and e: "vector_erase es v i m = (v', m')" and k: "k < unat (vlength v) - 1" and j: "j < unat es"
  shows "m' (vdata v + of_nat (k * unat es) + of_nat j) =
      (if k < unat i then m (vdata v + of_nat (k * unat es) + of_nat j)
       else m (vdata v + of_nat (Suc k * unat es) + of_nat j))"
proof -
  let ?n = "unat (vlength v)" and ?i = "unat i"
  note b = erase_bytes [OF i small e]
  have lt: "?i < ?n" using i by (simp add: word_less_nat_alt)
  let ?o = "k * unat es + j"
  have o: "?o < (?n - 1) * unat es" by (rule elem_bytes [OF k j])
  have "?o < ?n * unat es" by (rule elem_bytes) (use k j in simp_all)
  with small have o64: "?o < 2 ^ 64" by simp
  have lo: "?i * unat es \<le> ?o \<longleftrightarrow> ?i \<le> k"
  proof
    show "?i * unat es \<le> ?o" if "?i \<le> k" using that mult_le_mono1 [of ?i k "unat es"] by linarith
    show "?i \<le> k" if "?i * unat es \<le> ?o"
    proof (rule ccontr)
      assume "\<not> ?i \<le> k"
      with elem_bytes [of k ?i j] j that show False by simp
    qed
  qed
  have "Suc ?i * 1 \<le> Suc ?i * unat es" using es_pos by (intro mult_le_mono2) simp
  moreover have "(?n - 1) * unat es + unat es = ?n * unat es" using lt by (simp add: mult_eq_if)
  ultimately have hi: "?o < erase_end v ?i"
    using o lt by (simp add: erase_end_def mult.commute)
  have "vdata v + of_nat (k * unat es) + of_nat j = vdata v + of_nat ?o" by (simp add: add.assoc)
  moreover have "unat (vdata v + of_nat ?o - vdata v) = ?o" using o64 by (simp add: unat_of_nat64 del: of_nat_add of_nat_mult)
  moreover have "vdata v + of_nat ?o + es = vdata v + of_nat (Suc k * unat es) + of_nat j"
    by (simp add: algebra_simps)
  ultimately show ?thesis using b(3) [of "vdata v + of_nat ?o"] lo hi by (simp add: ac_simps)
qed

lemma erase_elems:
  assumes i: "i < vlength v" and small: "unat (vlength v) * unat es \<le> 2 ^ 47"
    and e: "vector_erase es v i m = (v', m')"
  shows "vec_elems es ld v' m' = take (unat i) (vec_elems es ld v m) @ drop (Suc (unat i)) (vec_elems es ld v m)"
proof (rule nth_equalityI)
  note b = erase_bytes [OF assms]
  let ?n = "unat (vlength v)" and ?i = "unat i"
  have lt: "?i < ?n" using i by (simp add: word_less_nat_alt)
  then show len: "List.length (vec_elems es ld v' m') =
      List.length (take ?i (vec_elems es ld v m) @ drop (Suc ?i) (vec_elems es ld v m))"
    by (simp add: b(2))
  fix k assume "k < List.length (vec_elems es ld v' m')"
  then have k: "k < ?n - 1" by (simp add: b(2))
  note byte = erase_byte_of_elem [OF assms k]
  have "ld (vdata v + of_nat (k * unat es)) m' =
      ld (vdata v + of_nat ((if k < ?i then k else Suc k) * unat es)) m"
  proof (rule load_local)
    fix j assume "j < unat es"
    from byte [OF this] show "m' (vdata v + of_nat (k * unat es) + of_nat j) =
        m (vdata v + of_nat ((if k < ?i then k else Suc k) * unat es) + of_nat j)"
      by (cases "k < ?i") simp_all
  qed
  then show "vec_elems es ld v' m' ! k =
      (take ?i (vec_elems es ld v m) @ drop (Suc ?i) (vec_elems es ld v m)) ! k"
    using k lt b(1,2) by (simp add: vec_elems_nth nth_append distrib_right)
qed

text \<open>When the over-long copy stays inside the block, only the payload changes.\<close>

lemma erase_frame:
  assumes ok: "alloc_ok s" and v: "vec_ok es v s" and i: "i < vlength v"
    and fit: "erase_end v (unat i) \<le> unat (vcapacity v)"
    and e: "vector_erase es v i (ram s) = (v', m')"
  defines "s' \<equiv> s\<lparr>ram := m'\<rparr>"
  shows "vec_ok es v' s'" "alloc_ok s'" "avail s' = avail s" "only_changes (vec_frames v) s s'"
    "vec_frames v' = vec_frames v"
proof -
  have lt: "0 < unat (vlength v)" using i by (simp add: word_less_nat_alt)
  have le: "unat (vlength v) * unat es \<le> unat (vcapacity v)" using v by (simp add: vec_ok_def)
  have nz: "vdata v \<noteq> 0"
    using v lt es_pos by (auto simp: vec_ok_def opt_block_def)
  then have blk: "heap_block (vdata v) (vcapacity v) s"
    and F: "vec_frames v = block_frames (vdata v) (vcapacity v)"
    using v by (simp_all add: vec_ok_def opt_block_def vec_frames_def opt_frames_def)
  have small: "unat (vlength v) * unat es \<le> 2 ^ 47"
    using le heap_block_geometry(3) [OF blk] by (rule le_trans)
  note b = erase_bytes [OF i small e]
  have same: "m' a = ram s a" if "\<not> in_range (vdata v) (unat (vcapacity v)) a" for a
    using that fit by (simp add: b(3) in_range_def)
  note c = heap_block_payload_change [OF blk same ok, folded s'_def]
  show "alloc_ok s'" "avail s' = avail s" "only_changes (vec_frames v) s s'"
    using c by (simp_all add: F)
  have "(unat (vlength v) - 1) * unat es \<le> unat (vcapacity v)"
    by (rule le_trans [OF mult_le_mono1 le]) simp
  then show "vec_ok es v' s'"
    using c(1) nz b(2) by (simp add: vec_ok_def b(1) opt_block_def)
  show "vec_frames v' = vec_frames v" by (simp add: b(1) vec_frames_def)
qed

lemma erase_value_from:
  assumes small: "unat (vlength v) * unat es \<le> 2 ^ 47" and "i \<le> vlength v"
    and "vector_erase_value_from i es ld v x m = (v', m')"
  shows "vec_elems es ld v' m' = take (unat i) (vec_elems es ld v m) @ remove1 x (drop (unat i) (vec_elems es ld v m))"
  using assms(2,3)
proof (induction "unat (vlength v) - unat i" arbitrary: i)
  case 0
  then have "\<not> i < vlength v" by (simp add: word_less_nat_alt)
  then have "vector_erase_value_from i es ld v x m = (v, m)"
    by (subst vector_erase_value_from.simps) (simp add: vector_len_def)
  then have "v' = v" "m' = m" using 0(3) by simp_all
  moreover have "unat (vlength v) \<le> unat i" using 0 by simp
  ultimately show ?case by simp
next
  case (Suc k)
  then have lt: "i < vlength v" and n: "unat i < unat (vlength v)" by (simp_all add: word_less_nat_alt)
  let ?xs = "vec_elems es ld v m"
  have d: "drop (unat i) ?xs = ?xs ! unat i # drop (Suc (unat i)) ?xs"
    using n by (simp add: Cons_nth_drop_Suc)
  show ?case
  proof (cases "?xs ! unat i = x")
    case True
    then have "vector_erase es v i m = (v', m')"
      using Suc.prems(2) lt by (simp add: vector_erase_value_from.simps [of i] vector_len_def vector_at_elems)
    from erase_elems [OF lt small this] show ?thesis using d True by simp
  next
    case False
    have u: "unat (i + 1) = Suc (unat i)"
      using n unat_lt64 [of "vlength v"] unat_step [of i 1 1] by simp
    have "vec_elems es ld v' m' = take (unat (i + 1)) ?xs @ remove1 x (drop (unat (i + 1)) ?xs)"
    proof (rule Suc.hyps(1))
      show "k = unat (vlength v) - unat (i + 1)" using Suc.hyps(2) u by simp
      show "i + 1 \<le> vlength v" using n u by (simp add: word_le_nat_alt)
      show "vector_erase_value_from (i + 1) es ld v x m = (v', m')"
        using Suc.prems(2) lt False by (simp add: vector_erase_value_from.simps [of i] vector_len_def vector_at_elems)
    qed
    then show ?thesis using d False n by (simp add: u take_Suc_conv_app_nth)
  qed
qed

lemma erase_value_elems:
  assumes "unat (vlength v) * unat es \<le> 2 ^ 47" and "vector_erase_value es ld v x m = (v', m')"
  shows "vec_elems es ld v' m' = remove1 x (vec_elems es ld v m)"
  using erase_value_from [OF assms(1), of 0 x m v' m'] assms(2) by (simp add: vector_erase_value_def)

end

section \<open>The two element types of the kernel\<close>

definition load_mem_map :: "u64 \<Rightarrow> mem \<Rightarrow> mem_map" where
  "load_mem_map a m = \<lparr>mm_virt_addr = load64 a m, mm_phys_addr = load64 (a + 8) m,
     mm_flags = load64 (a + 16) m, mm_num_pages = load64 (a + 24) m\<rparr>"

definition store_mem_map :: "u64 \<Rightarrow> mem_map \<Rightarrow> mem \<Rightarrow> mem" where
  "store_mem_map a e m = store64 (a + 24) (mm_num_pages e) (store64 (a + 16) (mm_flags e)
     (store64 (a + 8) (mm_phys_addr e) (store64 a (mm_virt_addr e) m)))"

lemma load64_local:
  assumes "\<And>j. j < 8 \<Longrightarrow> m (a + of_nat j) = m' (b + of_nat j)"
  shows "load64 a m = load64 b m'"
  by (rule bit_word_eqI) (use assms in \<open>auto simp: bit_load_le div_less_iff_less_mult\<close>)

interpretation u64_vec: elem_codec 8 "\<lambda>a m. load64 a m" "\<lambda>a v m. store64 a v m"
proof
  fix a b :: u64 and e :: u64 and m m' :: mem and x :: u64
  show "load64 a (store64 a e m) = e" by simp
  show "\<not> in_range a (unat (8 :: u64)) x \<Longrightarrow> store64 a e m x = m x" by (simp add: store_le_apply)
  show "(\<And>j. j < unat (8 :: u64) \<Longrightarrow> m (a + of_nat j) = m' (b + of_nat j)) \<Longrightarrow> load64 a m = load64 b m'"
    by (rule load64_local) simp
qed simp

lemma in_range_part: "in_range (a + of_nat i) l x \<Longrightarrow> i + l \<le> n \<Longrightarrow> n \<le> 2 ^ 63 \<Longrightarrow> in_range a n x"
proof -
  assume r: "in_range (a + of_nat i) l x" and n: "i + l \<le> n" "n \<le> 2 ^ 63"
  from r obtain j where j: "j < l" "x = a + of_nat i + of_nat j" by (rule in_rangeE)
  then have x: "x = a + of_nat (i + j)" by simp
  show ?thesis unfolding x by (subst in_range_offset) (use j n in simp_all)
qed

interpretation mem_map_vec: elem_codec 32 load_mem_map store_mem_map
proof
  fix a b :: u64 and e :: mem_map and m m' :: mem and x :: u64
  show "load_mem_map a (store_mem_map a e m) = e"
    by (simp add: load_mem_map_def store_mem_map_def load_store_disjoint disjoint_ranges_def)
  show "store_mem_map a e m x = m x" if "\<not> in_range a (unat (32 :: u64)) x"
  proof -
    have "\<not> in_range (a + of_nat i) 8 x" if "i + 8 \<le> 32" for i
      using that \<open>\<not> in_range a (unat (32 :: u64)) x\<close> in_range_part [of a i 8 x 32] by auto
    from this [of 0] this [of 8] this [of 16] this [of 24]
    show ?thesis by (simp add: store_mem_map_def store_le_apply)
  qed
  show "load_mem_map a m = load_mem_map b m'"
    if "\<And>j. j < unat (32 :: u64) \<Longrightarrow> m (a + of_nat j) = m' (b + of_nat j)"
  proof -
    have "load64 (a + of_nat i) m = load64 (b + of_nat i) m'" if "i + 8 \<le> 32" for i
    proof (rule load64_local)
      fix j :: nat assume "j < 8"
      with \<open>i + 8 \<le> 32\<close> have "m (a + of_nat (i + j)) = m' (b + of_nat (i + j))"
        by (intro \<open>\<And>j. j < unat (32 :: u64) \<Longrightarrow> _\<close>) simp
      then show "m (a + of_nat i + of_nat j) = m' (b + of_nat i + of_nat j)" by (simp add: add.assoc)
    qed
    from this [of 0] this [of 8] this [of 16] this [of 24]
    show ?thesis by (simp add: load_mem_map_def)
  qed
qed simp

end
