(* ===== verification/Paging.thy ===== *)
theory Paging
  imports Vectors
begin

text \<open>
  Virtual memory of \<^verbatim>\<open>kernel/src/sys/mmu.c\<close>: the four-level page tables, mapping,
  unmapping and translation.

  An \<^verbatim>\<open>ADDR_SPACE *\<close> is its address; the null pointer stands for the global
  \<^verbatim>\<open>kernel_addr_space\<close> (\<^verbatim>\<open>CONVERT_ADDR_SPACE\<close>), which the state keeps as a record. Any
  other address space is in memory, at the offsets the ABI gives the structure. The
  \<^verbatim>\<open>invlpg\<close> instructions are recorded in the state.
\<close>

section \<open>Constants and macros\<close>

abbreviation (input) VM_PRESENT :: u64 where "VM_PRESENT \<equiv> 1"
abbreviation (input) VM_READ_WRITE :: u64 where "VM_READ_WRITE \<equiv> 2"
abbreviation (input) VM_USER :: u64 where "VM_USER \<equiv> 4"
abbreviation (input) VM_DEFAULT :: u64 where "VM_DEFAULT \<equiv> 3"
abbreviation (input) VM_USERMODE :: u64 where "VM_USERMODE \<equiv> 7"

definition MAKE_TABLE_ENTRY :: "u64 \<Rightarrow> u64 \<Rightarrow> u64" where
  "MAKE_TABLE_ENTRY addr flags = (addr AND NOT 0xFFF) OR flags"

definition CHECK_NOT_PRESENT :: "u64 \<Rightarrow> bool" where
  "CHECK_NOT_PRESENT e \<longleftrightarrow> e AND VM_PRESENT = 0"

text \<open>The table indices of a virtual address; \<^verbatim>\<open>uint16_t\<close> holds each.\<close>

definition pte_index :: "u64 \<Rightarrow> u64" where
  "pte_index va = drop_bit 12 va AND 0x1FF"

definition pde_index :: "u64 \<Rightarrow> u64" where
  "pde_index va = drop_bit 21 va AND 0x1FF"

definition pdpe_index :: "u64 \<Rightarrow> u64" where
  "pdpe_index va = drop_bit 30 va AND 0x1FF"

definition pml4e_index :: "u64 \<Rightarrow> u64" where
  "pml4e_index va = drop_bit 39 va AND 0x1FF"

section \<open>Address spaces\<close>

definition as_pml4 :: "u64 \<Rightarrow> kstate \<Rightarrow> u64" where
  "as_pml4 as s = (if as = 0 then pml4 (kernel_addr_space s) else load64 as (ram s))"

definition as_list :: "u64 \<Rightarrow> kstate \<Rightarrow> vec" where
  "as_list as s =
     (if as = 0 then memory_list (kernel_addr_space s)
      else \<lparr>vlength = load64 (as + 8) (ram s), vcapacity = load64 (as + 16) (ram s),
            vdata = load64 (as + 24) (ram s)\<rparr>)"

definition store_vec :: "u64 \<Rightarrow> vec \<Rightarrow> mem \<Rightarrow> mem" where
  "store_vec a v m = store64 (a + 16) (vdata v) (store64 (a + 8) (vcapacity v) (store64 a (vlength v) m))"

definition set_as_list :: "u64 \<Rightarrow> vec \<Rightarrow> kstate \<Rightarrow> kstate" where
  "set_as_list as v s =
     (if as = 0
      then s\<lparr>kernel_addr_space := (kernel_addr_space s)\<lparr>memory_list := v\<rparr>\<rparr>
      else s\<lparr>ram := store_vec (as + 8) v (ram s)\<rparr>)"

definition as_list_append :: "u64 \<Rightarrow> u64 \<Rightarrow> u64 \<Rightarrow> u64 \<Rightarrow> kstate \<Rightarrow> kstate option" where
  "as_list_append as func line e s = do {
     (v, s) \<leftarrow> vector_append 8 (\<lambda>a v m. store64 a v m) func line (as_list as s) e s;
     Some (set_as_list as v s)
   }"

definition as_list_erase :: "u64 \<Rightarrow> u64 \<Rightarrow> kstate \<Rightarrow> kstate" where
  "as_list_erase as e s =
     (let (v, m) = vector_erase_value 8 (\<lambda>a m. load64 a m) (as_list as s) e (ram s)
      in set_as_list as v (s\<lparr>ram := m\<rparr>))"

section \<open>map_page_entry\<close>

text \<open>
  One level: the entry at \<open>ea\<close> either names the next table or gets a fresh one, zeroed and
  recorded in the address space's list. The code writes this block out for each level.
\<close>

definition table_of :: "u64 \<Rightarrow> u64" where
  "table_of e = PHYS_TO_VIRT (e AND NOT 0xFFF)"

definition next_table :: "u64 \<Rightarrow> u64 \<Rightarrow> u64 \<Rightarrow> u64 \<Rightarrow> kstate \<Rightarrow> (u64 \<times> kstate) option" where
  "next_table as func line ea s =
     (if CHECK_NOT_PRESENT (load64 ea (ram s))
      then do {
        (buffer, s) \<leftarrow> pm_get DEFAULT_PAGES 0 s;
        if buffer = 0 then None
        else do {
          let t = PHYS_TO_VIRT buffer;
          let m = memset t 0 (PAGE_SIZE * DEFAULT_PAGES) (ram s);
          let m = store64 ea (MAKE_TABLE_ENTRY (VIRT_TO_PHYS t) VM_USERMODE) m;
          s \<leftarrow> as_list_append as func line (VIRT_TO_PHYS t) (s\<lparr>ram := m\<rparr>);
          Some (t, s)
        }
      }
      else Some (table_of (load64 ea (ram s)), s))"

definition invlpg_if_active :: "u64 \<Rightarrow> u64 \<Rightarrow> kstate \<Rightarrow> kstate" where
  "invlpg_if_active root va s =
     (if cr3 s = VIRT_TO_PHYS root then s\<lparr>invlpg_log := va # invlpg_log s\<rparr> else s)"

definition map_page_entry :: "u64 \<Rightarrow> u64 \<Rightarrow> u64 \<Rightarrow> u64 \<Rightarrow> u64 \<Rightarrow> kstate \<Rightarrow> kstate option" where
  "map_page_entry func as va pa flags s = do {
     let root = as_pml4 as s;
     (pdpt, s) \<leftarrow> next_table as func 263 (root + pml4e_index va * 8) s;
     (pd, s) \<leftarrow> next_table as func 276 (pdpt + pdpe_index va * 8) s;
     (pt, s) \<leftarrow> next_table as func 289 (pd + pde_index va * 8) s;
     let s = s\<lparr>ram := store64 (pt + pte_index va * 8) (MAKE_TABLE_ENTRY (pa AND NOT 0xFFF) flags) (ram s)\<rparr>;
     Some (invlpg_if_active (as_pml4 as s) va s)
   }"

section \<open>unmap_page_entry\<close>

text \<open>
  The emptiness scan reads \<^verbatim>\<open>PAGE_SIZE\<close> entries of 8 bytes, all eight pages of the
  block a table was allocated in.
\<close>

definition table_empty :: "u64 \<Rightarrow> mem \<Rightarrow> bool" where
  "table_empty t m \<longleftrightarrow> (\<forall>i \<in> set [0..<4096]. load64 (t + of_nat i * 8) m = 0)"

definition drop_table :: "u64 \<Rightarrow> u64 \<Rightarrow> u64 \<Rightarrow> kstate \<Rightarrow> kstate option" where
  "drop_table as ea t s = do {
     let s = s\<lparr>ram := store64 ea 0 (ram s)\<rparr>;
     (st, s) \<leftarrow> pm_free (VIRT_TO_PHYS t) DEFAULT_PAGES s;
     if st = SYS_ERR then None
     else Some (as_list_erase as (VIRT_TO_PHYS t) s)
   }"

definition table_of_1FF :: "u64 \<Rightarrow> u64" where
  "table_of_1FF e = PHYS_TO_VIRT (e AND NOT 0x1FF)"

definition unmap_page_entry :: "u64 \<Rightarrow> u64 \<Rightarrow> kstate \<Rightarrow> kstate option" where
  "unmap_page_entry as va s =
     (let root = as_pml4 as s;
          e4 = root + pml4e_index va * 8
      in if CHECK_NOT_PRESENT (load64 e4 (ram s)) then Some s
      else let pdpt = table_of_1FF (load64 e4 (ram s));
               e3 = pdpt + pdpe_index va * 8
      in if CHECK_NOT_PRESENT (load64 e3 (ram s)) then Some s
      else let pd = table_of_1FF (load64 e3 (ram s));
               e2 = pd + pde_index va * 8
      in if CHECK_NOT_PRESENT (load64 e2 (ram s)) then Some s
      else let pt = table_of_1FF (load64 e2 (ram s));
               e1 = pt + pte_index va * 8
      in if CHECK_NOT_PRESENT (load64 e1 (ram s)) then Some s
      else do {
        let s = s\<lparr>ram := store64 e1 0 (ram s)\<rparr>;
        let s = invlpg_if_active (as_pml4 as s) va s;
        s \<leftarrow> drop_table as e2 pt s;
        if \<not> table_empty pd (ram s) then Some s
        else do {
          s \<leftarrow> drop_table as e3 pd s;
          if \<not> table_empty pdpt (ram s) then Some s
          else drop_table as e4 pdpt s
        }
      })"

section \<open>vm_get_phys_addr, vm_unmap, vm_map\<close>

text \<open>The third test indexes the page directory with the page-table index, as the code does.\<close>

definition vm_get_phys_addr :: "u64 \<Rightarrow> u64 \<Rightarrow> kstate \<Rightarrow> u64" where
  "vm_get_phys_addr as va s =
     (let root = as_pml4 as s;
          e4 = load64 (root + pml4e_index va * 8) (ram s)
      in if CHECK_NOT_PRESENT e4 then 0
      else let pdpt = table_of_1FF e4;
               e3 = load64 (pdpt + pdpe_index va * 8) (ram s)
      in if CHECK_NOT_PRESENT e3 then 0
      else let pd = table_of_1FF e3
      in if CHECK_NOT_PRESENT (load64 (pd + pte_index va * 8) (ram s)) then 0
      else let pt = table_of_1FF (load64 (pd + pde_index va * 8) (ram s));
               e1 = load64 (pt + pte_index va * 8) (ram s)
      in if CHECK_NOT_PRESENT e1 then 0
      else e1 AND 0xFFFFFFFFFFFFF000)"

definition global_map_erase :: "u64 \<Rightarrow> kstate \<Rightarrow> kstate" where
  "global_map_erase va s =
     (let v = global_mem_map s
      in case find (\<lambda>i. mm_virt_addr (vector_at 32 load_mem_map v (of_nat i) (ram s)) = va)
                [0..<unat (vector_len v)] of
           None \<Rightarrow> s
         | Some i \<Rightarrow>
             let (v, m) = vector_erase 32 v (of_nat i) (ram s)
             in s\<lparr>global_mem_map := v, ram := m\<rparr>)"

definition vm_unmap :: "u64 \<Rightarrow> u64 \<Rightarrow> u64 \<Rightarrow> kstate \<Rightarrow> kstate option" where
  "vm_unmap as va num_pages s = do {
     let s = (if as = 0 then global_map_erase va s else s);
     for_range 0 (num_pages * PAGE_SIZE) PAGE_SIZE (\<lambda>i s. unmap_page_entry as (va + i) s) s
   }"

definition global_map_append :: "u64 \<Rightarrow> u64 \<Rightarrow> mem_map \<Rightarrow> kstate \<Rightarrow> kstate option" where
  "global_map_append func line e s = do {
     (v, s) \<leftarrow> vector_append 32 store_mem_map func line (global_mem_map s) e s;
     Some (s\<lparr>global_mem_map := v\<rparr>)
   }"

definition map_pages :: "u64 \<Rightarrow> u64 \<Rightarrow> u64 \<Rightarrow> u64 \<Rightarrow> u64 \<Rightarrow> u64 \<Rightarrow> kstate \<Rightarrow> kstate option" where
  "map_pages func as va pa num_pages flags =
     for_range 0 (num_pages * PAGE_SIZE) PAGE_SIZE
       (\<lambda>i s. map_page_entry func as (va + i) (pa + i) flags s)"

definition vm_map :: "u64 \<Rightarrow> u64 \<Rightarrow> u64 \<Rightarrow> u64 \<Rightarrow> u64 \<Rightarrow> u64 \<Rightarrow> u64 \<Rightarrow> kstate \<Rightarrow> kstate option" where
  "vm_map func mpe_func as va pa num_pages flags s = do {
     s \<leftarrow> (if as = 0
           then global_map_append func 474
             \<lparr>mm_virt_addr = va, mm_phys_addr = pa, mm_flags = flags, mm_num_pages = num_pages\<rparr> s
           else Some s);
     map_pages mpe_func as va pa num_pages flags s
   }"

section \<open>vm_init and create_address_space\<close>

definition vm_entry_action :: "memmap_type \<Rightarrow> bool" where
  "vm_entry_action t \<longleftrightarrow>
     t = LIMINE_MEMMAP_FRAMEBUFFER \<or> t = LIMINE_MEMMAP_USABLE \<or>
     t = LIMINE_MEMMAP_ACPI_RECLAIMABLE \<or> t = LIMINE_MEMMAP_BOOTLOADER_RECLAIMABLE"

text \<open>\<open>k\<close> is the loader's kernel address response: virtual and physical base.\<close>

definition vm_map_entry :: "u64 \<Rightarrow> u64 \<Rightarrow> u64 \<times> u64 \<Rightarrow> memmap_entry \<Rightarrow> kstate \<Rightarrow> kstate option" where
  "vm_map_entry vm_func mpe_func k e s =
     (if me_type e = LIMINE_MEMMAP_KERNEL_AND_MODULES
      then vm_map vm_func mpe_func 0 (fst k + me_base e - snd k) (me_base e)
             (NUM_PAGES (me_length e)) VM_DEFAULT s
      else if vm_entry_action (me_type e)
      then vm_map vm_func mpe_func 0 (PHYS_TO_VIRT (me_base e)) (me_base e)
             (NUM_PAGES (me_length e)) VM_DEFAULT s
      else Some s)"

primrec vm_map_entries :: "u64 \<Rightarrow> u64 \<Rightarrow> u64 \<times> u64 \<Rightarrow> memmap_entry list \<Rightarrow> kstate \<Rightarrow> kstate option" where
  "vm_map_entries vm_func mpe_func k [] s = Some s"
| "vm_map_entries vm_func mpe_func k (e # es) s =
     Option.bind (vm_map_entry vm_func mpe_func k e s) (vm_map_entries vm_func mpe_func k es)"

definition vm_init :: "u64 \<Rightarrow> u64 \<Rightarrow> u64 \<Rightarrow> memmap_entry list option \<Rightarrow> (u64 \<times> u64) option \<Rightarrow>
    kstate \<Rightarrow> kstate option" where
  "vm_init func vm_func mpe_func m k_res s =
     (case (m, k_res) of
        (Some es, Some k) \<Rightarrow> do {
          (root, s) \<leftarrow> kmalloc_impl (DEFAULT_PAGES * PAGE_SIZE) func 504 s;
          let s = s\<lparr>kernel_addr_space := (kernel_addr_space s)\<lparr>pml4 := root\<rparr>,
                    ram := memset root 0 (PAGE_SIZE * DEFAULT_PAGES) (ram s)\<rparr>;
          let mem_size = 1024 * 512;
          let num_pages = NUM_PAGES (physical_limit (kmem s));
          s \<leftarrow> vm_map vm_func mpe_func 0 MEM_VIRT_OFFSET 0
                 (if num_pages < mem_size then num_pages else mem_size) VM_USERMODE s;
          s \<leftarrow> map_pages mpe_func 0 MEM_VIRT_OFFSET 0 num_pages VM_DEFAULT s;
          s \<leftarrow> vm_map_entries vm_func mpe_func k es s;
          Some (s\<lparr>cr3 := VIRT_TO_PHYS (pml4 (kernel_addr_space s))\<rparr>)
        }
      | _ \<Rightarrow> None)"

definition store_lock :: "u64 \<Rightarrow> lock_t \<Rightarrow> mem \<Rightarrow> mem" where
  "store_lock a l m = store_le 4 (a + 8) (ucast (lk_lock l)) (store64 a (lk_rflags l) m)"

definition share_map :: "u64 \<Rightarrow> u64 \<Rightarrow> u64 \<Rightarrow> u64 \<Rightarrow> kstate \<Rightarrow> kstate option" where
  "share_map vm_func mpe_func as i s =
     (let e = vector_at 32 load_mem_map (global_mem_map s) i (ram s)
      in vm_map vm_func mpe_func as (mm_virt_addr e) (mm_phys_addr e) (mm_num_pages e) (mm_flags e) s)"

text \<open>
  \<^verbatim>\<open>kmalloc\<close> never returns a null pointer (it halts when memory is short, and a page
  follows the metadata), so the two null checks keep their branch but not for that reason.
\<close>

definition create_address_space :: "u64 \<Rightarrow> u64 \<Rightarrow> u64 \<Rightarrow> kstate \<Rightarrow> (u64 \<times> kstate) option" where
  "create_address_space func vm_func mpe_func s = do {
     (as, s) \<leftarrow> kmalloc_impl 48 func 597 s;
     if as = 0 then Some (0, s)
     else do {
       let s = s\<lparr>ram := memset as 0 48 (ram s)\<rparr>;
       (root, s) \<leftarrow> kmalloc_impl (PAGE_SIZE * DEFAULT_PAGES) func 606 s;
       let s = s\<lparr>ram := store64 as root (ram s)\<rparr>;
       if root = 0 then do { s \<leftarrow> kfree_impl as s; Some (0, s) }
       else do {
         let s = s\<lparr>ram := store_lock (as + 32) LOCK_NEW (ram s)\<rparr>;
         s \<leftarrow> for_range 0 (vector_len (global_mem_map s)) 1 (share_map vm_func mpe_func as) s;
         Some (as, s)
       }
     }
   }"

end
