(* ===== verification/Page_Walk.thy ===== *)
theory Page_Walk
  imports Paging
begin

text \<open>
  What the page tables mean to the processor, and that \<^verbatim>\<open>map_page_entry\<close> implements
  it: the hardware walk is stated on its own, the tables of an address space form a tree of
  distinct pages outside everything that changes, and mapping a page changes the translation
  of that page only.
\<close>

section \<open>The walk\<close>

definition present :: "u64 \<Rightarrow> bool" where
  "present e \<longleftrightarrow> bit e 0"

definition entry_addr :: "u64 \<Rightarrow> nat \<Rightarrow> u64" where
  "entry_addr t i = t + of_nat (i * 8)"

text \<open>The table a path of indices leads to; \<open>None\<close> when an entry on the way is not present.\<close>

primrec descend :: "mem \<Rightarrow> u64 \<Rightarrow> nat list \<Rightarrow> u64 option" where
  "descend m t [] = Some t"
| "descend m t (i # is) =
     (let e = load64 (entry_addr t i) m in if present e then descend m (table_of e) is else None)"

definition va_path :: "u64 \<Rightarrow> nat list" where
  "va_path va = [unat (pml4e_index va), unat (pdpe_index va), unat (pde_index va)]"

definition translate :: "mem \<Rightarrow> u64 \<Rightarrow> u64 \<Rightarrow> u64 option" where
  "translate m root va =
     (case descend m root (va_path va) of
        None \<Rightarrow> None
      | Some pt \<Rightarrow> let e = load64 (entry_addr pt (unat (pte_index va))) m
                   in if present e then Some e else None)"

lemma not_present_iff: "CHECK_NOT_PRESENT e \<longleftrightarrow> \<not> present e"
  by (simp add: CHECK_NOT_PRESENT_def present_def and_one_eq odd_iff_mod_2_eq_one bit_0 even_iff_mod_2_eq_zero)

lemma mask_constants: "(0x1FF :: u64) = mask 9" "(0xFFF :: u64) = mask 12"
  by (simp_all add: mask_eq_exp_minus_1)

lemma index_bound: "unat (x AND 0x1FF :: u64) < 512"
proof -
  have "unat (x AND 0x1FF) = take_bit 9 (unat x)"
    unfolding mask_constants by (simp add: take_bit_eq_mask [symmetric] unsigned_take_bit_eq)
  then show ?thesis using take_bit_nat_less_exp [of 9 "unat x"] by simp
qed

lemma index_bounds:
  "unat (pte_index va) < 512" "unat (pde_index va) < 512" "unat (pdpe_index va) < 512" "unat (pml4e_index va) < 512"
  by (simp_all add: pte_index_def pde_index_def pdpe_index_def pml4e_index_def index_bound)

lemma descend_append:
  "descend m t (p @ q) = Option.bind (descend m t p) (\<lambda>u. descend m u q)"
  by (induction p arbitrary: t) (simp_all add: Let_def)

lemma descend_snoc:
  "descend m t (p @ [i]) =
     Option.bind (descend m t p)
       (\<lambda>u. let e = load64 (entry_addr u i) m in if present e then Some (table_of e) else None)"
  by (simp add: descend_append Let_def cong: if_cong)

section \<open>Page-aligned tables\<close>

definition aligned :: "u64 \<Rightarrow> bool" where
  "aligned v \<longleftrightarrow> 4096 dvd unat (VIRT_TO_PHYS v)"

lemma mask_page: "unat (x AND NOT 0xFFF :: u64) = unat x div 4096 * 4096"
proof -
  have "x AND NOT (mask 12) = push_bit 12 (drop_bit 12 x)"
    by (rule bit_word_eqI) (auto simp: bit_simps)
  moreover have "push_bit 12 (drop_bit 12 x) + take_bit 12 x = x"
    by (rule bits_ident)
  ultimately have "x AND NOT 0xFFF = x - take_bit 12 x"
    unfolding mask_constants by (metis add_diff_cancel_right')
  moreover have t: "unat (take_bit 12 x) = unat x mod 4096"
    by (simp add: unsigned_take_bit_eq take_bit_nat_def)
  moreover have "take_bit 12 x \<le> x"
    by (simp add: word_le_nat_alt t)
  ultimately have "unat (x AND NOT 0xFFF) = unat x - unat x mod 4096" by (simp add: unat_sub)
  then show ?thesis using div_mult_mod_eq [of "unat x" 4096] by linarith
qed

lemma aligned_table_of: "aligned (table_of e)"
  unfolding aligned_def table_of_def phys_virt_inverse mask_page by simp

lemma aligned_dvd: "4096 dvd unat p \<Longrightarrow> p AND NOT 0xFFF = (p :: u64)"
  unfolding word_unat_eq_iff mask_page by simp

lemma frame_offset:
  assumes "aligned t" and "n < 4096"
  shows "frame_of (t + of_nat n) = frame_of t"
proof -
  let ?p = "VIRT_TO_PHYS t"
  obtain c where c: "unat ?p = 4096 * c" using assms(1) by (auto simp: aligned_def)
  moreover have "unat ?p < 2 ^ 64" by (rule unat_lt64)
  ultimately have "c < 2 ^ 52" by simp
  then have "unat (?p + of_nat n) = unat ?p + n"
    using unat_step [of ?p n 1] assms(2) c by simp
  moreover have "VIRT_TO_PHYS (t + of_nat n) = ?p + of_nat n" by (simp add: VIRT_TO_PHYS_def)
  ultimately show ?thesis using assms(2) by (simp add: page_no_def c)
qed

lemma entry_byte:
  assumes "aligned t" and "i < 512" and "in_range (entry_addr t i) 8 a"
  shows "frame_of a = frame_of t"
proof -
  obtain k where k: "k < 8" "a = entry_addr t i + of_nat k" using assms(3) by (rule in_rangeE)
  then have a: "a = t + of_nat (i * 8 + k)" by (simp add: entry_addr_def add.assoc)
  have "i * 8 + k < 4096" using assms(2) k(1) by linarith
  from frame_offset [OF assms(1) this] show ?thesis by (simp only: a)
qed

lemma entry_disjoint:
  assumes "i < 512" and "j < 512" and "i \<noteq> j" and "in_range (entry_addr t i) 8 a"
  shows "\<not> in_range (entry_addr t j) 8 a"
proof
  assume "in_range (entry_addr t j) 8 a"
  then obtain l where l: "l < 8" "a = entry_addr t j + of_nat l" by (rule in_rangeE)
  obtain k where k: "k < 8" "a = entry_addr t i + of_nat k" using assms(4) by (rule in_rangeE)
  have "t + of_nat (i * 8 + k) = t + of_nat (j * 8 + l)"
    using k l by (simp add: entry_addr_def add.assoc)
  then have "(of_nat (i * 8 + k) :: u64) = of_nat (j * 8 + l)" by (simp only: add_left_cancel)
  then have "unat (of_nat (i * 8 + k) :: u64) = unat (of_nat (j * 8 + l) :: u64)" by (simp only:)
  moreover have "i * 8 + k < 2 ^ 64" "j * 8 + l < 2 ^ 64" using assms k l by simp_all
  ultimately have "i * 8 + k = j * 8 + l" by (simp only: unat_of_nat64)
  with k l assms(3) show False by linarith
qed

lemma load_entry_cong:
  assumes "aligned t" and "i < 512" and "\<And>a. frame_of a = frame_of t \<Longrightarrow> m' a = m a"
  shows "load64 (entry_addr t i) m' = load64 (entry_addr t i) m"
  by (rule load_le_cong) (use assms entry_byte in auto)

lemma aligned_frame_inj:
  assumes "aligned t" and "aligned u" and "frame_of t = frame_of u"
  shows "t = u"
proof -
  have "unat (VIRT_TO_PHYS t) = unat (VIRT_TO_PHYS u)"
    using assms by (auto simp: aligned_def page_no_def elim!: dvdE)
  then have "VIRT_TO_PHYS t = VIRT_TO_PHYS u" by (simp add: word_unat_eq_iff)
  then show ?thesis by (metis phys_virt_inverse(1))
qed

lemma load_entry_store:
  assumes "aligned t" and "aligned u" and "i < 512" and "j < 512"
  shows "load64 (entry_addr t i) (store64 (entry_addr u j) v m) =
    (if t = u \<and> i = j then v else load64 (entry_addr t i) m)"
proof (cases "t = u \<and> i = j")
  case False
  have "load64 (entry_addr t i) (store64 (entry_addr u j) v m) = load64 (entry_addr t i) m"
  proof (rule load_le_cong)
    fix x assume x: "in_range (entry_addr t i) 8 x"
    have "\<not> in_range (entry_addr u j) 8 x"
    proof
      assume y: "in_range (entry_addr u j) 8 x"
      have "frame_of t = frame_of u"
        using entry_byte [OF assms(1,3) x] entry_byte [OF assms(2,4) y] by simp
      with aligned_frame_inj [OF assms(1,2)] False have "t = u" "i \<noteq> j" by auto
      with entry_disjoint [OF assms(3,4)] x y show False by blast
    qed
    then show "store64 (entry_addr u j) v m x = m x" by (simp add: store_le_apply)
  qed simp
  then show ?thesis by (simp only: False if_False)
qed simp

section \<open>The tree of tables\<close>

definition short :: "nat list \<Rightarrow> bool" where
  "short p \<longleftrightarrow> List.length p \<le> 3 \<and> (\<forall>i \<in> set p. i < 512)"

definition table_frames :: "mem \<Rightarrow> u64 \<Rightarrow> nat set" where
  "table_frames m root = {frame_of t | t p. short p \<and> descend m root p = Some t}"

definition tree :: "mem \<Rightarrow> u64 \<Rightarrow> bool" where
  "tree m root \<longleftrightarrow> aligned root \<and>
     (\<forall>p q t u. short p \<and> short q \<and> descend m root p = Some t \<and> descend m root q = Some u \<and>
        frame_of t = frame_of u \<longrightarrow> p = q)"

lemma short_snoc [simp]: "short (p @ [i]) \<longleftrightarrow> List.length p < 3 \<and> i < 512 \<and> (\<forall>j \<in> set p. j < 512)"
  by (auto simp: short_def)

lemma shortD: "short (p @ [i]) \<Longrightarrow> short p"
  by (auto simp: short_def)

lemma short_va_path: "short (va_path va)"
  by (simp add: short_def va_path_def index_bounds)

lemma table_framesI: "short p \<Longrightarrow> descend m root p = Some t \<Longrightarrow> frame_of t \<in> table_frames m root"
  by (auto simp: table_frames_def)

lemma descend_aligned: "aligned root \<Longrightarrow> descend m root p = Some t \<Longrightarrow> aligned t"
  by (cases p rule: rev_exhaust)
    (auto simp: descend_snoc bind_eq_Some_conv Let_def aligned_table_of split: if_splits)

lemma treeD:
  "tree m root \<Longrightarrow> short p \<Longrightarrow> short q \<Longrightarrow> descend m root p = Some t \<Longrightarrow> descend m root q = Some u \<Longrightarrow>
   frame_of t = frame_of u \<Longrightarrow> p = q"
  unfolding tree_def by blast

lemma descend_cong:
  assumes "aligned root" and same: "\<And>a. frame_of a \<in> table_frames m root \<Longrightarrow> m' a = m a" and "short p"
  shows "descend m' root p = descend m root p"
  using assms(3)
proof (induction p rule: rev_induct)
  case (snoc i p)
  then have IH: "descend m' root p = descend m root p" using shortD by blast
  show ?case
  proof (cases "descend m root p")
    case None
    then show ?thesis using IH by (simp add: descend_snoc)
  next
    case (Some u)
    have "frame_of u \<in> table_frames m root" using Some snoc.prems shortD table_framesI by blast
    then have "load64 (entry_addr u i) m' = load64 (entry_addr u i) m"
      using descend_aligned [OF assms(1) Some] snoc.prems same by (intro load_entry_cong) auto
    then show ?thesis using IH Some by (simp add: descend_snoc)
  qed
qed simp

lemma tables_cong:
  assumes "tree m root" and "\<And>a. frame_of a \<in> table_frames m root \<Longrightarrow> m' a = m a"
  shows "table_frames m' root = table_frames m root" and "tree m' root"
    and "translate m' root va = translate m root va"
proof -
  have al: "aligned root" using assms(1) by (simp add: tree_def)
  have d: "descend m' root p = descend m root p" if "short p" for p
    by (rule descend_cong [OF al assms(2) that])
  show "table_frames m' root = table_frames m root"
    by (simp add: table_frames_def d cong: conj_cong)
  show "tree m' root" unfolding tree_def
  proof (intro conjI allI impI)
    show "aligned root" by (rule al)
    fix p q t u
    assume "short p \<and> short q \<and> descend m' root p = Some t \<and> descend m' root q = Some u \<and> frame_of t = frame_of u"
    then show "p = q" using treeD [OF assms(1), of p q t u] by (auto simp: d)
  qed
  show "translate m' root va = translate m root va"
  proof (cases "descend m root (va_path va)")
    case None
    then show ?thesis using d [OF short_va_path] by (simp add: translate_def)
  next
    case (Some pt)
    have "frame_of pt \<in> table_frames m root" using Some short_va_path table_framesI by blast
    then have "load64 (entry_addr pt (unat (pte_index va))) m' = load64 (entry_addr pt (unat (pte_index va))) m"
      using descend_aligned [OF al Some] assms(2) index_bounds by (intro load_entry_cong) auto
    then show ?thesis using d [OF short_va_path] Some by (simp add: translate_def)
  qed
qed

text \<open>Hanging a zeroed table below an empty entry.\<close>

definition add_table :: "mem \<Rightarrow> mem \<Rightarrow> u64 \<Rightarrow> u64 \<Rightarrow> u64 \<Rightarrow> nat list \<Rightarrow> nat \<Rightarrow> bool" where
  "add_table m m' root t n p i \<longleftrightarrow>
     tree m root \<and>
     short (p @ [i]) \<and>
     descend m root p = Some t \<and>
     \<not> present (load64 (entry_addr t i) m) \<and>
     present (load64 (entry_addr t i) m') \<and>
     table_of (load64 (entry_addr t i) m') = n \<and>
     frame_of n \<notin> table_frames m root \<and>
     (\<forall>j. j < 512 \<longrightarrow> load64 (entry_addr n j) m' = 0) \<and>
     (\<forall>a. frame_of a \<in> table_frames m root \<longrightarrow> \<not> in_range (entry_addr t i) 8 a \<longrightarrow> m' a = m a)"

lemma add_tableD:
  assumes "add_table m m' root t n p i"
  shows "tree m root"
    "short (p @ [i])"
    "descend m root p = Some t"
    "\<not> present (load64 (entry_addr t i) m)"
    "present (load64 (entry_addr t i) m')"
    "table_of (load64 (entry_addr t i) m') = n"
    "frame_of n \<notin> table_frames m root"
    "\<And>j. j < 512 \<Longrightarrow> load64 (entry_addr n j) m' = 0"
    "\<And>a. frame_of a \<in> table_frames m root \<Longrightarrow> \<not> in_range (entry_addr t i) 8 a \<Longrightarrow> m' a = m a"
  using assms unfolding add_table_def by blast+

lemma add_tableI:
  assumes "tree m root"
    "short (p @ [i])"
    "descend m root p = Some t"
    "\<not> present (load64 (entry_addr t i) m)"
    "present (load64 (entry_addr t i) m')"
    "table_of (load64 (entry_addr t i) m') = n"
    "frame_of n \<notin> table_frames m root"
    "\<And>j. j < 512 \<Longrightarrow> load64 (entry_addr n j) m' = 0"
    "\<And>a. frame_of a \<in> table_frames m root \<Longrightarrow> \<not> in_range (entry_addr t i) 8 a \<Longrightarrow> m' a = m a"
  shows "add_table m m' root t n p i"
  using assms unfolding add_table_def by blast

lemma add_table_root_aligned:
  assumes loc: "add_table m m' root t n p i"
  shows "aligned root"
  using add_tableD(1) [OF loc] by (simp add: tree_def)

lemma add_table_load_other:
  assumes loc: "add_table m m' root t n p i"
    and q: "short q" "descend m root q = Some u" and j: "j < 512" and ne: "\<not> (q = p \<and> j = i)"
  shows "load64 (entry_addr u j) m' = load64 (entry_addr u j) m"
proof (rule load_le_cong)
  note tree = add_tableD(1) [OF loc] and path = add_tableD(2) [OF loc] and at = add_tableD(3) [OF loc]
  fix a assume a: "in_range (entry_addr u j) 8 a"
  have al: "aligned u" "aligned t" using descend_aligned add_table_root_aligned [OF loc] q at by blast+
  have fa: "frame_of a = frame_of u" by (rule entry_byte [OF al(1) j a])
  then have "frame_of a \<in> table_frames m root" using q table_framesI by metis
  moreover have "\<not> in_range (entry_addr t i) 8 a"
  proof
    assume r: "in_range (entry_addr t i) 8 a"
    have i: "i < 512" using path by simp
    have "frame_of t = frame_of u" using entry_byte [OF al(2) i r] fa by simp
    with treeD [OF tree shortD [OF path] q(1) at q(2)] have "p = q" by simp
    with at q(2) ne have "u = t" "j \<noteq> i" by auto
    with entry_disjoint [OF j i] a r show False by auto
  qed
  ultimately show "m' a = m a" by (rule add_tableD(9) [OF loc])
qed simp

lemma add_table_descend_new:
  assumes loc: "add_table m m' root t n p i"
  shows "short q \<Longrightarrow> descend m' root q = (if q = p @ [i] then Some n else descend m root q)"
proof (induction q rule: rev_induct)
  case (snoc j q)
  from snoc.prems have sq: "short q" and j: "j < 512" by (auto simp: short_def)
  note IH = snoc.IH [OF sq]
  show ?case
  proof (cases "q = p @ [i]")
    case True
    then have "descend m root q = None" and "descend m' root q = Some n" and "q \<noteq> p"
      using add_tableD(3,4) [OF loc] IH by (simp_all add: descend_snoc)
    moreover have "\<not> present (0 :: u64)" by (simp add: present_def)
    ultimately show ?thesis by (simp add: descend_snoc add_tableD(8) [OF loc j])
  next
    case False
    show ?thesis
    proof (cases "descend m root q")
      case None
      then have "\<not> (q = p \<and> j = i)" using add_tableD(3) [OF loc] by auto
      then show ?thesis using None IH False by (simp add: descend_snoc)
    next
      case (Some u)
      show ?thesis
      proof (cases "q = p \<and> j = i")
        case True
        then show ?thesis using Some IH False add_tableD(3,5,6) [OF loc] by (simp add: descend_snoc)
      next
        case ne: False
        from add_table_load_other [OF loc sq Some j ne] show ?thesis
          using Some IH False ne by (auto simp: descend_snoc)
      qed
    qed
  qed
qed simp

lemma add_table_frames_new:
  assumes loc: "add_table m m' root t n p i"
  shows "table_frames m' root = insert (frame_of n) (table_frames m root)"
proof (intro equalityI subsetI)
  fix f assume "f \<in> table_frames m' root"
  then obtain q u where "short q" "f = frame_of u" "descend m' root q = Some u"
    by (auto simp: table_frames_def)
  then show "f \<in> insert (frame_of n) (table_frames m root)"
    using table_framesI by (auto simp: add_table_descend_new [OF loc] split: if_splits)
next
  have none: "descend m root (p @ [i]) = None" using add_tableD(3,4) [OF loc] by (simp add: descend_snoc)
  fix f assume "f \<in> insert (frame_of n) (table_frames m root)"
  then consider "f = frame_of n" | q u where "short q" "f = frame_of u" "descend m root q = Some u"
    by (auto simp: table_frames_def)
  then show "f \<in> table_frames m' root"
  proof cases
    case 1
    then show ?thesis using add_table_descend_new [OF loc add_tableD(2) [OF loc]] table_framesI [OF add_tableD(2) [OF loc]] by simp
  next
    case 2
    then have "descend m' root q = Some u" using none by (auto simp: add_table_descend_new [OF loc])
    then show ?thesis using 2 table_framesI by simp
  qed
qed

lemma add_table_tree_new:
  assumes loc: "add_table m m' root t n p i"
  shows "tree m' root"
  unfolding tree_def
proof (intro conjI allI impI)
  fix q r u w
  assume a: "short q \<and> short r \<and> descend m' root q = Some u \<and> descend m' root r = Some w \<and> frame_of u = frame_of w"
  have ne: "frame_of v \<noteq> frame_of n" if "short l" "descend m root l = Some v" for l v
    using that add_tableD(7) [OF loc] table_framesI by metis
  show "q = r"
  proof (cases "q = p @ [i]")
    case True
    then show ?thesis using a ne [of r w] by (auto simp: add_table_descend_new [OF loc] split: if_splits)
  next
    case False
    then have q: "descend m root q = Some u" using a by (auto simp: add_table_descend_new [OF loc])
    then have "r \<noteq> p @ [i]" using a ne [of q u] by (auto simp: add_table_descend_new [OF loc])
    then show ?thesis using a q treeD [OF add_tableD(1) [OF loc], of q r u w] by (auto simp: add_table_descend_new [OF loc])
  qed
qed (rule add_table_root_aligned [OF loc])

lemma add_table_translate_new:
  assumes loc: "add_table m m' root t n p i"
  shows "translate m' root va = translate m root va"
proof (cases "va_path va = p @ [i]")
  case True
  have "descend m root (p @ [i]) = None" using add_tableD(3,4) [OF loc] by (simp add: descend_snoc)
  moreover have "\<not> present (0 :: u64)" by (simp add: present_def)
  ultimately show ?thesis
    using add_table_descend_new [OF loc short_va_path, of va] True add_tableD(8) [OF loc, of "unat (pte_index va)"]
    by (simp add: translate_def index_bounds)
next
  case False
  have "\<not> (va_path va = p \<and> unat (pte_index va) = i)" using add_tableD(2) [OF loc] by (auto simp: va_path_def)
  then show ?thesis
    using add_table_descend_new [OF loc short_va_path, of va] False
      add_table_load_other [OF loc short_va_path, of va _ "unat (pte_index va)"]
    by (auto simp: translate_def index_bounds split: option.splits)
qed

section \<open>Writing a leaf entry\<close>

definition leaf_store :: "mem \<Rightarrow> mem \<Rightarrow> u64 \<Rightarrow> u64 \<Rightarrow> u64 \<Rightarrow> nat list \<Rightarrow> nat \<Rightarrow> bool" where
  "leaf_store m m' root pt e p i \<longleftrightarrow>
     tree m root \<and>
     short p \<and>
     List.length p = 3 \<and>
     i < 512 \<and>
     descend m root p = Some pt \<and>
     m' = store64 (entry_addr pt i) e m"

lemma leaf_storeD:
  assumes "leaf_store m m' root pt e p i"
  shows "tree m root"
    "short p"
    "List.length p = 3"
    "i < 512"
    "descend m root p = Some pt"
    "m' = store64 (entry_addr pt i) e m"
  using assms unfolding leaf_store_def by blast+

lemma leaf_storeI:
  assumes "tree m root"
    "short p"
    "List.length p = 3"
    "i < 512"
    "descend m root p = Some pt"
    "m' = store64 (entry_addr pt i) e m"
  shows "leaf_store m m' root pt e p i"
  using assms unfolding leaf_store_def by blast

lemma leaf_store_root_aligned:
  assumes loc: "leaf_store m m' root pt e p i"
  shows "aligned root"
  using leaf_storeD(1) [OF loc] by (simp add: tree_def)

lemma leaf_store_load_other:
  assumes loc: "leaf_store m m' root pt e p i"
    and q: "short q" "descend m root q = Some u" and j: "j < 512" and ne: "\<not> (q = p \<and> j = i)"
  shows "load64 (entry_addr u j) m' = load64 (entry_addr u j) m"
proof (rule load_le_cong)
  note tree = leaf_storeD(1) [OF loc] and path = leaf_storeD(2) [OF loc] and i = leaf_storeD(4) [OF loc]
    and at = leaf_storeD(5) [OF loc] and m' = leaf_storeD(6) [OF loc]
  fix a assume a: "in_range (entry_addr u j) 8 a"
  have al: "aligned u" "aligned pt" using descend_aligned leaf_store_root_aligned [OF loc] q at by blast+
  have "\<not> in_range (entry_addr pt i) 8 a"
  proof
    assume r: "in_range (entry_addr pt i) 8 a"
    have "frame_of pt = frame_of u" using entry_byte [OF al(2) i r] entry_byte [OF al(1) j a] by simp
    with treeD [OF tree path(1) q(1) at q(2)] have "p = q" by simp
    with at q(2) ne have "u = pt" "j \<noteq> i" by auto
    with entry_disjoint [OF j i] a r show False by auto
  qed
  then show "m' a = m a" by (simp add: m' store_le_apply)
qed simp

lemma leaf_store_descend_same:
  assumes loc: "leaf_store m m' root pt e p i"
  shows "short q \<Longrightarrow> descend m' root q = descend m root q"
proof (induction q rule: rev_induct)
  case (snoc j q)
  then have sq: "short q" and j: "j < 512" and ne: "q \<noteq> p" using leaf_storeD(3) [OF loc] by (auto simp: short_def)
  note IH = snoc.IH [OF sq]
  show ?case
  proof (cases "descend m root q")
    case (Some u)
    have "load64 (entry_addr u j) m' = load64 (entry_addr u j) m"
      by (rule leaf_store_load_other [OF loc sq Some j]) (use ne in blast)
    then show ?thesis using Some IH by (simp add: descend_snoc)
  qed (simp add: IH descend_snoc)
qed simp

lemma leaf_store_frames_same:
  assumes loc: "leaf_store m m' root pt e p i"
  shows "table_frames m' root = table_frames m root"
  by (simp add: table_frames_def leaf_store_descend_same [OF loc] cong: conj_cong)

lemma leaf_store_tree_same:
  assumes loc: "leaf_store m m' root pt e p i"
  shows "tree m' root"
  unfolding tree_def
proof (intro conjI allI impI)
  fix q r u w
  assume "short q \<and> short r \<and> descend m' root q = Some u \<and> descend m' root r = Some w \<and> frame_of u = frame_of w"
  then show "q = r" using treeD [OF leaf_storeD(1) [OF loc], of q r u w] by (auto simp: leaf_store_descend_same [OF loc])
qed (rule leaf_store_root_aligned [OF loc])

lemma leaf_store_translate_here:
  assumes loc: "leaf_store m m' root pt e p i"
    and "va_path va = p" and "unat (pte_index va) = i"
  shows "translate m' root va = (if present e then Some e else None)"
  using assms(2,3) leaf_storeD(5) [OF loc] leaf_store_descend_same [OF loc short_va_path, of va] by (simp add: translate_def leaf_storeD(6) [OF loc])

lemma leaf_store_translate_other:
  assumes loc: "leaf_store m m' root pt e p i"
    and "\<not> (va_path va = p \<and> unat (pte_index va) = i)"
  shows "translate m' root va = translate m root va"
proof (cases "descend m root (va_path va)")
  case (Some u)
  from leaf_store_load_other [OF loc short_va_path Some index_bounds(1) assms(2)] show ?thesis
    using Some leaf_store_descend_same [OF loc short_va_path] by (simp add: translate_def)
qed (simp add: translate_def leaf_store_descend_same [OF loc short_va_path])

section \<open>Pages\<close>

lemma entry_addr_index: "entry_addr t (unat i) = t + i * 8"
  by (simp add: entry_addr_def)

definition same_page :: "u64 \<Rightarrow> u64 \<Rightarrow> bool" where
  "same_page va va' \<longleftrightarrow> va_path va = va_path va' \<and> pte_index va = pte_index va'"

definition vpn :: "u64 \<Rightarrow> nat" where
  "vpn va = unat va div 4096 mod 2 ^ 36"

lemma index_nat: "unat (drop_bit k va AND 0x1FF :: u64) = unat va div 2 ^ k mod 512"
  unfolding mask_constants
  by (simp add: take_bit_eq_mask [symmetric] unsigned_take_bit_eq unsigned_drop_bit_eq take_bit_nat_def)
    (use unat_lt64 [of va] in \<open>simp add: drop_bit_eq_div\<close>)

lemma vpn_indices:
  "vpn va = unat (pte_index va) + 512 * (unat (pde_index va) + 512 * (unat (pdpe_index va) + 512 * unat (pml4e_index va)))"
proof -
  define n where "n = unat va div 4096"
  have i: "unat (pte_index va) = n mod 512" "unat (pde_index va) = n div 512 mod 512"
    "unat (pdpe_index va) = n div 512 div 512 mod 512" "unat (pml4e_index va) = n div 512 div 512 div 512 mod 512"
    unfolding pte_index_def pde_index_def pdpe_index_def pml4e_index_def index_nat n_def
    by (simp_all add: div_mult2_eq [symmetric])
  have "n mod (512 * (512 * (512 * 512))) = n mod 512 + 512 * (n div 512 mod (512 * (512 * 512)))"
    by (simp only: mod_mult2_eq add.commute)
  also have "n div 512 mod (512 * (512 * 512)) = n div 512 mod 512 + 512 * (n div 512 div 512 mod (512 * 512))"
    by (simp only: mod_mult2_eq add.commute)
  also have "n div 512 div 512 mod (512 * 512) = n div 512 div 512 mod 512 + 512 * (n div 512 div 512 div 512 mod 512)"
    by (simp only: mod_mult2_eq add.commute)
  finally show ?thesis by (simp add: vpn_def i n_def [symmetric])
qed

lemma vpn_digits:
  "unat (pte_index va) = vpn va mod 512" "unat (pde_index va) = vpn va div 512 mod 512"
  "unat (pdpe_index va) = vpn va div 512 div 512 mod 512"
  "unat (pml4e_index va) = vpn va div 512 div 512 div 512"
proof -
  have d: "(a + 512 * b) mod 512 = a" "(a + 512 * b) div 512 = b" if "a < 512" for a b :: nat
    using that by simp_all
  show "unat (pte_index va) = vpn va mod 512" "unat (pde_index va) = vpn va div 512 mod 512"
    "unat (pdpe_index va) = vpn va div 512 div 512 mod 512"
    "unat (pml4e_index va) = vpn va div 512 div 512 div 512"
    unfolding vpn_indices by (simp_all only: d index_bounds mod_less)
qed

lemma va_path_vpn:
  "va_path va = [vpn va div 512 div 512 div 512, vpn va div 512 div 512 mod 512, vpn va div 512 mod 512]"
  by (simp only: va_path_def vpn_digits)

lemma same_page_vpn: "same_page va va' \<longleftrightarrow> vpn va = vpn va'"
proof
  assume "vpn va = vpn va'"
  then show "same_page va va'" by (simp add: same_page_def va_path_vpn word_unat_eq_iff vpn_digits)
qed (simp add: same_page_def va_path_def vpn_indices)

lemma vpn_step: "vpn (va + of_nat k * 4096) = (vpn va + k) mod 2 ^ 36"
proof -
  have "va + of_nat k * 4096 = of_nat (unat va + k * 4096)" by simp
  then have u: "unat (va + of_nat k * 4096) = (unat va + k * 4096) mod 2 ^ 64"
    by (simp only: unat_of_nat) simp
  have "N mod 2 ^ 64 div 4096 mod 2 ^ 36 = N div 4096 mod 2 ^ 36" for N :: nat
  proof -
    have "N mod (4096 * 2 ^ 52) = 4096 * (N div 4096 mod 2 ^ 52) + N mod 4096" by (rule mod_mult2_eq)
    then have "N mod 2 ^ 64 div 4096 = N div 4096 mod 2 ^ 52" by simp
    moreover have "M mod 2 ^ 52 mod 2 ^ 36 = M mod 2 ^ 36" for M :: nat
      by (rule mod_mod_cancel) (simp add: le_imp_power_dvd)
    ultimately show ?thesis by simp
  qed
  then have "vpn (va + of_nat k * 4096) = (unat va div 4096 + k) mod 2 ^ 36"
    by (simp add: vpn_def u add.commute)
  then show ?thesis by (simp add: vpn_def mod_add_left_eq)
qed

lemma pages_distinct:
  assumes "i < 2 ^ 36" and "j < 2 ^ 36" and "i \<noteq> j"
  shows "\<not> same_page (va + of_nat i * 4096) (va + of_nat j * 4096)"
proof -
  have le: "i = j" if "(x + i) mod m = (x + j) mod m" "i < m" "j < m" "i \<le> j" for x m i j :: nat
  proof -
    have "m dvd (x + j) - (x + i)"
      using that(1,4) by (subst mod_eq_dvd_iff_nat [symmetric]) simp_all
    then have "m dvd j - i" by simp
    with that show ?thesis using dvd_imp_le [of m "j - i"] by force
  qed
  show ?thesis
  proof
    assume "same_page (va + of_nat i * 4096) (va + of_nat j * 4096)"
    then have "(vpn va + i) mod 2 ^ 36 = (vpn va + j) mod 2 ^ 36" by (simp only: same_page_vpn vpn_step)
    with le [of "vpn va" i "2 ^ 36" j] le [of "vpn va" j "2 ^ 36" i] assms show False
      by (cases "i \<le> j") simp_all
  qed
qed

end
