(* ===== verification/Address_Space.thy ===== *)
theory Address_Space
  imports Page_Walk
begin

text \<open>
  Address spaces: the invariant of one, and that mapping a page updates its translation.
\<close>

section \<open>A well-formed address space\<close>

definition as_frames :: "u64 \<Rightarrow> nat set" where
  "as_frames as = (if as = 0 then {} else {frame_of as})"

definition list_ok :: "u64 \<Rightarrow> kstate \<Rightarrow> bool" where
  "list_ok as s \<longleftrightarrow> alloc_ok s \<and> vec_ok 8 (as_list as s) s \<and> (as \<noteq> 0 \<longrightarrow> aligned as) \<and>
     as_frames as \<inter> (avail s \<union> bitmap_frames s \<union> vec_frames (as_list as s)) = {}"

text \<open>Everything that mapping may write apart from the tables.\<close>

definition busy_frames :: "u64 \<Rightarrow> kstate \<Rightarrow> nat set" where
  "busy_frames as s = avail s \<union> bitmap_frames s \<union> vec_frames (as_list as s) \<union> as_frames as"

definition as_len :: "u64 \<Rightarrow> kstate \<Rightarrow> nat" where
  "as_len as s = unat (vlength (as_list as s))"

text \<open>The paths that lead to a table below the root: their number bounds the list's length.\<close>

definition table_paths :: "mem \<Rightarrow> u64 \<Rightarrow> nat list set" where
  "table_paths m root = {q. short q \<and> q \<noteq> [] \<and> descend m root q \<noteq> None}"

definition as_ok :: "u64 \<Rightarrow> kstate \<Rightarrow> bool" where
  "as_ok as s \<longleftrightarrow> list_ok as s \<and> tree (ram s) (as_pml4 as s) \<and>
     table_frames (ram s) (as_pml4 as s) \<inter> busy_frames as s = {} \<and>
     as_len as s \<le> card (table_paths (ram s) (as_pml4 as s))"

definition as_tables :: "u64 \<Rightarrow> kstate \<Rightarrow> u64 list" where
  "as_tables as s = vec_elems 8 (\<lambda>a m. load64 a m) (as_list as s) (ram s)"

lemma struct_byte:
  assumes "aligned as" and "in_range (as + of_nat i) k a" and "i + k \<le> 4096"
  shows "frame_of a = frame_of as"
proof -
  obtain j where j: "j < k" "a = as + of_nat i + of_nat j" using assms(2) by (rule in_rangeE)
  then have a: "a = as + of_nat (i + j)" and l: "i + j < 4096" using assms(3) by (simp_all add: add.assoc)
  show ?thesis unfolding a by (rule frame_offset [OF assms(1) l])
qed

lemma struct_load_cong:
  assumes "aligned as" and "\<And>a. frame_of a = frame_of as \<Longrightarrow> m' a = m a" and "i + 8 \<le> 4096"
  shows "load64 (as + of_nat i) m' = load64 (as + of_nat i) m"
  by (rule load_le_cong) (use assms struct_byte in auto)

lemma struct_cong:
  assumes "as \<noteq> 0 \<longrightarrow> aligned as" and "\<And>a. frame_of a \<in> as_frames as \<Longrightarrow> ram s' a = ram s a"
    and "kernel_addr_space s' = kernel_addr_space s"
  shows "as_list as s' = as_list as s" and "as_pml4 as s' = as_pml4 as s"
proof -
  have "load64 (as + of_nat i) (ram s') = load64 (as + of_nat i) (ram s)" if "as \<noteq> 0" "i + 8 \<le> 4096" for i
    by (rule struct_load_cong) (use that assms in \<open>auto simp: as_frames_def\<close>)
  from this [of 0] this [of 8] this [of 16] this [of 24]
  show "as_list as s' = as_list as s" "as_pml4 as s' = as_pml4 as s"
    using assms(3) by (auto simp: as_list_def as_pml4_def)
qed

lemma store_vec_load:
  "load64 a (store_vec a v m) = vlength v" "load64 (a + 8) (store_vec a v m) = vcapacity v"
  "load64 (a + 16) (store_vec a v m) = vdata v"
  by (simp_all add: store_vec_def load_store_disjoint disjoint_ranges_def)

lemma store_vec_outside: "\<not> in_range a 24 x \<Longrightarrow> store_vec a v m x = m x"
proof -
  assume r: "\<not> in_range a 24 x"
  have "\<not> in_range (a + of_nat i) 8 x" if "i + 8 \<le> 24" for i
    using r that in_range_part [of a i 8 x 24] by auto
  from this [of 0] this [of 8] this [of 16] show ?thesis
    by (simp add: store_vec_def store_le_apply)
qed

text \<open>Storing the list header touches the structure only.\<close>

lemma set_as_list:
  assumes "as \<noteq> 0 \<longrightarrow> aligned as"
  shows "as_list as (set_as_list as v s) = v" "as_pml4 as (set_as_list as v s) = as_pml4 as s"
    "only_changes (as_frames as) s (set_as_list as v s)"
proof -
  show "as_list as (set_as_list as v s) = v"
    using store_vec_load [of "as + 8" v "ram s"] by (simp add: as_list_def set_as_list_def add.assoc)
  have far: "\<not> in_range (as + 8) 24 a" if "frame_of a \<notin> as_frames as" "as \<noteq> 0" for a
    using that assms struct_byte [of as 8 24 a] by (auto simp: as_frames_def)
  show "as_pml4 as (set_as_list as v s) = as_pml4 as s"
  proof (cases "as = 0")
    case False
    have "load64 as (store_vec (as + 8) v (ram s)) = load64 as (ram s)"
    proof (rule load_le_cong)
      fix x assume x: "in_range as 8 x"
      have "disjoint_ranges as 8 (as + 8) 24" by (simp add: disjoint_ranges_def)
      from disjoint_rangesD [OF this x] show "store_vec (as + 8) v (ram s) x = ram s x"
        by (rule store_vec_outside)
    qed simp
    with False show ?thesis by (simp add: as_pml4_def set_as_list_def)
  qed (simp add: as_pml4_def set_as_list_def)
  show "only_changes (as_frames as) s (set_as_list as v s)"
    using far store_vec_outside [of "as + 8"]
    by (auto simp: only_changes_def same_layout_def set_as_list_def)
qed

lemma vec_ok_only_changes:
  assumes "vec_ok es v s" and "only_changes F s s'" and "vec_frames v \<inter> F = {}"
    and "vec_frames v \<inter> avail s' = {}"
  shows "vec_ok es v s'"
proof (cases "vdata v = 0")
  case False
  then have "heap_block (vdata v) (vcapacity v) s" and F: "vec_frames v = block_frames (vdata v) (vcapacity v)"
    using assms(1) by (simp_all add: vec_ok_def opt_block_def vec_frames_def opt_frames_def)
  from heap_block_only_changes [OF this(1) assms(2)] assms(3,4) F False assms(1)
  show ?thesis by (simp add: vec_ok_def opt_block_def)
qed (use assms(1) in \<open>auto simp: vec_ok_def opt_block_def\<close>)

context elem_codec
begin

lemma elems_only_changes:
  assumes "vec_ok es v s" and "only_changes F s s'" and "vec_frames v \<inter> F = {}"
  shows "vec_elems es ld v (ram s') = vec_elems es ld v (ram s)"
proof (rule vec_elems_cong)
  fix i assume i: "i < unat (vlength v) * unat es"
  with assms(1) have i: "i < unat (vcapacity v)" by (simp add: vec_ok_def)
  have nz: "vdata v \<noteq> 0" using assms(1) i by (auto simp: vec_ok_def opt_block_def)
  then have blk: "heap_block (vdata v) (vcapacity v) s" and F: "vec_frames v = block_frames (vdata v) (vcapacity v)"
    using assms(1) by (simp_all add: vec_ok_def opt_block_def vec_frames_def opt_frames_def)
  have "i < 2 ^ 64" using i unat_lt64 [of "vcapacity v"] by simp
  then have "in_range (vdata v) (unat (vcapacity v)) (vdata v + of_nat i)" using i by simp
  from payload_frame [OF blk this] show "ram s' (vdata v + of_nat i) = ram s (vdata v + of_nat i)"
    using assms(2,3) F by (auto simp: only_changes_def)
qed simp

end

section \<open>The other globals\<close>

definition same_globals :: "kstate \<Rightarrow> kstate \<Rightarrow> bool" where
  "same_globals s s' \<longleftrightarrow> kernel_addr_space s' = kernel_addr_space s \<and> global_mem_map s' = global_mem_map s \<and>
     cr3 s' = cr3 s \<and> invlpg_log s' = invlpg_log s \<and> kmalloc_checkno s' = kmalloc_checkno s"

lemma same_globals_refl [simp]: "same_globals s s"
  by (simp add: same_globals_def)

lemma same_globals_trans: "same_globals s t \<Longrightarrow> same_globals t u \<Longrightarrow> same_globals s u"
  by (simp add: same_globals_def)

lemma same_globals_upd [simp]: "same_globals s (t\<lparr>ram := m\<rparr>) = same_globals s t"
  "same_globals s (t\<lparr>kmem := k\<rparr>) = same_globals s t"
  "same_globals (t\<lparr>ram := m\<rparr>) s = same_globals t s"
  by (simp_all add: same_globals_def)

lemma bitmap_set_globals: "bitmap_set a n s = Some s' \<Longrightarrow> same_globals s s'"
  unfolding bitmap_set_def
  by (erule for_range_invariant) (auto simp: clear_page_def)

lemma pm_free_globals: "pm_free a n s = Some (st, s') \<Longrightarrow> same_globals s s'"
proof -
  assume ret: "pm_free a n s = Some (st, s')"
  have "(\<lambda>rt. same_globals s (snd rt)) (st, s')"
    by (rule for_range_invariant [OF ret [unfolded pm_free_def]])
      (auto simp: bind_eq_Some_conv Let_def set_page_def split: if_splits)
  then show ?thesis by simp
qed

lemma pm_allocate_globals: "pm_allocate a n s = Some (st, s') \<Longrightarrow> same_globals s s'"
  by (auto simp: pm_allocate_def bind_eq_Some_conv dest: bitmap_set_globals split: if_splits)

lemma pm_get_globals: "pm_get n a s = Some (p, s') \<Longrightarrow> same_globals s s'"
proof -
  assume "pm_get n a s = Some (p, s')"
  then obtain r where ret: "for_return a (physical_limit (kmem s)) 4096 (try_page n) s = Some (r, s')"
    by (auto simp: pm_get_unfold bind_eq_Some_conv split: option.splits)
  show ?thesis
    by (rule for_return_invariant [OF ret])
      (auto simp: try_page_def bind_eq_Some_conv dest: pm_allocate_globals same_globals_trans)
qed

lemma kmalloc_globals: "kmalloc_impl n f l s = Some (v, s') \<Longrightarrow> same_globals s s'"
  by (auto simp: kmalloc_unfold dest: pm_get_globals)

lemma kfree_globals: "kfree_impl v s = Some s' \<Longrightarrow> same_globals s s'"
  by (auto simp: kfree_impl_def Let_def bind_eq_Some_conv dest: pm_free_globals split: if_splits)

lemma krealloc_globals: "krealloc_impl v n f l s = Some (w, s') \<Longrightarrow> same_globals s s'"
  by (auto simp: krealloc_impl_def Let_def bind_eq_Some_conv
      dest!: kmalloc_globals kfree_globals intro: same_globals_trans split: if_splits)

lemma vector_append_globals: "vector_append es st f l v e s = Some (v', s') \<Longrightarrow> same_globals s s'"
  by (auto simp: vector_append_def Let_def bind_eq_Some_conv dest!: krealloc_globals split: if_splits)

section \<open>Appending to the table list\<close>

lemma list_append_spec:
  assumes ok: "list_ok as s" and len: "unat (vlength (as_list as s)) < 2 ^ 40"
    and ret: "as_list_append as func line e s = Some s'"
  shows "list_ok as s'" "as_tables as s' = as_tables as s @ [e]" "as_pml4 as s' = as_pml4 as s"
    "vec_frames (as_list as s') \<subseteq> avail s \<union> vec_frames (as_list as s)"
    "avail s' = (avail s \<union> vec_frames (as_list as s)) - vec_frames (as_list as s')"
    "only_changes (busy_frames as s) s s'"
    "unat (vlength (as_list as s')) = unat (vlength (as_list as s)) + 1"
    "cr3 s' = cr3 s" "global_mem_map s' = global_mem_map s" "invlpg_log s' = invlpg_log s"
    "as \<noteq> 0 \<Longrightarrow> kernel_addr_space s' = kernel_addr_space s"
proof -
  let ?v = "as_list as s"
  obtain v' t where app: "vector_append 8 (\<lambda>a v m. store64 a v m) func line ?v e s = Some (v', t)"
    and s': "s' = set_as_list as v' t"
    using ret by (auto simp: as_list_append_def bind_eq_Some_conv)
  have al: "alloc_ok s" and vok: "vec_ok 8 ?v s" and sa: "as \<noteq> 0 \<longrightarrow> aligned as"
    and dis: "as_frames as \<inter> (avail s \<union> bitmap_frames s \<union> vec_frames ?v) = {}"
    using ok by (simp_all add: list_ok_def)
  have bound: "(unat (vlength ?v) + 1) * unat (8 :: u64) * 4 \<le> 2 ^ 47" using len by simp
  note a = u64_vec.append_spec [OF al vok bound app]
  note g = vector_append_globals [OF app]
  have lay: "same_layout s t" using a(6) by (simp add: only_changes_def)
  have at: "as_pml4 as t = as_pml4 as s"
  proof (rule struct_cong(2) [OF sa])
    show "kernel_addr_space t = kernel_addr_space s" using g by (simp add: same_globals_def)
    fix x assume "frame_of x \<in> as_frames as"
    with dis a(4) have "frame_of x \<notin> bitmap_frames s \<union> vec_frames ?v \<union> vec_frames v'" by blast
    with a(6) show "ram t x = ram s x" by (simp add: only_changes_def)
  qed
  note sl = set_as_list [OF sa, where v = v' and s = t, folded s']
  have lay': "same_layout t s'" using sl(3) by (simp add: only_changes_def)
  have "as_frames as \<inter> bitmap_frames t = {}" using dis by (auto simp: layout_simps [OF lay])
  note av = avail_only_changes [OF sl(3) this]
  have vdis: "vec_frames v' \<inter> as_frames as = {}" using a(4) dis by blast
  have vav: "vec_frames v' \<inter> avail t = {}" using a(5) by blast
  show "as_pml4 as s' = as_pml4 as s" using sl(2) at by simp
  show "vec_frames (as_list as s') \<subseteq> avail s \<union> vec_frames ?v" using a(4) sl(1) by simp
  show avs: "avail s' = (avail s \<union> vec_frames ?v) - vec_frames (as_list as s')" using a(5) av(1) sl(1) by simp
  have "vec_ok 8 v' s'" by (rule vec_ok_only_changes [OF a(1) sl(3) vdis]) (use vav av(1) in simp)
  then show "list_ok as s'"
    using av a(2) sa dis a(4) avs
    by (auto simp: list_ok_def sl(1) layout_simps [OF lay'] layout_simps [OF lay])
  have "only_changes ((bitmap_frames s \<union> vec_frames ?v \<union> vec_frames v') \<union> as_frames as) s s'"
    by (rule only_changes_trans [OF a(6) sl(3)])
  then show "only_changes (busy_frames as s) s s'"
    by (rule only_changes_mono) (use a(4) in \<open>auto simp: busy_frames_def\<close>)
  have el: "vec_elems 8 (\<lambda>a m. load64 a m) v' (ram s') = vec_elems 8 (\<lambda>a m. load64 a m) v' (ram t)"
    by (rule u64_vec.elems_only_changes [OF a(1) sl(3) vdis])
  then show tb: "as_tables as s' = as_tables as s @ [e]" using a(3) by (simp add: as_tables_def sl(1))
  from arg_cong [OF tb, of List.length]
  show "unat (vlength (as_list as s')) = unat (vlength ?v) + 1" by (simp add: as_tables_def)
  show "cr3 s' = cr3 s" "global_mem_map s' = global_mem_map s" "invlpg_log s' = invlpg_log s"
    using g by (simp_all add: s' set_as_list_def same_globals_def)
  show "as \<noteq> 0 \<Longrightarrow> kernel_addr_space s' = kernel_addr_space s"
    using g by (simp add: s' set_as_list_def same_globals_def)
qed

section \<open>One level of map_page_entry\<close>

lemma table_entry:
  assumes "4096 dvd unat b"
  shows "present (MAKE_TABLE_ENTRY b 7)" and "table_of (MAKE_TABLE_ENTRY b 7) = PHYS_TO_VIRT b"
proof -
  have c: "(7 :: u64) = mask 3" by (simp add: mask_eq_exp_minus_1)
  have "((b AND NOT (mask 12)) OR mask 3) AND NOT (mask 12) = b AND NOT (mask 12)"
    by (rule bit_word_eqI) (auto simp: bit_simps)
  then show "table_of (MAKE_TABLE_ENTRY b 7) = PHYS_TO_VIRT b"
    unfolding table_of_def MAKE_TABLE_ENTRY_def c mask_constants
    using aligned_dvd [OF assms, unfolded mask_constants] by simp
  show "present (MAKE_TABLE_ENTRY b 7)"
    unfolding present_def MAKE_TABLE_ENTRY_def c by (simp add: bit_simps)
qed

lemma pm_get_frames:
  assumes "4096 dvd unat b" and "fits b n" and "0 < unat n"
  shows "frame_of (PHYS_TO_VIRT b) \<in> run b n" and "aligned (PHYS_TO_VIRT b)"
  using assms by (simp_all add: aligned_def run_def)

definition frames_of_as :: "u64 \<Rightarrow> kstate \<Rightarrow> nat set" where
  "frames_of_as as s = busy_frames as s \<union> table_frames (ram s) (as_pml4 as s)"

text \<open>The pages the allocator and the table list share among themselves.\<close>

definition pool :: "u64 \<Rightarrow> kstate \<Rightarrow> nat set" where
  "pool as s = avail s \<union> vec_frames (as_list as s)"

definition mapping_step :: "u64 \<Rightarrow> kstate \<Rightarrow> kstate \<Rightarrow> bool" where
  "mapping_step as s s' \<longleftrightarrow> as_ok as s' \<and> as_pml4 as s' = as_pml4 as s \<and>
     frames_of_as as s' \<subseteq> frames_of_as as s \<and> only_changes (frames_of_as as s) s s' \<and>
     pool as s' \<subseteq> pool as s \<and> cr3 s' = cr3 s \<and> global_mem_map s' = global_mem_map s \<and>
     (as \<noteq> 0 \<longrightarrow> kernel_addr_space s' = kernel_addr_space s)"

lemma mapping_stepD:
  assumes "mapping_step as s s'"
  shows "as_ok as s'" "as_pml4 as s' = as_pml4 as s" "frames_of_as as s' \<subseteq> frames_of_as as s"
    "only_changes (frames_of_as as s) s s'" "pool as s' \<subseteq> pool as s"
    "cr3 s' = cr3 s" "global_mem_map s' = global_mem_map s"
    "as \<noteq> 0 \<Longrightarrow> kernel_addr_space s' = kernel_addr_space s"
  using assms by (simp_all add: mapping_step_def)

lemma mapping_step_refl: "as_ok as s \<Longrightarrow> mapping_step as s s"
  by (simp add: mapping_step_def)

lemma mapping_step_trans:
  assumes "mapping_step as s t" and "mapping_step as t u"
  shows "mapping_step as s u"
proof -
  note st = mapping_stepD [OF assms(1)] and tu = mapping_stepD [OF assms(2)]
  have "only_changes (frames_of_as as s \<union> frames_of_as as t) s u"
    by (rule only_changes_trans [OF st(4) tu(4)])
  then have "only_changes (frames_of_as as s) s u"
    by (rule only_changes_mono) (use st(3) in blast)
  then show ?thesis using st tu by (auto simp: mapping_step_def)
qed

lemma vec_frames_private:
  "vec_ok es v s \<Longrightarrow> vec_frames v \<inter> (avail s \<union> bitmap_frames s) = {}"
  by (auto simp: vec_ok_def vec_frames_def opt_block_def opt_frames_def heap_block_def avail_def)

lemma disjoint_subset2: "B \<subseteq> C \<Longrightarrow> A \<inter> C = {} \<Longrightarrow> A \<inter> B = {}"
  by blast

lemma as_okD:
  assumes "as_ok as s"
  shows "list_ok as s" "tree (ram s) (as_pml4 as s)"
    "table_frames (ram s) (as_pml4 as s) \<inter> busy_frames as s = {}"
    "as_len as s \<le> card (table_paths (ram s) (as_pml4 as s))"
  using assms by (simp_all add: as_ok_def)

lemma list_okD:
  assumes "list_ok as s"
  shows "alloc_ok s" "vec_ok 8 (as_list as s) s" "as \<noteq> 0 \<longrightarrow> aligned as"
    "as_frames as \<inter> (avail s \<union> bitmap_frames s \<union> vec_frames (as_list as s)) = {}"
  using assms by (simp_all add: list_ok_def)

text \<open>The paths of existing tables.\<close>

lemma finite_short: "finite {q. short q}" and card_short: "card {q. short q} < 2 ^ 40"
proof -
  have eq: "{q. short q} = {xs. set xs \<subseteq> {..<512} \<and> List.length xs \<le> 3}" by (auto simp: short_def)
  show "finite {q. short q}" unfolding eq by (rule finite_lists_length_le) simp
  have "card {q. short q} = (\<Sum>i\<le>3. 512 ^ i)" unfolding eq by (simp add: card_lists_length_le)
  also have "\<dots> < 2 ^ 40" by (simp add: numeral_3_eq_3)
  finally show "card {q. short q} < 2 ^ 40" .
qed

lemma table_paths_short: "table_paths m root \<subseteq> {q. short q}"
  by (auto simp: table_paths_def)

lemma finite_table_paths [simp]: "finite (table_paths m root)"
  by (rule finite_subset [OF table_paths_short finite_short])

lemma table_paths_bound: "card (table_paths m root) < 2 ^ 40"
  using card_mono [OF finite_short table_paths_short [of m root]] card_short by simp

lemma as_len_bound: "as_ok as s \<Longrightarrow> as_len as s < 2 ^ 40"
  using as_okD(4) [of as s] table_paths_bound [of "ram s" "as_pml4 as s"] by simp

lemma table_paths_cong:
  assumes "tree m root" and "\<And>a. frame_of a \<in> table_frames m root \<Longrightarrow> m' a = m a"
  shows "table_paths m' root = table_paths m root"
proof -
  have "aligned root" using assms(1) by (simp add: tree_def)
  from descend_cong [where m' = m', OF this assms(2)] show ?thesis
    by (simp add: table_paths_def cong: conj_cong)
qed

lemma translate_cong:
  assumes "tree m root" and "\<And>a. frame_of a \<in> table_frames m root \<Longrightarrow> m' a = m a"
  shows "translate m' root = translate m root"
  by (rule ext) (rule tables_cong(3) [OF assms])

lemma add_table_paths:
  assumes "add_table m m' root t n p i"
  shows "table_paths m' root = insert (p @ [i]) (table_paths m root)" and "p @ [i] \<notin> table_paths m root"
proof -
  show "table_paths m' root = insert (p @ [i]) (table_paths m root)"
    using add_tableD(2) [OF assms] by (auto simp: table_paths_def add_table_descend_new [OF assms])
  show "p @ [i] \<notin> table_paths m root"
    using add_tableD(3,4) [OF assms] by (simp add: table_paths_def descend_snoc)
qed

lemma leaf_store_paths:
  "leaf_store m m' root pt e p i \<Longrightarrow> table_paths m' root = table_paths m root"
  by (simp add: table_paths_def leaf_store_descend_same cong: conj_cong)

text \<open>A table is appended to the list of the address space: nothing of its tables changes.\<close>

lemma append_to_space:
  assumes ok: "list_ok as s" "tree (ram s) (as_pml4 as s)"
      "table_frames (ram s) (as_pml4 as s) \<inter> busy_frames as s = {}"
    and len: "as_len as s < card (table_paths (ram s) (as_pml4 as s))"
    and ret: "as_list_append as func line e s = Some s'"
  shows "mapping_step as s s'" "\<And>x. frame_of x \<in> table_frames (ram s) (as_pml4 as s) \<Longrightarrow> ram s' x = ram s x"
proof -
  let ?root = "as_pml4 as s"
  have "unat (vlength (as_list as s)) < 2 ^ 40"
    using len table_paths_bound [of "ram s" ?root] by (simp add: as_len_def)
  note a = list_append_spec [OF ok(1) this ret]
  have lay: "same_layout s s'" using a(6) by (simp add: only_changes_def)
  show same: "ram s' x = ram s x" if "frame_of x \<in> table_frames (ram s) ?root" for x
    using that a(6) ok(3) by (auto simp: only_changes_def)
  note tc = tables_cong [where m' = "ram s'", OF ok(2) same]
  have paths: "table_paths (ram s') ?root = table_paths (ram s) ?root"
    by (rule table_paths_cong [OF ok(2) same])
  have busy: "busy_frames as s' \<subseteq> busy_frames as s"
    using a(4,5) by (auto simp: busy_frames_def layout_simps [OF lay])
  have "as_ok as s'"
    using a(1,7) tc(1,2) len disjoint_subset2 [OF busy ok(3)]
    by (simp add: as_ok_def a(3) paths as_len_def)
  moreover have "frames_of_as as s' \<subseteq> frames_of_as as s"
    using busy tc(1) by (auto simp: frames_of_as_def a(3))
  moreover have "only_changes (frames_of_as as s) s s'"
    by (rule only_changes_mono [OF a(6)]) (simp add: frames_of_as_def)
  moreover have "pool as s' \<subseteq> pool as s" using a(4,5) by (auto simp: pool_def)
  ultimately show "mapping_step as s s'" using a(3,8,9,11) by (simp add: mapping_step_def)
qed

text \<open>A new table at \<open>b\<close> is cleared and linked into the entry at \<open>ea\<close>.\<close>

definition link_table :: "u64 \<Rightarrow> u64 \<Rightarrow> kstate \<Rightarrow> kstate" where
  "link_table ea b s =
     s\<lparr>ram := store64 ea (MAKE_TABLE_ENTRY b 7) (memset (PHYS_TO_VIRT b) 0 32768 (ram s))\<rparr>"

lemma next_table_absent:
  assumes "\<not> present (load64 ea (ram s))"
  shows "next_table as func line ea s = Some (t', s') \<longleftrightarrow>
    (\<exists>b s1. pm_get 8 0 s = Some (b, s1) \<and> b \<noteq> 0 \<and> t' = PHYS_TO_VIRT b \<and>
       as_list_append as func line b (link_table ea b s1) = Some s')"
  using assms
  by (auto simp: next_table_def not_present_iff bind_eq_Some_conv Let_def link_table_def split: if_splits)

lemma next_table_present:
  "present (load64 ea (ram s)) \<Longrightarrow> next_table as func line ea s = Some (table_of (load64 ea (ram s)), s)"
  by (simp add: next_table_def not_present_iff)

lemma link_table_space:
  assumes ok: "as_ok as s" and path: "short (p @ [i])" and at: "descend (ram s) (as_pml4 as s) p = Some t"
    and get: "pm_get 8 0 s = Some (b, s1)"
  defines "s2 \<equiv> link_table (entry_addr t i) b s1"
  shows "list_ok as s2" "as_list as s2 = as_list as s" "as_pml4 as s2 = as_pml4 as s"
    "run b 8 \<subseteq> avail s" "avail s2 = avail s - run b 8"
    "only_changes (bitmap_frames s \<union> (run b 8 \<union> {frame_of t})) s s2" "same_globals s s2"
proof -
  let ?root = "as_pml4 as s" and ?ea = "entry_addr t i" and ?G = "run b 8 \<union> {frame_of t}"
  note okD = as_okD [OF ok] and lokD = list_okD [OF as_okD(1) [OF ok]]
  have tal: "aligned t" using descend_aligned [OF _ at] okD(2) by (simp add: tree_def)
  have tf: "frame_of t \<in> table_frames (ram s) ?root" by (rule table_framesI [OF shortD [OF path] at])
  have "unat (8 :: u64) \<le> 2 ^ 36" by simp
  note g = pm_get_alloc [OF lokD(1) this get]
  show bav: "run b 8 \<subseteq> avail s" by (fact g(3))
  have lay1: "same_layout s s1" using g(5) by (simp add: only_changes_def)
  have "\<not> in_range ?ea 8 a" if "frame_of a \<noteq> frame_of t" for a
    using that entry_byte [OF tal] path by fastforce
  then have oc2: "only_changes ?G s1 s2"
    using frame_of_run [OF g(1,2)]
    by (auto simp: only_changes_def same_layout_def s2_def link_table_def store_le_apply memset_apply)
  have "?G \<inter> bitmap_frames s1 = {}"
    using bav lokD(1) okD(3) tf by (auto simp: layout_simps [OF lay1] alloc_ok_def busy_frames_def)
  note av2 = avail_only_changes [OF oc2 this]
  show oc: "only_changes (bitmap_frames s \<union> ?G) s s2" by (rule only_changes_trans [OF g(5) oc2])
  show gl: "same_globals s s2" using pm_get_globals [OF get] by (simp add: s2_def link_table_def)
  show av: "avail s2 = avail s - run b 8" using av2(1) g(6) by simp
  have "ram s2 x = ram s x" if "frame_of x \<in> as_frames as" for x
  proof -
    have "frame_of x \<notin> bitmap_frames s \<union> ?G" using that lokD(4) bav okD(3) tf by (auto simp: busy_frames_def)
    with oc show ?thesis by (simp add: only_changes_def)
  qed
  moreover have "kernel_addr_space s2 = kernel_addr_space s" using gl by (simp add: same_globals_def)
  ultimately show st: "as_list as s2 = as_list as s" "as_pml4 as s2 = ?root"
    using struct_cong [OF lokD(3)] by blast+
  have "vec_frames (as_list as s) \<inter> (bitmap_frames s \<union> ?G) = {}"
    using vec_frames_private [OF lokD(2)] bav okD(3) tf by (auto simp: busy_frames_def)
  from vec_ok_only_changes [OF lokD(2) oc this] have "vec_ok 8 (as_list as s) s2"
    using vec_frames_private [OF lokD(2)] av by blast
  moreover have "same_layout s s2" using oc by (simp add: only_changes_def)
  ultimately show "list_ok as s2"
    using av2(2) g(7) av lokD(3,4) by (auto simp: list_ok_def st layout_simps)
qed

lemma link_table_tree:
  assumes ok: "as_ok as s" and path: "short (p @ [i])" and at: "descend (ram s) (as_pml4 as s) p = Some t"
    and absent: "\<not> present (load64 (entry_addr t i) (ram s))" and get: "pm_get 8 0 s = Some (b, s1)"
  defines "s2 \<equiv> link_table (entry_addr t i) b s1"
  shows "add_table (ram s) (ram s2) (as_pml4 as s) t (PHYS_TO_VIRT b) p i"
    "frame_of (PHYS_TO_VIRT b) \<in> run b 8"
proof -
  let ?root = "as_pml4 as s" and ?ea = "entry_addr t i" and ?n = "PHYS_TO_VIRT b"
  note okD = as_okD [OF ok] and lokD = list_okD [OF as_okD(1) [OF ok]]
  note ls = link_table_space [OF ok path at get, folded s2_def]
  have "unat (8 :: u64) \<le> 2 ^ 36" by simp
  note g = pm_get_alloc [OF lokD(1) this get]
  have "0 < unat (8 :: u64)" by simp
  note nf = pm_get_frames [OF g(1,2) this]
  show "frame_of ?n \<in> run b 8" by (fact nf(1))
  have tf: "frame_of t \<in> table_frames (ram s) ?root" by (rule table_framesI [OF shortD [OF path] at])
  have fresh: "frame_of ?n \<notin> table_frames (ram s) ?root"
    using nf(1) ls(4) okD(3) by (auto simp: busy_frames_def)
  have tal: "aligned t" using descend_aligned [OF _ at] okD(2) by (simp add: tree_def)
  have byte: "\<not> in_range ?ea 8 a" if "frame_of a \<noteq> frame_of t" for a
    using that entry_byte [OF tal] path by fastforce
  show "add_table (ram s) (ram s2) ?root t ?n p i"
  proof (rule add_tableI)
    have "load64 ?ea (ram s2) = MAKE_TABLE_ENTRY b 7" by (simp add: s2_def link_table_def)
    then show "present (load64 ?ea (ram s2))" "table_of (load64 ?ea (ram s2)) = ?n"
      using table_entry [OF g(1)] by simp_all
    show "load64 (entry_addr ?n j) (ram s2) = 0" if "j < 512" for j
    proof (rule load_le_zero)
      fix x assume "in_range (entry_addr ?n j) 8 x"
      from entry_byte [OF nf(2) that this] have fx: "frame_of x = frame_of ?n" .
      then have "frame_of x \<noteq> frame_of t" using fresh tf by auto
      moreover have "in_range ?n 32768 x" using frame_of_run [OF g(1,2), of x] fx nf(1) by simp
      ultimately show "ram s2 x = 0" using byte
        by (simp add: s2_def link_table_def store_le_apply memset_apply)
    qed simp
    show "ram s2 a = ram s a" if "frame_of a \<in> table_frames (ram s) ?root" "\<not> in_range ?ea 8 a" for a
    proof -
      have "frame_of a \<notin> run b 8" "frame_of a \<notin> bitmap_frames s"
        using that(1) ls(4) okD(3) by (auto simp: busy_frames_def)
      then have "ram s2 a = ram s1 a" "ram s1 a = ram s a"
        using that(2) frame_of_run [OF g(1,2), of a] g(5)
        by (simp_all add: s2_def link_table_def store_le_apply memset_apply only_changes_def)
      then show ?thesis by simp
    qed
  qed (fact okD(2) path at absent fresh)+
qed

lemma link_table_ok:
  assumes ok: "as_ok as s" and path: "short (p @ [i])" and at: "descend (ram s) (as_pml4 as s) p = Some t"
    and absent: "\<not> present (load64 (entry_addr t i) (ram s))" and get: "pm_get 8 0 s = Some (b, s1)"
  defines "s2 \<equiv> link_table (entry_addr t i) b s1"
  shows "table_frames (ram s2) (as_pml4 as s) \<inter> busy_frames as s2 = {}"
    "as_len as s2 < card (table_paths (ram s2) (as_pml4 as s))" "mapping_step as s s2"
proof -
  let ?root = "as_pml4 as s"
  note okD = as_okD [OF ok] and lokD = list_okD [OF as_okD(1) [OF ok]]
  note ls = link_table_space [OF ok path at get, folded s2_def]
  note lt = link_table_tree [OF ok path at absent get, folded s2_def]
  note paths = add_table_paths [OF lt(1)] and frames = add_table_frames_new [OF lt(1)]
  have lay: "same_layout s s2" using ls(6) by (simp add: only_changes_def)
  have tf: "frame_of t \<in> table_frames (ram s) ?root" by (rule table_framesI [OF shortD [OF path] at])
  have busy: "busy_frames as s2 \<subseteq> busy_frames as s"
    using ls(5) by (auto simp: busy_frames_def ls(2) layout_simps [OF lay])
  have "frame_of (PHYS_TO_VIRT b) \<in> avail s" using lt(2) ls(4) by blast
  then have "frame_of (PHYS_TO_VIRT b) \<notin> busy_frames as s2"
    using lt(2) ls(5) lokD(1,4) vec_frames_private [OF lokD(2)]
    by (auto simp: busy_frames_def ls(2) layout_simps [OF lay] alloc_ok_def)
  then show dis: "table_frames (ram s2) ?root \<inter> busy_frames as s2 = {}"
    unfolding frames using disjoint_subset2 [OF busy okD(3)] by simp
  have "as_len as s2 = as_len as s" by (simp add: as_len_def ls(2))
  then show len: "as_len as s2 < card (table_paths (ram s2) ?root)"
    using okD(4) paths by simp
  have "frames_of_as as s2 \<subseteq> frames_of_as as s"
    using busy lt(2) ls(4) frames by (auto simp: frames_of_as_def ls(3) busy_frames_def)
  moreover have "only_changes (frames_of_as as s) s s2"
    by (rule only_changes_mono [OF ls(6)]) (use ls(4) tf in \<open>auto simp: frames_of_as_def busy_frames_def\<close>)
  moreover have "as_ok as s2"
    using ls(1) add_table_tree_new [OF lt(1)] dis len by (simp add: as_ok_def ls(3))
  moreover have "pool as s2 \<subseteq> pool as s" using ls(5) by (auto simp: pool_def ls(2))
  ultimately show "mapping_step as s s2"
    using ls(3,7) by (simp add: mapping_step_def same_globals_def)
qed

lemma next_table_spec:
  assumes ok: "as_ok as s" and path: "short (p @ [i])"
    and at: "descend (ram s) (as_pml4 as s) p = Some t"
    and ret: "next_table as func line (entry_addr t i) s = Some (t', s')"
  shows "mapping_step as s s'" "descend (ram s') (as_pml4 as s) (p @ [i]) = Some t'"
    "translate (ram s') (as_pml4 as s) = translate (ram s) (as_pml4 as s)"
    "table_paths (ram s') (as_pml4 as s) = insert (p @ [i]) (table_paths (ram s) (as_pml4 as s))"
    "invlpg_log s' = invlpg_log s"
proof -
  let ?root = "as_pml4 as s" and ?ea = "entry_addr t i"
  have "mapping_step as s s' \<and> descend (ram s') ?root (p @ [i]) = Some t' \<and>
    translate (ram s') ?root = translate (ram s) ?root \<and>
    table_paths (ram s') ?root = insert (p @ [i]) (table_paths (ram s) ?root) \<and> invlpg_log s' = invlpg_log s"
  proof (cases "present (load64 ?ea (ram s))")
    case True
    then have "s' = s" "t' = table_of (load64 ?ea (ram s))" using ret by (auto simp: next_table_present)
    then show ?thesis using True ok at path
      by (auto simp: mapping_step_refl descend_snoc table_paths_def)
  next
    case False
    then obtain b s1 where get: "pm_get 8 0 s = Some (b, s1)" and t': "t' = PHYS_TO_VIRT b"
      and app: "as_list_append as func line b (link_table ?ea b s1) = Some s'"
      using ret by (auto simp: next_table_absent)
    define s2 where "s2 = link_table ?ea b s1"
    note ls = link_table_space [OF ok path at get, folded s2_def]
    note lt = link_table_tree [OF ok path at False get, folded s2_def t']
    note lk = link_table_ok [OF ok path at False get, folded s2_def]
    note tree2 = add_table_tree_new [OF lt(1)]
    note a = append_to_space [OF ls(1), unfolded ls(3), OF tree2 lk(1,2) app [folded s2_def]]
    have ral: "aligned ?root" using add_table_root_aligned [OF lt(1)] .
    have "descend (ram s') ?root (p @ [i]) = Some t'"
      using descend_cong [where m' = "ram s'", OF add_table_root_aligned [OF lt(1)] a(2) path]
        add_table_descend_new [OF lt(1) path] by simp
    moreover have "translate (ram s') ?root = translate (ram s) ?root"
      using translate_cong [where m' = "ram s'", OF tree2 a(2)] add_table_translate_new [OF lt(1)]
      by (simp add: fun_eq_iff)
    moreover have "table_paths (ram s') ?root = insert (p @ [i]) (table_paths (ram s) ?root)"
      using table_paths_cong [where m' = "ram s'", OF tree2 a(2)] add_table_paths(1) [OF lt(1)] by simp
    moreover have "invlpg_log s' = invlpg_log s"
      using list_append_spec(10) [OF ls(1) _ app [folded s2_def]] ls(7) as_len_bound [OF ok]
      by (simp add: same_globals_def as_len_def ls(2))
    ultimately show ?thesis using mapping_step_trans [OF lk(3) a(1)] by blast
  qed
  then show "mapping_step as s s'" "descend (ram s') ?root (p @ [i]) = Some t'"
    "translate (ram s') ?root = translate (ram s) ?root"
    "table_paths (ram s') ?root = insert (p @ [i]) (table_paths (ram s) ?root)" "invlpg_log s' = invlpg_log s"
    by blast+
qed

section \<open>map_page_entry\<close>

lemma as_cong:
  assumes "ram s' = ram t" and "kmem s' = kmem t" and "kernel_addr_space s' = kernel_addr_space t"
  shows "as_ok as s' = as_ok as t" "as_pml4 as s' = as_pml4 as t" "as_list as s' = as_list as t"
    "frames_of_as as s' = frames_of_as as t" "pool as s' = pool as t" "avail s' = avail t"
    "vec_ok es v s' = vec_ok es v t"
proof -
  have fp: "free_pages s' = free_pages t" using assms by (intro free_pages_cong) simp_all
  then have av: "avail s' = avail t" "bitmap_frames s' = bitmap_frames t" "guard_page s' = guard_page t"
    using assms by (simp_all add: avail_def guard_page_def bitmap_frames_def)
  then show "avail s' = avail t" by simp
  have "page_free s' p = page_free t p" for p using assms by (simp add: page_free_def)
  then have al: "alloc_ok s' = alloc_ok t" using assms av by (simp add: alloc_ok_def)
  show l: "as_list as s' = as_list as t" and r: "as_pml4 as s' = as_pml4 as t"
    using assms by (simp_all add: as_list_def as_pml4_def)
  have vok: "vec_ok es v s' = vec_ok es v t" for es v
    using assms av fp by (simp add: vec_ok_def opt_block_def heap_block_def)
  then show "vec_ok es v s' = vec_ok es v t" .
  show "as_ok as s' = as_ok as t"
    using vok al av l r assms by (simp add: as_ok_def list_ok_def busy_frames_def as_len_def)
  show "frames_of_as as s' = frames_of_as as t" "pool as s' = pool as t"
    using av l r assms by (simp_all add: frames_of_as_def busy_frames_def pool_def)
qed

definition mapped_entry :: "u64 \<Rightarrow> u64 \<Rightarrow> u64" where
  "mapped_entry pa flags = MAKE_TABLE_ENTRY (pa AND NOT 0xFFF) flags"

text \<open>Writing an entry of a last-level table.\<close>

lemma write_leaf:
  fixes e :: u64
  assumes ok: "as_ok as s" and at: "descend (ram s) (as_pml4 as s) p = Some pt"
    and p: "short p" "List.length p = 3" "i < 512"
  defines "t \<equiv> s\<lparr>ram := store64 (entry_addr pt i) e (ram s)\<rparr>"
  shows "mapping_step as s t" "leaf_store (ram s) (ram t) (as_pml4 as s) pt e p i" "avail t = avail s"
proof -
  let ?root = "as_pml4 as s"
  note okD = as_okD [OF ok] and lokD = list_okD [OF as_okD(1) [OF ok]]
  show loc: "leaf_store (ram s) (ram t) ?root pt e p i"
    by (rule leaf_storeI [OF okD(2) p at]) (simp add: t_def)
  have ptf: "frame_of pt \<in> table_frames (ram s) ?root" by (rule table_framesI [OF p(1) at])
  then have out: "frame_of pt \<notin> busy_frames as s" using okD(3) by blast
  have "aligned pt" using descend_aligned [OF _ at] okD(2) by (simp add: tree_def)
  from entry_byte [OF this p(3)] have oc: "only_changes {frame_of pt} s t"
    by (auto simp: only_changes_def same_layout_def t_def store_le_apply)
  then have lay: "same_layout s t" by (simp add: only_changes_def)
  have "{frame_of pt} \<inter> bitmap_frames s = {}" using out by (simp add: busy_frames_def)
  note av = avail_only_changes [OF oc this]
  show "avail t = avail s" by (fact av(1))
  have "ram t a = ram s a" if "frame_of a \<in> as_frames as" for a
  proof -
    have "frame_of a \<notin> {frame_of pt}" using that out unfolding busy_frames_def by (metis UnI2 singletonD)
    with oc show ?thesis unfolding only_changes_def by blast
  qed
  moreover have "kernel_addr_space t = kernel_addr_space s" by (simp add: t_def)
  ultimately have st: "as_list as t = as_list as s" "as_pml4 as t = ?root"
    using struct_cong [OF lokD(3)] by blast+
  have "vec_ok 8 (as_list as s) t"
    by (rule vec_ok_only_changes [OF lokD(2) oc])
      (use out vec_frames_private [OF lokD(2)] av(1) in \<open>auto simp: busy_frames_def\<close>)
  then have lok: "list_ok as t"
    using lokD av by (simp add: list_ok_def st layout_simps [OF lay])
  have busy: "busy_frames as t = busy_frames as s"
    using av by (simp add: busy_frames_def st layout_simps [OF lay])
  note fr = leaf_store_frames_same [OF loc] and paths = leaf_store_paths [OF loc]
  have "as_ok as t"
    using lok leaf_store_tree_same [OF loc] okD(3,4) by (simp add: as_ok_def st fr busy paths as_len_def)
  moreover have "frames_of_as as t = frames_of_as as s" by (simp add: frames_of_as_def busy st fr)
  moreover have "only_changes (frames_of_as as s) s t"
    by (rule only_changes_mono [OF oc]) (use ptf in \<open>simp add: frames_of_as_def\<close>)
  ultimately show "mapping_step as s t"
    by (simp add: mapping_step_def st pool_def av(1)) (simp add: t_def)
qed

text \<open>The paths of the tables that hold the entries of a page.\<close>

definition va_tables :: "u64 \<Rightarrow> nat list set" where
  "va_tables va = (\<lambda>k. take k (va_path va)) ` {1, 2, 3}"

lemma va_tables: "va_tables va = {[unat (pml4e_index va)], [unat (pml4e_index va), unat (pdpe_index va)], va_path va}"
  by (simp add: va_tables_def va_path_def numeral_2_eq_2 numeral_3_eq_3)

lemma map_page_entry_unfold:
  "map_page_entry func as va pa flags s = do {
     (pdpt, s1) \<leftarrow> next_table as func 263 (entry_addr (as_pml4 as s) (unat (pml4e_index va))) s;
     (pd, s2) \<leftarrow> next_table as func 276 (entry_addr pdpt (unat (pdpe_index va))) s1;
     (pt, s3) \<leftarrow> next_table as func 289 (entry_addr pd (unat (pde_index va))) s2;
     let t = s3\<lparr>ram := store64 (entry_addr pt (unat (pte_index va))) (mapped_entry pa flags) (ram s3)\<rparr>;
     Some (invlpg_if_active (as_pml4 as t) va t)
   }"
  by (simp add: map_page_entry_def entry_addr_index mapped_entry_def Let_def)

lemma map_page_entry_spec:
  assumes ok: "as_ok as s" and ret: "map_page_entry func as va pa flags s = Some s'"
  shows "mapping_step as s s'"
    "translate (ram s') (as_pml4 as s) va =
       (if present (mapped_entry pa flags) then Some (mapped_entry pa flags) else None)"
    "\<And>va'. \<not> same_page va va' \<Longrightarrow>
       translate (ram s') (as_pml4 as s) va' = translate (ram s) (as_pml4 as s) va'"
    "table_paths (ram s') (as_pml4 as s) = table_paths (ram s) (as_pml4 as s) \<union> va_tables va"
    "invlpg_log s' = (if cr3 s = VIRT_TO_PHYS (as_pml4 as s) then va # invlpg_log s else invlpg_log s)"
proof -
  let ?root = "as_pml4 as s"
  let ?i4 = "unat (pml4e_index va)" and ?i3 = "unat (pdpe_index va)" and ?i2 = "unat (pde_index va)"
  obtain pdpt s1 pd s2 pt s3 where
      n1: "next_table as func 263 (entry_addr ?root ?i4) s = Some (pdpt, s1)"
    and n2: "next_table as func 276 (entry_addr pdpt ?i3) s1 = Some (pd, s2)"
    and n3: "next_table as func 289 (entry_addr pd ?i2) s2 = Some (pt, s3)"
    and s': "s' = (let t = s3\<lparr>ram := store64 (entry_addr pt (unat (pte_index va))) (mapped_entry pa flags) (ram s3)\<rparr>
      in invlpg_if_active (as_pml4 as t) va t)"
    using ret by (auto simp: map_page_entry_unfold Let_def bind_eq_Some_conv)
  have p: "short ([] @ [?i4])" "short ([?i4] @ [?i3])" "short ([?i4, ?i3] @ [?i2])"
    by (simp_all add: short_def index_bounds)
  have d0: "descend (ram s) ?root [] = Some ?root" by simp
  note a1 = next_table_spec [OF ok p(1) d0 n1, unfolded append_Nil append_Cons]
  note m1 = mapping_stepD [OF a1(1)]
  note a2 = next_table_spec [OF m1(1) p(2) _ n2, unfolded m1(2) append_Nil append_Cons, OF a1(2)]
  note m2 = mapping_stepD [OF a2(1), unfolded m1(2)]
  note a3 = next_table_spec [OF m2(1) p(3) _ n3, unfolded m2(2) append_Nil append_Cons, OF a2(2)]
  note m3 = mapping_stepD [OF a3(1), unfolded m2(2)]
  have at: "descend (ram s3) (as_pml4 as s3) (va_path va) = Some pt"
    using a3(2) by (simp add: va_path_def m3(2))
  have len: "List.length (va_path va) = 3" by (simp add: va_path_def)
  note wl = write_leaf [OF m3(1) at short_va_path len index_bounds(1) [of va], where e = "mapped_entry pa flags"]
  define t where "t = s3\<lparr>ram := store64 (entry_addr pt (unat (pte_index va))) (mapped_entry pa flags) (ram s3)\<rparr>"
  note loc = wl(2) [folded t_def, unfolded m3(2)]
  have st: "mapping_step as s t"
    using mapping_step_trans [OF a1(1) mapping_step_trans [OF a2(1)
        mapping_step_trans [OF a3(1) wl(1) [folded t_def]]]] .
  have s't: "s' = invlpg_if_active ?root va t"
    using mapping_stepD(2) [OF st] by (simp add: s' t_def [symmetric])
  have same: "ram s' = ram t" "kmem s' = kmem t" "kernel_addr_space s' = kernel_addr_space t"
    and gl: "cr3 s' = cr3 t" "global_mem_map s' = global_mem_map t"
    by (simp_all add: s't invlpg_if_active_def)
  show "mapping_step as s s'"
    using st as_cong [OF same] same gl by (simp add: mapping_step_def only_changes_def same_layout_def)
  show "translate (ram s') ?root va =
      (if present (mapped_entry pa flags) then Some (mapped_entry pa flags) else None)"
    using leaf_store_translate_here [OF loc refl refl] same by simp
  show "translate (ram s') ?root va' = translate (ram s) ?root va'" if "\<not> same_page va va'" for va'
    using leaf_store_translate_other [OF loc, of va'] that same a1(3) a2(3) a3(3)
    by (auto simp: same_page_def word_unat_eq_iff)
  show "table_paths (ram s') ?root = table_paths (ram s) ?root \<union> va_tables va"
    using leaf_store_paths [OF loc] same a1(4) a2(4) a3(4) by (auto simp: va_tables va_path_def)
  show "invlpg_log s' = (if cr3 s = VIRT_TO_PHYS ?root then va # invlpg_log s else invlpg_log s)"
    using a1(5) a2(5) a3(5) m1(6) m2(6) m3(6) by (simp add: s't invlpg_if_active_def t_def)
qed

section \<open>Mapping a range\<close>

text \<open>What mapping \<open>n\<close> pages does to a translation, written as the update it is.\<close>

definition page_offset :: "u64 \<Rightarrow> u64 \<Rightarrow> nat" where
  "page_offset va v = (vpn v + 2 ^ 36 - vpn va) mod 2 ^ 36"

definition map_region :: "u64 \<Rightarrow> u64 \<Rightarrow> u64 \<Rightarrow> u64 \<Rightarrow> (u64 \<Rightarrow> u64 option) \<Rightarrow> u64 \<Rightarrow> u64 option" where
  "map_region va pa n flags M v =
     (if page_offset va v < unat n
      then let e = mapped_entry (pa + of_nat (page_offset va v) * 4096) flags
           in if present e then Some e else None
      else M v)"

definition region_tables :: "u64 \<Rightarrow> u64 \<Rightarrow> nat list set" where
  "region_tables va n = (\<Union>k < unat n. va_tables (va + of_nat k * 4096))"

lemma vpn_less: "vpn va < 2 ^ 36"
  by (simp add: vpn_def)

lemma card_va_tables: "card (va_tables va) \<le> 3"
proof -
  have "card (va_tables va) \<le> card {1 :: nat, 2, 3}" unfolding va_tables_def by (rule card_image_le) simp
  then show ?thesis by simp
qed

text \<open>The pages of one last-level table.\<close>

lemma region_tables_one:
  assumes "vpn va mod 512 + unat n \<le> 512"
  shows "region_tables va n \<subseteq> va_tables va"
proof -
  have "va_tables (va + of_nat k * 4096) = va_tables va" if "k < unat n" for k
  proof -
    have d: "(vpn va + k) div 512 = vpn va div 512"
    proof (rule div_nat_eqI)
      have e: "512 * (vpn va div 512) + vpn va mod 512 = vpn va" by simp
      then show "512 * (vpn va div 512) \<le> vpn va + k" by linarith
      show "vpn va + k < 512 * Suc (vpn va div 512)" unfolding mult_Suc_right using e assms that by linarith
    qed
    have "vpn va div 512 < 2 ^ 27" using vpn_less [of va] by (simp add: div_less_iff_less_mult)
    then have "vpn va + k < 2 ^ 36" using d by (simp add: div_less_iff_less_mult [symmetric])
    then have "vpn (va + of_nat k * 4096) = vpn va + k" by (simp add: vpn_step)
    then have "va_path (va + of_nat k * 4096) = va_path va" by (simp only: va_path_vpn d)
    then show ?thesis by (simp add: va_tables_def)
  qed
  then show ?thesis by (auto simp: region_tables_def)
qed

lemma page_offset_iff:
  assumes "k < 2 ^ 36"
  shows "same_page (va + of_nat k * 4096) v \<longleftrightarrow> page_offset va v = k"
proof -
  have "x = (y + k) mod m \<longleftrightarrow> (x + m - y) mod m = k" if "x < m" "y < m" "k < m" for x y m :: nat
  proof (cases "y + k < m")
    case True
    then show ?thesis using that by (cases "x < y") (auto simp: mod_if)
  next
    case False
    then have "(y + k) mod m = y + k - m" using that by (simp add: mod_if)
    then show ?thesis using that False by (cases "x < y") (auto simp: mod_if)
  qed
  from this [of "vpn v" "2 ^ 36" "vpn va"] show ?thesis
    using assms vpn_less by (auto simp: same_page_vpn vpn_step page_offset_def)
qed

lemma page_offset_less: "page_offset va v < 2 ^ 36"
  by (simp add: page_offset_def)

lemma map_page_entry_region:
  assumes "as_ok as s" and "map_page_entry func as (va + of_nat k * 4096) (pa + of_nat k * 4096) flags s = Some s'"
    and "k < 2 ^ 36"
  shows "translate (ram s') (as_pml4 as s) v =
    (if page_offset va v = k
     then let e = mapped_entry (pa + of_nat (page_offset va v) * 4096) flags in if present e then Some e else None
     else translate (ram s) (as_pml4 as s) v)"
proof (cases "page_offset va v = k")
  case True
  then have "same_page (va + of_nat k * 4096) v" using page_offset_iff [OF assms(3)] by simp
  then have "translate (ram s') (as_pml4 as s) v = translate (ram s') (as_pml4 as s) (va + of_nat k * 4096)"
    by (clarsimp simp: translate_def same_page_def split: option.split)
  with map_page_entry_spec(2) [OF assms(1,2)] True show ?thesis by simp
next
  case False
  with map_page_entry_spec(3) [OF assms(1,2), of v] page_offset_iff [OF assms(3)] show ?thesis by simp
qed

lemma map_pages_spec:
  assumes ok: "as_ok as s" and n: "unat n \<le> 2 ^ 36"
    and ret: "map_pages func as va pa n flags s = Some s'"
  shows "mapping_step as s s'"
    "translate (ram s') (as_pml4 as s) = map_region va pa n flags (translate (ram s) (as_pml4 as s))"
    "table_paths (ram s') (as_pml4 as s) = table_paths (ram s) (as_pml4 as s) \<union> region_tables va n"
proof -
  let ?root = "as_pml4 as s"
  let ?I = "\<lambda>k t. mapping_step as s t \<and>
    (\<forall>v. translate (ram t) ?root v =
       (if page_offset va v < k
        then let e = mapped_entry (pa + of_nat (page_offset va v) * 4096) flags in if present e then Some e else None
        else translate (ram s) ?root v)) \<and>
    table_paths (ram t) ?root = table_paths (ram s) ?root \<union> (\<Union>j < k. va_tables (va + of_nat j * 4096))"
  have it: "iterates 0 (n * 4096) 4096 (unat n)"
    by (rule iterates_exact) (use n unat_step [of 0 "unat n" 4096] in simp_all)
  have "?I (unat n) s'"
  proof (rule for_range_partial [where I = ?I, OF it _ _ ret [unfolded map_pages_def]])
    show "?I 0 s" using ok by (simp add: mapping_step_refl)
  next
    fix k t t'
    assume k: "k < unat n" and I: "?I k t"
      and body: "map_page_entry func as (va + (0 + of_nat k * 4096)) (pa + (0 + of_nat k * 4096)) flags t = Some t'"
    from I have st: "mapping_step as s t" by blast
    note m = mapping_stepD [OF st]
    have body': "map_page_entry func as (va + of_nat k * 4096) (pa + of_nat k * 4096) flags t = Some t'"
      using body by simp
    have k36: "k < 2 ^ 36" using k n by simp
    note e = map_page_entry_spec [OF m(1) body', unfolded m(2)]
    note tr = map_page_entry_region [OF m(1) body' k36, unfolded m(2)]
    show "?I (Suc k) t'"
    proof (intro conjI allI)
      show "mapping_step as s t'" by (rule mapping_step_trans [OF st e(1)])
      fix v show "translate (ram t') ?root v =
         (if page_offset va v < Suc k
          then let e = mapped_entry (pa + of_nat (page_offset va v) * 4096) flags in if present e then Some e else None
          else translate (ram s) ?root v)"
        using tr [of v] I by (auto simp: less_Suc_eq Let_def)
    next
      show "table_paths (ram t') ?root =
          table_paths (ram s) ?root \<union> (\<Union>j < Suc k. va_tables (va + of_nat j * 4096))"
        using e(4) I by (auto simp: less_Suc_eq)
    qed
  qed
  then show "mapping_step as s s'"
    "translate (ram s') ?root = map_region va pa n flags (translate (ram s) ?root)"
    "table_paths (ram s') ?root = table_paths (ram s) ?root \<union> region_tables va n"
    by (simp_all add: map_region_def region_tables_def fun_eq_iff)
qed

section \<open>The kernel's own translation\<close>

text \<open>
  The table entries \<^verbatim>\<open>map_page_entry\<close> makes have no bits 9 to 11 set, so the narrower
  mask of \<^verbatim>\<open>vm_get_phys_addr\<close> finds the same tables.
\<close>

definition clean :: "u64 \<Rightarrow> bool" where
  "clean e \<longleftrightarrow> e AND 0xE00 = 0"

lemma table_of_clean: "clean e \<Longrightarrow> table_of_1FF e = table_of e"
proof -
  assume c: "clean e"
  have m: "(0xE00 :: u64) = mask 12 AND NOT (mask 9)" by (simp add: mask_eq_exp_minus_1)
  have "e AND (mask 12 AND NOT (mask 9)) = 0" using c by (simp only: clean_def m)
  then have z: "bit (e AND (mask 12 AND NOT (mask 9))) n = False" for n by simp
  have n: "\<not> (bit e n \<and> 9 \<le> n \<and> n < 12)" for n
    using z [of n] by (auto simp: bit_simps)
  have "e AND NOT (mask 9) = e AND NOT (mask 12)"
    by (rule bit_word_eqI) (use n in \<open>auto simp: bit_simps not_less\<close>)
  then show ?thesis by (simp only: table_of_1FF_def table_of_def mask_constants)
qed

definition clean_path :: "mem \<Rightarrow> u64 \<Rightarrow> u64 \<Rightarrow> bool" where
  "clean_path m root va \<longleftrightarrow>
     (\<forall>k < 3. \<forall>u. descend m root (take k (va_path va)) = Some u \<longrightarrow>
        clean (load64 (entry_addr u (va_path va ! k)) m))"

lemma clean_pathD:
  assumes "clean_path m root va" and "k < 3" and "descend m root (take k (va_path va)) = Some u"
  shows "table_of_1FF (load64 (entry_addr u (va_path va ! k)) m) = table_of (load64 (entry_addr u (va_path va ! k)) m)"
  using assms table_of_clean by (simp add: clean_path_def)

lemma vm_get_phys_unfold:
  assumes "clean_path (ram s) (as_pml4 as s) va"
  defines "i4 \<equiv> unat (pml4e_index va)" and "i3 \<equiv> unat (pdpe_index va)" and "i2 \<equiv> unat (pde_index va)"
    and "i1 \<equiv> unat (pte_index va)"
  shows "vm_get_phys_addr as va s =
    (case descend (ram s) (as_pml4 as s) [i4, i3] of
       None \<Rightarrow> 0
     | Some pd \<Rightarrow>
         if \<not> present (load64 (entry_addr pd i1) (ram s)) then 0
         else let e = load64 (entry_addr (table_of (load64 (entry_addr pd i2) (ram s))) i1) (ram s)
              in if present e then e AND NOT 0xFFF else 0)"
proof -
  let ?m = "ram s" and ?r = "as_pml4 as s"
  note c = clean_pathD [OF assms(1)]
  have m: "(0xFFFFFFFFFFFFF000 :: u64) = NOT 0xFFF" by simp
  have c4: "table_of_1FF (load64 (entry_addr ?r i4) ?m) = table_of (load64 (entry_addr ?r i4) ?m)"
    using c [of 0] by (simp add: va_path_def i4_def)
  have c3: "table_of_1FF (load64 (entry_addr (table_of (load64 (entry_addr ?r i4) ?m)) i3) ?m) =
      table_of (load64 (entry_addr (table_of (load64 (entry_addr ?r i4) ?m)) i3) ?m)"
    if "present (load64 (entry_addr ?r i4) ?m)"
    using c [of 1] that by (simp add: va_path_def i4_def i3_def Let_def)
  have c2: "table_of_1FF (load64 (entry_addr u i2) ?m) = table_of (load64 (entry_addr u i2) ?m)"
    if "descend ?m ?r [i4, i3] = Some u" for u
    using c [of 2] that by (simp add: va_path_def i4_def i3_def i2_def numeral_2_eq_2)
  show ?thesis
  proof (cases "descend ?m ?r [i4, i3]")
    case None
    then show ?thesis using c4 c3
      by (auto simp: vm_get_phys_addr_def Let_def not_present_iff entry_addr_index [symmetric]
          i4_def [symmetric] i3_def [symmetric] split: if_splits)
  next
    case (Some u)
    then show ?thesis using c4 c3 c2 [OF Some] unfolding m
      by (auto simp: vm_get_phys_addr_def Let_def not_present_iff entry_addr_index [symmetric] m
          i4_def [symmetric] i3_def [symmetric] i2_def [symmetric] i1_def [symmetric] split: if_splits)
  qed
qed

text \<open>
  With equal directory and table indices the routine agrees with the processor; with a
  clear entry at the table index of the directory it answers 0 for every address below.
\<close>

lemma vm_get_phys_agrees:
  assumes "clean_path (ram s) (as_pml4 as s) va" and "pte_index va = pde_index va"
  shows "vm_get_phys_addr as va s =
    (case translate (ram s) (as_pml4 as s) va of None \<Rightarrow> 0 | Some e \<Rightarrow> e AND NOT 0xFFF)"
proof -
  let ?m = "ram s" and ?r = "as_pml4 as s"
  let ?u = "descend ?m ?r [unat (pml4e_index va), unat (pdpe_index va)]"
  have d: "descend ?m ?r (va_path va) = Option.bind ?u (\<lambda>u. let e = load64 (entry_addr u (unat (pde_index va))) ?m
      in if present e then Some (table_of e) else None)"
    using descend_snoc [of ?m ?r "[unat (pml4e_index va), unat (pdpe_index va)]" "unat (pde_index va)"]
    by (simp add: va_path_def)
  show ?thesis
    unfolding vm_get_phys_unfold [OF assms(1)] translate_def d
    by (cases ?u) (auto simp: assms(2) Let_def)
qed

lemma vm_get_phys_misses:
  assumes "clean_path (ram s) (as_pml4 as s) va"
    and "descend (ram s) (as_pml4 as s) [unat (pml4e_index va), unat (pdpe_index va)] = Some pd"
    and "\<not> present (load64 (entry_addr pd (unat (pte_index va))) (ram s))"
  shows "vm_get_phys_addr as va s = 0"
  using assms(2,3) by (simp add: vm_get_phys_unfold [OF assms(1)])

section \<open>Mapping below existing tables\<close>

text \<open>When the tables exist nothing is allocated and the call always returns.\<close>

lemma map_page_entry_present:
  assumes "descend (ram s) (as_pml4 as s) (va_path va) = Some pt"
  shows "\<exists>s'. map_page_entry func as va pa flags s = Some s'"
proof -
  from assms have p4: "present (load64 (entry_addr (as_pml4 as s) (unat (pml4e_index va))) (ram s))"
    by (simp add: va_path_def Let_def split: if_splits)
  let ?t3 = "table_of (load64 (entry_addr (as_pml4 as s) (unat (pml4e_index va))) (ram s))"
  from assms p4 have p3: "present (load64 (entry_addr ?t3 (unat (pdpe_index va))) (ram s))"
    by (simp add: va_path_def Let_def split: if_splits)
  let ?t2 = "table_of (load64 (entry_addr ?t3 (unat (pdpe_index va))) (ram s))"
  from assms p4 p3 have p2: "present (load64 (entry_addr ?t2 (unat (pde_index va))) (ram s))"
    by (simp add: va_path_def Let_def split: if_splits)
  show ?thesis
    using next_table_present [OF p4] next_table_present [OF p3] next_table_present [OF p2]
    by (simp add: map_page_entry_def Let_def entry_addr_index)
qed

end
