(* ===== verification/Page_Stock.thy ===== *)
theory Page_Stock
  imports Address_Space
begin

text \<open>
  When the allocators return. A run of consecutive free pages is a supply: each request takes
  the lowest run that fits, so it uses up at most as many pages of the supply as it asks for.
  From this follows how much memory a growing vector, a mapped page and a mapped range need.
\<close>

section \<open>A supply of pages\<close>

definition stock :: "nat \<Rightarrow> kstate \<Rightarrow> bool" where
  "stock n s \<longleftrightarrow> (\<exists>p. {p..<p + n} \<subseteq> avail s)"

lemma stock_mono: "stock n s \<Longrightarrow> m \<le> n \<Longrightarrow> avail s \<subseteq> avail t \<Longrightarrow> stock m t"
  unfolding stock_def by (meson atLeastLessThan_subset_iff add_left_mono order.trans order_refl subset_trans
      ivl_subset)

lemma pm_get_stock:
  assumes ok: "alloc_ok s" and n: "0 < unat n" "unat n \<le> 2 ^ 36" and sup: "stock (unat n + r) s"
  shows "\<exists>b t. pm_get n 0 s = Some (b, t) \<and> stock r t"
proof -
  from sup obtain p where p: "{p..<p + (unat n + r)} \<subseteq> avail s" by (auto simp: stock_def)
  let ?a = "\<lambda>k. 0 + of_nat k * 4096 :: u64"
  have "p \<in> avail s" using p n(1) by auto
  then have pc: "p < candidates 0 s" by (simp add: avail_def guard_page_def candidates_def)
  have pno: "page_no (?a k) = k" if "k < candidates 0 s" for k
    using that page_no_add [of 0 k] candidates_less [of k 0 s] unat_lt64 [of "physical_limit (kmem s)"]
    by (simp add: page_no_def)
  have "run (?a p) n \<subseteq> free_pages s" using p pno [OF pc] by (auto simp: run_def avail_def)
  with pc obtain m where m: "first_fit n 0 s m" using first_fit_exists by blast
  note get = pm_get_first_fit [OF alloc_room [OF ok n(2)] m]
  have "m \<le> p"
  proof (rule ccontr)
    assume "\<not> m \<le> p"
    then have "\<not> run (?a p) n \<subseteq> free_pages s" using m by (auto simp: first_fit_def)
    with \<open>run (?a p) n \<subseteq> free_pages s\<close> show False by simp
  qed
  have "page_no (?a m) = m" using m pno by (simp add: first_fit_def)
  then have "run (?a m) n = {m..<m + unat n}" by (simp add: run_def)
  moreover have "avail (taken (?a m) n s) = avail s - run (?a m) n"
    by (rule pm_get_alloc(6) [OF ok n(2) get])
  ultimately have "{p + unat n..<p + unat n + r} \<subseteq> avail (taken (?a m) n s)"
    using p \<open>m \<le> p\<close> by (auto simp: subset_iff)
  with get show ?thesis by (auto simp: stock_def)
qed

definition block_pages :: "u64 \<Rightarrow> nat" where
  "block_pages bytes = unat (NUM_PAGES bytes + 1)"

lemma kmalloc_stock:
  assumes ok: "alloc_ok s" and b: "unat bytes \<le> 2 ^ 47" and sup: "stock (block_pages bytes + r) s"
  shows "\<exists>v t. kmalloc_impl bytes func line s = Some (v, t) \<and> stock r t"
proof -
  note n = NUM_PAGES_small [OF b]
  have "0 < unat (NUM_PAGES bytes + 1)" using n(1) by simp
  from pm_get_stock [OF ok this n(3) sup [unfolded block_pages_def]]
  obtain p t where get: "pm_get (NUM_PAGES bytes + 1) 0 s = Some (p, t)" and r: "stock r t" by blast
  then obtain v u where k: "kmalloc_impl bytes func line s = Some (v, u)"
    by (auto simp: kmalloc_impl_def Let_def)
  have "run p (NUM_PAGES bytes + 1) = block_frames v bytes"
    using k get by (auto simp: kmalloc_impl_def Let_def block_frames_def)
  then have "avail u = avail t"
    using kmalloc_spec(4) [OF ok b k] pm_get_alloc(6) [OF ok n(3) get] by simp
  with k r show ?thesis by (auto simp: stock_def)
qed

lemma krealloc_stock:
  assumes ok: "alloc_ok s" and old: "opt_block v old s" and b: "unat bytes \<le> 2 ^ 47"
    and sup: "stock (block_pages bytes + r) s"
  shows "\<exists>w t. krealloc_impl v bytes func line s = Some (w, t) \<and> stock r t"
proof (cases "v = 0")
  case True
  with kmalloc_stock [OF ok b sup] show ?thesis by (simp add: krealloc_impl_def)
next
  case False
  with old have held: "heap_block v old s" by (simp add: opt_block_def)
  show ?thesis
  proof (cases "NUM_PAGES old = NUM_PAGES bytes")
    case True
    from krealloc_in_place [OF ok held b True] stock_mono [OF sup] show ?thesis by (metis le_add2 order_refl)
  next
    case False
    from kmalloc_stock [OF ok b sup] obtain w t
      where t: "kmalloc_impl bytes func line s = Some (w, t)" "stock r t" by blast
    note u = krealloc_copied [OF ok held b t(1)]
    from kfree_spec [OF u(1,2)] obtain s' where
      s': "kfree_impl v (t\<lparr>ram := krealloc_copy w v bytes (ram t)\<rparr>) = Some s'"
        "avail s' = avail (t\<lparr>ram := krealloc_copy w v bytes (ram t)\<rparr>) \<union> block_frames v old"
      by blast
    have "avail t \<subseteq> avail s'" using s'(2) u(4) kmalloc_spec(4) [OF ok b t(1)] by simp
    then have "stock r s'" using stock_mono [OF t(2)] by blast
    then show ?thesis by (simp add: krealloc_moves [OF ok held False] t(1) s'(1))
  qed
qed

section \<open>Growing a vector\<close>

definition grow_pages :: "nat \<Rightarrow> nat \<Rightarrow> nat" where
  "grow_pages es l = (l * es * 4 + 4095) div 4096 + 1"

lemma grow_pages_mono: "k \<le> l \<Longrightarrow> grow_pages es k \<le> grow_pages es l"
  by (simp add: grow_pages_def div_le_mono)

context elem_codec
begin

lemma append_stock:
  assumes ok: "alloc_ok s" and v: "vec_ok es v s" and l: "unat (vlength v) < l"
    and bound: "l * unat es * 4 \<le> 2 ^ 47" and sup: "stock (grow_pages (unat es) l + r) s"
  shows "\<exists>v' s'. vector_append es st func line v e s = Some (v', s') \<and> stock r s'"
proof -
  let ?n = "unat (vlength v)"
  have le: "(?n + 1) * unat es * 4 \<le> l * unat es * 4" using l by (intro mult_le_mono1) simp
  then have b: "(?n + 1) * unat es * 4 \<le> 2 ^ 47" using bound by simp
  note spec = append_spec [OF ok v b, of func line e]
  show ?thesis
  proof (cases "vcapacity v < (vlength v + 1) * es")
    case True
    let ?cap = "(vlength v + 1) * es * 4"
    have "(?n + 1) * 1 \<le> (?n + 1) * unat es" using es_pos by (intro mult_le_mono2) simp
    then have n1: "unat (vlength v + 1) = ?n + 1" using unat_step [of "vlength v" 1 1] b by simp
    then have "unat ((vlength v + 1) * es) = (?n + 1) * unat es"
      using b unat_step [of 0 "?n + 1" es] by (simp add: add.commute)
    then have cap: "unat ?cap = (?n + 1) * unat es * 4"
      using b unat_step [of 0 4 "(vlength v + 1) * es"] by (simp add: mult.commute)
    then have c47: "unat ?cap \<le> 2 ^ 47" using b by simp
    have ob: "opt_block (vdata v) (vcapacity v) s" using v by (simp add: vec_ok_def)
    have "block_pages ?cap \<le> grow_pages (unat es) l"
      unfolding block_pages_def NUM_PAGES_small(1) [OF c47] cap grow_pages_def using le by (simp add: div_le_mono)
    then have "stock (block_pages ?cap + r) s" using stock_mono [OF sup] by simp
    from krealloc_stock [OF ok ob c47 this] obtain p t
      where k: "krealloc_impl (vdata v) ?cap func line s = Some (p, t)" and r: "stock r t" by blast
    then obtain v' s' where ret: "vector_append es st func line v e s = Some (v', s')"
      and v': "vdata v' = p" "vcapacity v' = ?cap"
      using True by (auto simp: vector_append_def Let_def)
    note kr = krealloc_spec [OF ok ob c47 k, folded vec_frames_def]
    have "vec_frames v' = block_frames p ?cap" using kr(3) v' by (simp add: vec_frames_def opt_frames_def)
    then have "avail s' = avail t" using spec(5) [OF ret] kr(5) by simp
    then show ?thesis using ret stock_mono [OF r order_refl, of s'] by blast
  next
    case False
    then obtain v' s' where ret: "vector_append es st func line v e s = Some (v', s')"
      and v': "vdata v' = vdata v" "vcapacity v' = vcapacity v"
      by (auto simp: vector_append_def Let_def)
    have "opt_frames (vdata v) (vcapacity v) \<inter> avail s = {}"
      using v by (auto simp: vec_ok_def opt_block_def opt_frames_def heap_block_def avail_def)
    then have "avail s \<subseteq> avail s'" using spec(5) [OF ret] v' by (auto simp: vec_frames_def)
    then show ?thesis using ret stock_mono [OF sup] by (metis le_add2)
  qed
qed

end

lemma list_append_stock:
  assumes ok: "list_ok as s" and l: "as_len as s < l" "l \<le> 2 ^ 40" and sup: "stock (grow_pages 8 l + r) s"
  shows "\<exists>s'. as_list_append as func line e s = Some s' \<and> stock r s'"
proof -
  note lok = list_okD [OF ok]
  have n: "unat (vlength (as_list as s)) < l" using l(1) by (simp add: as_len_def)
  have b: "l * unat (8 :: u64) * 4 \<le> 2 ^ 47" using l(2) by simp
  have "stock (grow_pages (unat (8 :: u64)) l + r) s" using sup by simp
  from u64_vec.append_stock [OF lok(1,2) n b this] obtain v t where
    t: "vector_append 8 (\<lambda>a v m. store64 a v m) func line (as_list as s) e s = Some (v, t)" "stock r t" by blast
  define s' where "s' = set_as_list as v t"
  have ret: "as_list_append as func line e s = Some s'" by (simp add: as_list_append_def t(1) s'_def)
  have n40: "unat (vlength (as_list as s)) < 2 ^ 40" using n l(2) by simp
  then have b': "(unat (vlength (as_list as s)) + 1) * unat (8 :: u64) * 4 \<le> 2 ^ 47" by simp
  have "as_list as s' = v" unfolding s'_def by (rule set_as_list(1) [OF lok(3)])
  then have "avail s' = avail t"
    using list_append_spec(5) [OF ok n40 ret] u64_vec.append_spec(5) [OF lok(1,2) b' t(1)] by simp
  with ret stock_mono [OF t(2) order_refl, of s'] show ?thesis by simp
qed

section \<open>Mapping\<close>

text \<open>
  A table takes eight pages and its entry in the list; \<open>Q\<close> are the tables there will be.
\<close>

definition table_cost :: "nat \<Rightarrow> nat" where
  "table_cost l = 8 + grow_pages 8 l"

definition stocked :: "nat list set \<Rightarrow> nat \<Rightarrow> u64 \<Rightarrow> kstate \<Rightarrow> bool" where
  "stocked Q r as s \<longleftrightarrow> finite Q \<and> card Q \<le> 2 ^ 40 \<and> table_paths (ram s) (as_pml4 as s) \<subseteq> Q \<and> 0 \<notin> pool as s \<and>
     stock (table_cost (card Q) * (card Q - card (table_paths (ram s) (as_pml4 as s))) + r) s"

lemma next_table_stocked:
  assumes ok: "as_ok as s" and path: "short (p @ [i])" and at: "descend (ram s) (as_pml4 as s) p = Some t"
    and st: "stocked Q r as s" and Q: "p @ [i] \<in> Q"
  shows "\<exists>t' s'. next_table as func line (entry_addr t i) s = Some (t', s') \<and> stocked Q r as s'"
proof (cases "present (load64 (entry_addr t i) (ram s))")
  case True
  with st show ?thesis by (auto simp: next_table_present)
next
  case False
  let ?P = "table_paths (ram s) (as_pml4 as s)" and ?C = "table_cost (card Q)"
  have new: "p @ [i] \<notin> ?P" using at False by (simp add: table_paths_def descend_snoc)
  have sub: "insert (p @ [i]) ?P \<subseteq> Q" and fin: "finite Q" and z: "0 \<notin> pool as s" and small: "card Q \<le> 2 ^ 40"
    and sup: "stock (?C * (card Q - card ?P) + r) s"
    using st Q by (simp_all add: stocked_def)
  define k where "k = card Q - card (insert (p @ [i]) ?P)"
  have cQ: "card ?P < card Q" using card_mono [OF fin sub] new by simp
  then have "card Q - card ?P = Suc k" using new by (simp add: k_def)
  then have eq: "?C * (card Q - card ?P) + r = unat (8 :: u64) + (grow_pages 8 (card Q) + (?C * k + r))"
    unfolding table_cost_def by (simp add: add_mult_distrib)
  note s8 = sup [unfolded eq]
  note lok = list_okD [OF as_okD(1) [OF ok]]
  have n8: "0 < unat (8 :: u64)" "unat (8 :: u64) \<le> 2 ^ 36" by simp_all
  from pm_get_stock [OF lok(1) n8 s8] obtain b s1 where
    get: "pm_get 8 0 s = Some (b, s1)" and s1: "stock (grow_pages 8 (card Q) + (?C * k + r)) s1" by blast
  note ls = link_table_space [OF ok path at get]
  have "b \<noteq> 0"
  proof
    assume "b = 0"
    then have "0 \<in> run b 8" by (simp add: run_def page_no_def)
    with ls(4) z show False by (auto simp: pool_def)
  qed
  have "avail (link_table (entry_addr t i) b s1) = avail s1"
    using ls(5) pm_get_alloc(6) [OF lok(1) n8(2) get] by simp
  then have s2: "stock (grow_pages 8 (card Q) + (?C * k + r)) (link_table (entry_addr t i) b s1)"
    using stock_mono [OF s1 order_refl] by simp
  have "as_len as (link_table (entry_addr t i) b s1) < card Q"
    using as_okD(4) [OF ok] cQ by (simp add: as_len_def ls(2))
  from list_append_stock [OF ls(1) this small s2] obtain s' where
    app: "as_list_append as func line b (link_table (entry_addr t i) b s1) = Some s'" and s': "stock (?C * k + r) s'"
    by blast
  then have ret: "next_table as func line (entry_addr t i) s = Some (PHYS_TO_VIRT b, s')"
    using get \<open>b \<noteq> 0\<close> by (auto simp: next_table_absent [OF False])
  note sp = next_table_spec [OF ok path at ret]
  have "stocked Q r as s'"
    using mapping_stepD(2,5) [OF sp(1)] sp(4) sub fin z small s' by (auto simp: stocked_def k_def)
  with ret show ?thesis by blast
qed

lemma stocked_cong:
  assumes "stocked Q r as s" and "table_paths (ram t) (as_pml4 as t) = table_paths (ram s) (as_pml4 as s)"
    and "pool as t \<subseteq> pool as s" and "avail t = avail s"
  shows "stocked Q r as t"
  using assms stock_mono [OF _ order_refl, of _ s t] by (auto simp: stocked_def)

lemma map_page_entry_stocked:
  assumes ok: "as_ok as s" and st: "stocked Q r as s" and Q: "va_tables va \<subseteq> Q"
  shows "\<exists>s'. map_page_entry func as va pa flags s = Some s' \<and> stocked Q r as s'"
proof -
  let ?root = "as_pml4 as s"
  let ?i4 = "unat (pml4e_index va)" and ?i3 = "unat (pdpe_index va)" and ?i2 = "unat (pde_index va)"
    and ?i1 = "unat (pte_index va)"
  have q: "[] @ [?i4] \<in> Q" "[?i4] @ [?i3] \<in> Q" "[?i4, ?i3] @ [?i2] \<in> Q"
    using Q by (auto simp: va_tables va_path_def)
  have p: "short ([] @ [?i4])" "short ([?i4] @ [?i3])" "short ([?i4, ?i3] @ [?i2])"
    by (simp_all add: short_def index_bounds)
  have d0: "descend (ram s) ?root [] = Some ?root" by simp
  from next_table_stocked [OF ok p(1) d0 st q(1)] obtain pdpt s1 where
    n1: "next_table as func 263 (entry_addr ?root ?i4) s = Some (pdpt, s1)" and st1: "stocked Q r as s1" by blast
  note a1 = next_table_spec [OF ok p(1) d0 n1, unfolded append_Nil append_Cons]
  note m1 = mapping_stepD [OF a1(1)]
  from next_table_stocked [OF m1(1) p(2) _ st1 q(2), unfolded m1(2), OF a1(2)] obtain pd s2 where
    n2: "next_table as func 276 (entry_addr pdpt ?i3) s1 = Some (pd, s2)" and st2: "stocked Q r as s2" by blast
  note a2 = next_table_spec [OF m1(1) p(2) _ n2, unfolded m1(2) append_Nil append_Cons, OF a1(2)]
  note m2 = mapping_stepD [OF a2(1), unfolded m1(2)]
  from next_table_stocked [OF m2(1) p(3) _ st2 q(3), unfolded m2(2), OF a2(2)] obtain pt s3 where
    n3: "next_table as func 289 (entry_addr pd ?i2) s2 = Some (pt, s3)" and st3: "stocked Q r as s3" by blast
  note a3 = next_table_spec [OF m2(1) p(3) _ n3, unfolded m2(2) append_Nil append_Cons, OF a2(2)]
  note m3 = mapping_stepD [OF a3(1), unfolded m2(2)]
  have at: "descend (ram s3) (as_pml4 as s3) (va_path va) = Some pt"
    using a3(2) by (simp add: va_path_def m3(2))
  have len: "List.length (va_path va) = 3" by (simp add: va_path_def)
  define t where "t = s3\<lparr>ram := store64 (entry_addr pt ?i1) (mapped_entry pa flags) (ram s3)\<rparr>"
  note wl = write_leaf [OF m3(1) at short_va_path len index_bounds(1) [of va], where e = "mapped_entry pa flags", folded t_def]
  have "stocked Q r as t"
    using stocked_cong [OF st3] leaf_store_paths [OF wl(2)] mapping_stepD(2,5) [OF wl(1)] wl(3) by simp
  moreover define s' where "s' = invlpg_if_active (as_pml4 as t) va t"
  have same: "ram s' = ram t" "kmem s' = kmem t" "kernel_addr_space s' = kernel_addr_space t"
    by (simp_all add: s'_def invlpg_if_active_def)
  ultimately have "stocked Q r as s'" by (simp add: stocked_cong as_cong [OF same] same)
  moreover have "map_page_entry func as va pa flags s = Some s'"
    using n1 n2 n3 by (simp add: map_page_entry_unfold Let_def t_def [symmetric] s'_def)
  ultimately show ?thesis by blast
qed

lemma map_pages_stocked:
  assumes ok: "as_ok as s" and n: "unat n \<le> 2 ^ 36" and st: "stocked Q r as s" and Q: "region_tables va n \<subseteq> Q"
  shows "\<exists>s'. map_pages func as va pa n flags s = Some s' \<and> stocked Q r as s'"
proof -
  let ?I = "\<lambda>k t. as_ok as t \<and> stocked Q r as t"
  have it: "iterates 0 (n * 4096) 4096 (unat n)"
    by (rule iterates_exact) (use n unat_step [of 0 "unat n" 4096] in simp_all)
  have "\<exists>s'. map_pages func as va pa n flags s = Some s' \<and> ?I (unat n) s'"
    unfolding map_pages_def
  proof (rule for_range_rule [OF it])
    fix k t
    assume k: "k < unat n" and I: "?I k t"
    have "va_tables (va + (0 + of_nat k * 4096)) \<subseteq> Q" using Q k by (auto simp: region_tables_def)
    with map_page_entry_stocked I map_page_entry_spec(1) mapping_stepD(1)
    show "\<exists>t'. map_page_entry func as (va + (0 + of_nat k * 4096)) (pa + (0 + of_nat k * 4096)) flags t = Some t' \<and>
        ?I (Suc k) t'" by meson
  qed (use ok st in simp)
  then show ?thesis by blast
qed

text \<open>From the memory there is alone: the tables still missing are what has to be paid for.\<close>

lemma stocked_start:
  assumes z: "0 \<notin> pool as s" and R: "R \<subseteq> {q. short q}"
    and sup: "stock (table_cost (card (table_paths (ram s) (as_pml4 as s) \<union> R)) *
      (card (table_paths (ram s) (as_pml4 as s) \<union> R) - card (table_paths (ram s) (as_pml4 as s)))) s"
  shows "stocked (table_paths (ram s) (as_pml4 as s) \<union> R) 0 as s"
proof -
  let ?Q = "table_paths (ram s) (as_pml4 as s) \<union> R"
  have short: "?Q \<subseteq> {q. short q}" using table_paths_short R by blast
  have "finite ?Q" by (rule finite_subset [OF short finite_short])
  moreover have "card ?Q \<le> 2 ^ 40" using card_mono [OF finite_short short] card_short by linarith
  ultimately show ?thesis unfolding stocked_def using z sup by simp
qed

lemma va_tables_short: "va_tables va \<subseteq> {q. short q}"
  by (auto simp: va_tables va_path_def short_def index_bounds)

lemma region_tables_short: "region_tables va n \<subseteq> {q. short q}"
  using va_tables_short by (auto simp: region_tables_def)

lemma map_page_entry_returns:
  assumes ok: "as_ok as s" and z: "0 \<notin> pool as s"
    and sup: "stock (3 * table_cost (card (table_paths (ram s) (as_pml4 as s)) + 3)) s"
  shows "\<exists>s'. map_page_entry func as va pa flags s = Some s'"
proof -
  let ?P = "table_paths (ram s) (as_pml4 as s)"
  let ?Q = "?P \<union> va_tables va"
  have c: "card ?Q \<le> card ?P + 3" using card_Un_le [of ?P "va_tables va"] card_va_tables [of va] by linarith
  have "table_cost (card ?Q) * (card ?Q - card ?P) \<le> table_cost (card ?P + 3) * 3"
  proof (rule mult_le_mono)
    show "table_cost (card ?Q) \<le> table_cost (card ?P + 3)"
      unfolding table_cost_def by (rule add_left_mono) (rule grow_pages_mono [OF c])
    show "card ?Q - card ?P \<le> 3" using c by linarith
  qed
  then have "stock (table_cost (card ?Q) * (card ?Q - card ?P)) s"
    by (intro stock_mono [OF sup]) (simp_all only: mult.commute order_refl)
  from map_page_entry_stocked [OF ok stocked_start [OF z va_tables_short this]] show ?thesis by blast
qed

end
