(* ===== verification/Kernel_Space.thy ===== *)
theory Kernel_Space
  imports Page_Stock
begin

text \<open>
  The address space of the kernel: the list of mappings shared with every other address space
  (\<^verbatim>\<open>global_mem_map\<close>), \<^verbatim>\<open>vm_map\<close> on it, and \<^verbatim>\<open>vm_init\<close> of
  \<^verbatim>\<open>kernel/src/sys/mmu.c\<close>.
\<close>

section \<open>The kernel's space with its list of mappings\<close>

definition mem_maps :: "kstate \<Rightarrow> mem_map list" where
  "mem_maps s = vec_elems 32 load_mem_map (global_mem_map s) (ram s)"

definition map_frames :: "kstate \<Rightarrow> nat set" where
  "map_frames s = vec_frames (global_mem_map s)"

definition kernel_ok :: "kstate \<Rightarrow> bool" where
  "kernel_ok s \<longleftrightarrow> as_ok 0 s \<and> vec_ok 32 (global_mem_map s) s \<and> map_frames s \<inter> frames_of_as 0 s = {}"

definition kernel_frames :: "kstate \<Rightarrow> nat set" where
  "kernel_frames s = frames_of_as 0 s \<union> map_frames s"

definition kernel_pool :: "kstate \<Rightarrow> nat set" where
  "kernel_pool s = pool 0 s \<union> map_frames s"

definition kernel_step :: "kstate \<Rightarrow> kstate \<Rightarrow> bool" where
  "kernel_step s s' \<longleftrightarrow> kernel_ok s' \<and> as_pml4 0 s' = as_pml4 0 s \<and> kernel_frames s' \<subseteq> kernel_frames s \<and>
     only_changes (kernel_frames s) s s' \<and> kernel_pool s' \<subseteq> kernel_pool s \<and> cr3 s' = cr3 s"

lemma kernel_okD:
  assumes "kernel_ok s"
  shows "as_ok 0 s" "vec_ok 32 (global_mem_map s) s" "map_frames s \<inter> frames_of_as 0 s = {}"
  using assms by (simp_all add: kernel_ok_def)

lemma kernel_stepD:
  assumes "kernel_step s s'"
  shows "kernel_ok s'" "as_pml4 0 s' = as_pml4 0 s" "kernel_frames s' \<subseteq> kernel_frames s"
    "only_changes (kernel_frames s) s s'" "kernel_pool s' \<subseteq> kernel_pool s" "cr3 s' = cr3 s"
  using assms by (simp_all add: kernel_step_def)

lemma kernel_step_trans:
  assumes "kernel_step s t" and "kernel_step t u"
  shows "kernel_step s u"
proof -
  note st = kernel_stepD [OF assms(1)] and tu = kernel_stepD [OF assms(2)]
  have "only_changes (kernel_frames s) s u"
    by (rule only_changes_mono [OF only_changes_trans [OF st(4) tu(4)]]) (use st(3) in blast)
  then show ?thesis using st tu by (auto simp: kernel_step_def)
qed

lemma mem_maps_length: "List.length (mem_maps s) = unat (vlength (global_mem_map s))"
  by (simp add: mem_maps_def)

text \<open>Mapping pages leaves the list alone.\<close>

lemma kernel_mapping_step:
  assumes ok: "kernel_ok s" and st: "mapping_step 0 s s'"
  shows "kernel_step s s'" "mem_maps s' = mem_maps s"
proof -
  note k = kernel_okD [OF ok] and m = mapping_stepD [OF st]
  have dis: "vec_frames (global_mem_map s) \<inter> frames_of_as 0 s = {}" using k(3) by (simp add: map_frames_def)
  have "vec_frames (global_mem_map s) \<inter> avail s' = {}"
    using dis m(3) by (auto simp: frames_of_as_def busy_frames_def)
  from vec_ok_only_changes [OF k(2) m(4) dis this] have "kernel_ok s'"
    using m(1,3,7) k(3) by (auto simp: kernel_ok_def map_frames_def)
  then show "kernel_step s s'"
    using m only_changes_mono [OF m(4), of "kernel_frames s"]
    by (auto simp: kernel_step_def kernel_frames_def kernel_pool_def map_frames_def)
  show "mem_maps s' = mem_maps s"
    using mem_map_vec.elems_only_changes [OF k(2) m(4) dis] by (simp add: mem_maps_def m(7))
qed

text \<open>Appending to the list leaves the tables alone.\<close>

text \<open>The vector of the kernel's mappings grows: the tables and the page list of its address space stay.\<close>

lemma map_vector_grows:
  assumes ok: "kernel_ok s" and bound: "(unat (vlength (global_mem_map s)) + 1) * unat (32 :: u64) * 4 \<le> 2 ^ 47"
    and app: "vector_append 32 store_mem_map func line (global_mem_map s) e s = Some (v', t)"
  shows "as_ok 0 t" "as_list 0 t = as_list 0 s" "as_pml4 0 t = as_pml4 0 s"
    "\<And>x. frame_of x \<in> table_frames (ram s) (as_pml4 0 s) \<Longrightarrow> ram t x = ram s x"
    "frames_of_as 0 t \<subseteq> frames_of_as 0 s \<union> map_frames s" "vec_frames v' \<inter> frames_of_as 0 t = {}"
proof -
  let ?v = "global_mem_map s" and ?root = "as_pml4 0 s"
  note k = kernel_okD [OF ok]
  note a = as_okD [OF k(1)] and l = list_okD [OF as_okD(1) [OF k(1)]]
  note ap = mem_map_vec.append_spec [OF l(1) k(2) bound app]
  note gl = vector_append_globals [OF app]
  have lay: "same_layout s t" using ap(6) by (simp add: only_changes_def)
  have kas: "kernel_addr_space t = kernel_addr_space s" using gl by (simp add: same_globals_def)
  then have st: "as_list 0 t = as_list 0 s" "as_pml4 0 t = ?root" by (simp_all add: as_list_def as_pml4_def)
  then show "as_list 0 t = as_list 0 s" "as_pml4 0 t = ?root" .
  have vf: "vec_frames ?v \<inter> frames_of_as 0 s = {}" using k(3) by (simp add: map_frames_def)
  have lf: "vec_frames (as_list 0 s) \<inter> (bitmap_frames s \<union> vec_frames ?v \<union> vec_frames v') = {}"
    using vec_frames_private [OF l(2)] vf ap(4) by (auto simp: frames_of_as_def busy_frames_def)
  have tf: "table_frames (ram s) ?root \<inter> (bitmap_frames s \<union> vec_frames ?v \<union> vec_frames v') = {}"
    using a(3) vf ap(4) by (auto simp: frames_of_as_def busy_frames_def)
  have same: "ram t x = ram s x" if "frame_of x \<in> table_frames (ram s) ?root" for x
    using that tf ap(6) by (auto simp: only_changes_def)
  then show "\<And>x. frame_of x \<in> table_frames (ram s) ?root \<Longrightarrow> ram t x = ram s x" .
  note tc = tables_cong [where m' = "ram t", OF a(2) same]
  have paths: "table_paths (ram t) ?root = table_paths (ram s) ?root" by (rule table_paths_cong [OF a(2) same])
  have "vec_ok 8 (as_list 0 s) t"
    by (rule vec_ok_only_changes [OF l(2) ap(6) lf]) (use vec_frames_private [OF l(2)] vf ap(5) in \<open>auto simp: frames_of_as_def busy_frames_def\<close>)
  then have "list_ok 0 t" using ap(2) by (simp add: list_ok_def st as_frames_def)
  moreover have busy: "busy_frames 0 t \<subseteq> busy_frames 0 s \<union> vec_frames ?v"
    using ap(5) by (auto simp: busy_frames_def st layout_simps [OF lay])
  then have "table_frames (ram s) ?root \<inter> busy_frames 0 t = {}" using a(3) tf by blast
  ultimately show "as_ok 0 t"
    using tc(1,2) a(4) by (simp add: as_ok_def st paths as_len_def)
  show "frames_of_as 0 t \<subseteq> frames_of_as 0 s \<union> map_frames s"
    using busy tc(1) by (auto simp: frames_of_as_def st map_frames_def)
  show "vec_frames v' \<inter> frames_of_as 0 t = {}"
    using vec_frames_private [OF ap(1)] lf tf tc(1)
    by (auto simp: frames_of_as_def busy_frames_def st as_frames_def layout_simps [OF lay])
qed

lemma global_append_spec:
  assumes ok: "kernel_ok s" and len: "List.length (mem_maps s) < 2 ^ 40"
    and ret: "global_map_append func line e s = Some s'"
  shows "kernel_step s s'" "mem_maps s' = mem_maps s @ [e]"
    "\<And>x. frame_of x \<in> table_frames (ram s) (as_pml4 0 s) \<Longrightarrow> ram s' x = ram s x"
    "avail s' = (avail s \<union> map_frames s) - map_frames s'"
proof -
  let ?v = "global_mem_map s" and ?root = "as_pml4 0 s"
  note k = kernel_okD [OF ok]
  note a = as_okD [OF k(1)] and l = list_okD [OF as_okD(1) [OF k(1)]]
  obtain v' t where app: "vector_append 32 store_mem_map func line ?v e s = Some (v', t)"
    and s': "s' = t\<lparr>global_mem_map := v'\<rparr>"
    using ret by (auto simp: global_map_append_def bind_eq_Some_conv)
  have bound: "(unat (vlength ?v) + 1) * unat (32 :: u64) * 4 \<le> 2 ^ 47" using len by (simp add: mem_maps_length)
  note ap = mem_map_vec.append_spec [OF l(1) k(2) bound app]
  note gl = vector_append_globals [OF app]
  note mv = map_vector_grows [OF ok bound app]
  show "\<And>x. frame_of x \<in> table_frames (ram s) ?root \<Longrightarrow> ram s' x = ram s x" using mv(4) by (simp add: s')
  have avt: "avail t = (avail s \<union> vec_frames ?v) - vec_frames v'" by (rule ap(5))
  have cong: "ram s' = ram t" "kmem s' = kmem t" "kernel_addr_space s' = kernel_addr_space t"
    by (simp_all add: s')
  note c = as_cong [OF cong]
  have "vec_ok 32 v' s'" using ap(1) c(7) by simp
  then have "kernel_ok s'" using mv(1,6) c by (simp add: kernel_ok_def map_frames_def s')
  moreover have "kernel_frames s' \<subseteq> kernel_frames s"
    using mv(5) ap(4) c by (auto simp: kernel_frames_def map_frames_def s' frames_of_as_def busy_frames_def)
  moreover have "only_changes (kernel_frames s) s t"
    by (rule only_changes_mono [OF ap(6)])
      (use ap(4) in \<open>auto simp: kernel_frames_def map_frames_def frames_of_as_def busy_frames_def\<close>)
  then have "only_changes (kernel_frames s) s s'" by (simp add: s' only_changes_def same_layout_def)
  moreover have "kernel_pool s' \<subseteq> kernel_pool s"
    using ap(4) avt c by (auto simp: kernel_pool_def map_frames_def pool_def s' mv(2))
  ultimately show "kernel_step s s'"
    using gl mv(3) by (simp add: kernel_step_def s' same_globals_def as_pml4_def)
  show "mem_maps s' = mem_maps s @ [e]" using ap(3) by (simp add: mem_maps_def s')
  show "avail s' = (avail s \<union> map_frames s) - map_frames s'" using avt c(6) by (simp add: map_frames_def s')
qed

section \<open>vm_map\<close>

definition apply_map :: "mem_map \<Rightarrow> (u64 \<Rightarrow> u64 option) \<Rightarrow> u64 \<Rightarrow> u64 option" where
  "apply_map e = map_region (mm_virt_addr e) (mm_phys_addr e) (mm_num_pages e) (mm_flags e)"

definition map_tables :: "mem_map \<Rightarrow> nat list set" where
  "map_tables e = region_tables (mm_virt_addr e) (mm_num_pages e)"

text \<open>Enough pages for the tables in \<open>Q\<close>, for a list of \<open>g\<close> mappings, and \<open>r\<close> more.\<close>

definition kernel_stocked :: "nat list set \<Rightarrow> nat \<Rightarrow> nat \<Rightarrow> kstate \<Rightarrow> bool" where
  "kernel_stocked Q g r s \<longleftrightarrow> g \<le> 2 ^ 40 \<and> 0 \<notin> kernel_pool s \<and>
     stocked Q (grow_pages 32 g * (g - List.length (mem_maps s)) + r) 0 s"

lemma global_append_stocked:
  assumes ok: "kernel_ok s" and st: "kernel_stocked Q g r s" and len: "List.length (mem_maps s) < g"
  shows "\<exists>s'. global_map_append func line e s = Some s' \<and> kernel_stocked Q g r s'"
proof -
  let ?v = "global_mem_map s" and ?P = "table_paths (ram s) (as_pml4 0 s)"
  let ?c = "grow_pages 32 g" and ?k = "g - List.length (mem_maps s) - 1"
  let ?r = "table_cost (card Q) * (card Q - card ?P) + (?c * ?k + r)"
  note k = kernel_okD [OF ok]
  note l = list_okD [OF as_okD(1) [OF k(1)]]
  have g: "g \<le> 2 ^ 40" and z: "0 \<notin> kernel_pool s" and sk: "stocked Q (?c * (g - List.length (mem_maps s)) + r) 0 s"
    using st by (simp_all add: kernel_stocked_def)
  have "g - List.length (mem_maps s) = Suc ?k" using len by simp
  then have eq: "table_cost (card Q) * (card Q - card ?P) + (?c * (g - List.length (mem_maps s)) + r) = ?c + ?r"
    by simp
  have "stock (?c + ?r) s" using sk unfolding stocked_def eq by blast
  then have sup: "stock (grow_pages (unat (32 :: u64)) g + ?r) s" by simp
  have n: "unat (vlength ?v) < g" using len by (simp add: mem_maps_length)
  have b: "g * unat (32 :: u64) * 4 \<le> 2 ^ 47" using g by simp
  from mem_map_vec.append_stock [OF l(1) k(2) n b sup] obtain v t where
    app: "vector_append 32 store_mem_map func line ?v e s = Some (v, t)" and r: "stock ?r t" by blast
  define s' where "s' = t\<lparr>global_mem_map := v\<rparr>"
  have ret: "global_map_append func line e s = Some s'" by (simp add: global_map_append_def app s'_def)
  have l40: "List.length (mem_maps s) < 2 ^ 40" using len g by simp
  note ga = global_append_spec [OF ok l40 ret]
  note ks = kernel_stepD [OF ga(1)]
  have tr: "tree (ram s) (as_pml4 0 s)" by (rule as_okD(2) [OF k(1)])
  have "table_paths (ram s') (as_pml4 0 s') = ?P"
    using table_paths_cong [where m' = "ram s'", OF tr ga(3)] ks(2) by simp
  moreover have "0 \<notin> kernel_pool s'" using z ks(5) by blast
  moreover have "avail s' = avail t" by (rule as_cong(6)) (simp_all add: s'_def)
  then have "stock ?r s'" using stock_mono [OF r order_refl] by simp
  ultimately have "kernel_stocked Q g r s'"
    using sk g len by (simp add: kernel_stocked_def stocked_def ga(2) kernel_pool_def)
  with ret show ?thesis by blast
qed

lemma vm_map_kernel_spec:
  assumes ok: "kernel_ok s" and len: "List.length (mem_maps s) < 2 ^ 40" and n: "unat n \<le> 2 ^ 36"
    and ret: "vm_map func mpe_func 0 va pa n flags s = Some s'"
  defines "e \<equiv> \<lparr>mm_virt_addr = va, mm_phys_addr = pa, mm_flags = flags, mm_num_pages = n\<rparr>"
  shows "kernel_step s s'" "mem_maps s' = mem_maps s @ [e]"
    "translate (ram s') (as_pml4 0 s) = apply_map e (translate (ram s) (as_pml4 0 s))"
    "table_paths (ram s') (as_pml4 0 s) = table_paths (ram s) (as_pml4 0 s) \<union> map_tables e"
proof -
  obtain t where app: "global_map_append func 474 e s = Some t" and mp: "map_pages mpe_func 0 va pa n flags t = Some s'"
    using ret by (auto simp: vm_map_def e_def bind_eq_Some_conv)
  note g = global_append_spec [OF ok len app]
  note t = kernel_stepD [OF g(1)]
  note m = map_pages_spec [OF kernel_okD(1) [OF t(1)] n mp, unfolded t(2)]
  note ks = kernel_mapping_step [OF t(1) m(1)]
  have tr: "tree (ram s) (as_pml4 0 s)" by (rule as_okD(2) [OF kernel_okD(1) [OF ok]])
  show "kernel_step s s'" by (rule kernel_step_trans [OF g(1) ks(1)])
  show "mem_maps s' = mem_maps s @ [e]" using ks(2) g(2) by simp
  show "translate (ram s') (as_pml4 0 s) = apply_map e (translate (ram s) (as_pml4 0 s))"
    using m(2) translate_cong [where m' = "ram t", OF tr g(3)] by (simp add: apply_map_def e_def)
  show "table_paths (ram s') (as_pml4 0 s) = table_paths (ram s) (as_pml4 0 s) \<union> map_tables e"
    using m(3) table_paths_cong [where m' = "ram t", OF tr g(3)] by (simp add: map_tables_def e_def)
qed

lemma map_pages_kernel_stocked:
  assumes ok: "kernel_ok s" and st: "kernel_stocked Q g r s" and n: "unat n \<le> 2 ^ 36"
    and Q: "region_tables va n \<subseteq> Q"
  shows "\<exists>s'. map_pages func 0 va pa n flags s = Some s' \<and> kernel_stocked Q g r s'"
proof -
  note k = kernel_okD [OF ok]
  have "stocked Q (grow_pages 32 g * (g - List.length (mem_maps s)) + r) 0 s"
    using st by (simp add: kernel_stocked_def)
  from map_pages_stocked [OF k(1) n this Q] obtain s' where
    ret: "map_pages func 0 va pa n flags s = Some s'"
    and s': "stocked Q (grow_pages 32 g * (g - List.length (mem_maps s)) + r) 0 s'" by blast
  note ks = kernel_mapping_step [OF ok map_pages_spec(1) [OF k(1) n ret]]
  have "0 \<notin> kernel_pool s'" using kernel_stepD(5) [OF ks(1)] st by (auto simp: kernel_stocked_def)
  then have "kernel_stocked Q g r s'" using s' st ks(2) by (simp add: kernel_stocked_def)
  with ret show ?thesis by blast
qed

lemma vm_map_kernel_stocked:
  assumes ok: "kernel_ok s" and st: "kernel_stocked Q g r s" and len: "List.length (mem_maps s) < g"
    and n: "unat n \<le> 2 ^ 36" and Q: "region_tables va n \<subseteq> Q"
  shows "\<exists>s'. vm_map func mpe_func 0 va pa n flags s = Some s' \<and> kernel_stocked Q g r s'"
proof -
  let ?e = "\<lparr>mm_virt_addr = va, mm_phys_addr = pa, mm_flags = flags, mm_num_pages = n\<rparr>"
  from global_append_stocked [OF ok st len] obtain t where
    app: "global_map_append func 474 ?e s = Some t" and t: "kernel_stocked Q g r t" by blast
  have "List.length (mem_maps s) < 2 ^ 40" using len st by (simp add: kernel_stocked_def)
  note g = global_append_spec [OF ok this app]
  from map_pages_kernel_stocked [OF kernel_stepD(1) [OF g(1)] t n Q] show ?thesis
    by (simp add: vm_map_def app)
qed

section \<open>vm_init\<close>

text \<open>The mapping an entry of the loader's memory map asks for.\<close>

definition entry_map :: "u64 \<times> u64 \<Rightarrow> memmap_entry \<Rightarrow> mem_map option" where
  "entry_map k e =
     (if me_type e = LIMINE_MEMMAP_KERNEL_AND_MODULES
      then Some \<lparr>mm_virt_addr = fst k + me_base e - snd k, mm_phys_addr = me_base e,
                 mm_flags = VM_DEFAULT, mm_num_pages = NUM_PAGES (me_length e)\<rparr>
      else if vm_entry_action (me_type e)
      then Some \<lparr>mm_virt_addr = PHYS_TO_VIRT (me_base e), mm_phys_addr = me_base e,
                 mm_flags = VM_DEFAULT, mm_num_pages = NUM_PAGES (me_length e)\<rparr>
      else None)"

definition entry_maps :: "u64 \<times> u64 \<Rightarrow> memmap_entry list \<Rightarrow> mem_map list" where
  "entry_maps k es = List.map_filter (entry_map k) es"

text \<open>The direct map up to 2 GB is recorded with user access; the whole of it is the kernel's.\<close>

definition direct_pages :: "u64 \<Rightarrow> u64" where
  "direct_pages limit = (if NUM_PAGES limit < 1024 * 512 then NUM_PAGES limit else 1024 * 512)"

definition shared_direct_map :: "u64 \<Rightarrow> mem_map" where
  "shared_direct_map limit = \<lparr>mm_virt_addr = MEM_VIRT_OFFSET, mm_phys_addr = 0, mm_flags = VM_USERMODE,
     mm_num_pages = direct_pages limit\<rparr>"

definition kernel_direct_map :: "u64 \<Rightarrow> mem_map" where
  "kernel_direct_map limit = \<lparr>mm_virt_addr = MEM_VIRT_OFFSET, mm_phys_addr = 0, mm_flags = VM_DEFAULT,
     mm_num_pages = NUM_PAGES limit\<rparr>"

definition boot_maps :: "u64 \<Rightarrow> u64 \<times> u64 \<Rightarrow> memmap_entry list \<Rightarrow> mem_map list" where
  "boot_maps limit k es = shared_direct_map limit # kernel_direct_map limit # entry_maps k es"

lemma vm_map_entry_eq:
  "vm_map_entry f g k e s =
     (case entry_map k e of None \<Rightarrow> Some s
      | Some m \<Rightarrow> vm_map f g 0 (mm_virt_addr m) (mm_phys_addr m) (mm_num_pages m) (mm_flags m) s)"
  by (simp add: vm_map_entry_def entry_map_def)

lemma mem_map_eta: "\<lparr>mm_virt_addr = mm_virt_addr m, mm_phys_addr = mm_phys_addr m, mm_flags = mm_flags m,
    mm_num_pages = mm_num_pages m\<rparr> = (m :: mem_map)"
  by simp

lemma vm_map_entries_spec:
  assumes "kernel_ok s" and "kernel_stocked Q g r s"
    and "List.length (mem_maps s) + List.length (entry_maps k es) \<le> g"
    and "\<forall>m \<in> set (entry_maps k es). unat (mm_num_pages m) \<le> 2 ^ 36 \<and> map_tables m \<subseteq> Q"
  shows "\<exists>s'. vm_map_entries f h k es s = Some s' \<and> kernel_step s s' \<and> kernel_stocked Q g r s' \<and>
    mem_maps s' = mem_maps s @ entry_maps k es \<and>
    translate (ram s') (as_pml4 0 s) = fold apply_map (entry_maps k es) (translate (ram s) (as_pml4 0 s))"
  using assms
proof (induction es arbitrary: s)
  case Nil
  then show ?case by (simp add: entry_maps_def map_filter_simps kernel_step_def)
next
  case (Cons e es)
  show ?case
  proof (cases "entry_map k e")
    case None
    then have "entry_maps k (e # es) = entry_maps k es" by (simp add: entry_maps_def map_filter_simps)
    with Cons None show ?thesis by (simp add: vm_map_entry_eq)
  next
    case (Some m)
    then have eq: "entry_maps k (e # es) = m # entry_maps k es" by (simp add: entry_maps_def map_filter_simps)
    have len: "List.length (mem_maps s) < g" and n: "unat (mm_num_pages m) \<le> 2 ^ 36"
      and Q: "region_tables (mm_virt_addr m) (mm_num_pages m) \<subseteq> Q"
      using Cons.prems(3,4) eq by (simp_all add: map_tables_def)
    from vm_map_kernel_stocked [OF Cons.prems(1,2) len n Q] obtain t where
      ret: "vm_map f h 0 (mm_virt_addr m) (mm_phys_addr m) (mm_num_pages m) (mm_flags m) s = Some t"
      and st: "kernel_stocked Q g r t" by blast
    have "List.length (mem_maps s) < 2 ^ 40" using len Cons.prems(2) by (simp add: kernel_stocked_def)
    note vs = vm_map_kernel_spec [OF Cons.prems(1) this n ret, unfolded mem_map_eta]
    note t = kernel_stepD [OF vs(1)]
    have "\<exists>s'. vm_map_entries f h k es t = Some s' \<and> kernel_step t s' \<and> kernel_stocked Q g r s' \<and>
      mem_maps s' = mem_maps t @ entry_maps k es \<and>
      translate (ram s') (as_pml4 0 t) = fold apply_map (entry_maps k es) (translate (ram t) (as_pml4 0 t))"
      by (rule Cons.IH [OF t(1) st]) (use Cons.prems(3,4) eq vs(2) in auto)
    with kernel_step_trans [OF vs(1)] show ?thesis
      by (auto simp: vm_map_entry_eq Some ret eq vs(2,3) t(2))
  qed
qed

definition boot_tables :: "mem_map list \<Rightarrow> nat list set" where
  "boot_tables ms = \<Union> (map_tables ` set ms)"

definition vm_init_pages :: "u64 \<Rightarrow> u64 \<times> u64 \<Rightarrow> memmap_entry list \<Rightarrow> nat" where
  "vm_init_pages limit k es =
     (let t = card (boot_tables (boot_maps limit k es)); g = Suc (List.length (entry_maps k es))
      in block_pages 32768 + (table_cost t * t + grow_pages 32 g * g))"

lemma map_tables_short: "map_tables m \<subseteq> {q. short q}"
  by (simp add: map_tables_def region_tables_short)

lemma boot_tables_short: "boot_tables ms \<subseteq> {q. short q}"
  using map_tables_short by (auto simp: boot_tables_def)

lemma stock_bound:
  assumes "alloc_ok s" and "stock n s"
  shows "n \<le> 2 ^ 40"
proof -
  obtain p where "{p..<p + n} \<subseteq> {..<guard_page s}" using assms(2) by (auto simp: stock_def avail_def)
  from card_mono [OF _ this] have "n \<le> guard_page s" by simp
  also have "\<dots> \<le> (2 ^ 46 + 4095) div 4096"
    using assms(1) unfolding guard_page_def alloc_ok_def by (intro div_le_mono) simp
  finally show ?thesis by simp
qed

text \<open>A zeroed root stands for no mapping at all.\<close>

lemma empty_root:
  assumes "aligned root" and "\<And>a. frame_of a = frame_of root \<Longrightarrow> m a = 0"
  shows "tree m root" "table_frames m root = {frame_of root}" "table_paths m root = {}"
    "translate m root = (\<lambda>_. None)"
proof -
  have zero: "load64 (entry_addr root i) m = 0" if "i < 512" for i
    by (rule load_le_zero) (use entry_byte [OF assms(1) that] assms(2) in auto)
  have d: "descend m root p = (if p = [] then Some root else None)" if "short p" for p
    using that zero by (cases p) (auto simp: short_def present_def Let_def)
  show "tree m root" using assms(1) by (auto simp: tree_def d split: if_splits)
  show "table_frames m root = {frame_of root}"
    by (auto simp: table_frames_def d short_def intro!: exI [of _ "[]"] split: if_splits)
  show "table_paths m root = {}" by (auto simp: table_paths_def d)
  show "translate m root = (\<lambda>_. None)"
    using d [OF short_va_path] by (simp add: translate_def fun_eq_iff va_path_def)
qed

text \<open>A block's payload starts a page, and its pages are payload as far as the block goes.\<close>

lemma heap_block_phys:
  assumes "heap_block v bytes s"
  shows "unat (VIRT_TO_PHYS v) = unat (VIRT_TO_PHYS (v - 4096)) + 4096"
    and "unat (VIRT_TO_PHYS v) + unat (NUM_PAGES bytes) * 4096 < 2 ^ 64"
proof -
  note geo = heap_block_geometry [OF assms]
  have n: "unat (NUM_PAGES bytes + 1) = unat (NUM_PAGES bytes) + 1"
    using NUM_PAGES_small(1) [OF geo(3)] NUM_PAGES_unat [of bytes] geo(3) by simp
  have low: "unat (VIRT_TO_PHYS (v - 4096)) + (unat (NUM_PAGES bytes) + 1) * 4096 < 2 ^ 64"
    using geo(2) by (simp add: fits_def n)
  then have "unat (VIRT_TO_PHYS (v - 4096) + 4096) = unat (VIRT_TO_PHYS (v - 4096)) + 4096"
    using unat_step [of "VIRT_TO_PHYS (v - 4096)" 1 4096] by simp
  moreover have "VIRT_TO_PHYS (v - 4096) + 4096 = VIRT_TO_PHYS v" by (simp add: VIRT_TO_PHYS_def)
  ultimately show p: "unat (VIRT_TO_PHYS v) = unat (VIRT_TO_PHYS (v - 4096)) + 4096" by simp
  show "unat (VIRT_TO_PHYS v) + unat (NUM_PAGES bytes) * 4096 < 2 ^ 64" using low by (simp add: p)
qed

lemma heap_block_aligned: "heap_block v bytes s \<Longrightarrow> aligned v"
  using heap_block_phys(1) [of v bytes s] heap_block_geometry(1) [of v bytes s] by (simp add: aligned_def)

lemma heap_page_payload:
  assumes "heap_block v bytes s" and "4096 \<le> unat bytes" and "frame_of a = frame_of v"
  shows "in_range v (unat bytes) a"
proof -
  have "1 \<le> unat (NUM_PAGES bytes)"
    using NUM_PAGES_unat [of bytes] heap_block_geometry(3) [OF assms(1)] assms(2) by simp
  then have "fits (VIRT_TO_PHYS v) 1" using heap_block_phys(2) [OF assms(1)] by (simp add: fits_def)
  then have "in_range v 4096 a"
    using frame_of_run [of "VIRT_TO_PHYS v" 1 a] assms(3) heap_block_aligned [OF assms(1)]
    by (simp add: run_def aligned_def)
  then show ?thesis using assms(2) by (simp add: in_range_def)
qed

definition no_vec :: vec where
  "no_vec = \<lparr>vlength = 0, vcapacity = 0, vdata = 0\<rparr>"

lemma no_vec [simp]: "vec_frames no_vec = {}" "vec_ok es no_vec s" "vec_elems es ld no_vec m = []"
  by (simp_all add: no_vec_def vec_frames_def opt_frames_def vec_ok_def opt_block_def vec_elems_def)

lemma first_root:
  assumes ok: "alloc_ok s" and lists: "memory_list (kernel_addr_space s) = no_vec" "global_mem_map s = no_vec"
    and ret: "kmalloc_impl 32768 func line s = Some (root, t)"
  defines "u \<equiv> t\<lparr>kernel_addr_space := (kernel_addr_space t)\<lparr>pml4 := root\<rparr>, ram := memset root 0 32768 (ram t)\<rparr>"
  shows "kernel_ok u" "mem_maps u = []" "translate (ram u) root = (\<lambda>_. None)" "table_paths (ram u) root = {}"
    "as_pml4 0 u = root" "kernel_pool u = avail t" "avail u = avail t" "avail t \<subseteq> avail s"
    "physical_limit (kmem u) = physical_limit (kmem s)"
    "only_changes (bitmap_frames s \<union> avail s) s u" "kernel_frames u \<subseteq> bitmap_frames s \<union> avail s"
proof -
  have b: "unat (32768 :: u64) \<le> 2 ^ 47" by simp
  note k = kmalloc_spec [OF ok b ret]
  have gl: "same_globals s t" by (rule kmalloc_globals [OF ret])
  have m: "memset root 0 32768 (ram t) = ram t" using k(6) by (auto simp: fun_eq_iff memset_apply)
  have same: "ram u = ram t" "kmem u = kmem t" by (simp_all add: u_def m)
  have free: "avail u = avail t" "bitmap_frames u = bitmap_frames t"
    using free_pages_cong [of u t] same by (simp_all add: avail_def guard_page_def bitmap_frames_def)
  show "avail u = avail t" "avail t \<subseteq> avail s" using free k(4) by auto
  have lay: "same_layout s t" using k(5) by (simp add: only_changes_def)
  show "physical_limit (kmem u) = physical_limit (kmem s)" using lay by (simp add: same same_layout_def)
  have l: "as_list 0 u = no_vec" "global_mem_map u = no_vec" and r: "as_pml4 0 u = root"
    using gl lists by (simp_all add: u_def as_list_def as_pml4_def same_globals_def)
  show "as_pml4 0 u = root" by (fact r)
  show "mem_maps u = []" by (simp add: mem_maps_def l)
  show "kernel_pool u = avail t" using free by (simp add: kernel_pool_def pool_def map_frames_def l)
  have al: "aligned root" by (rule heap_block_aligned [OF k(1)])
  have fr: "frame_of root \<in> block_frames root 32768" by (rule payload_frame [OF k(1)]) simp
  have zero: "ram u a = 0" if "frame_of a = frame_of root" for a
    using heap_page_payload [OF k(1) _ that] k(6) by (simp add: same)
  note e = empty_root [where m = "ram u", OF al zero]
  show "translate (ram u) root = (\<lambda>_. None)" "table_paths (ram u) root = {}" using e(3,4) by simp_all
  have "alloc_ok u" using k(2) free by (simp add: alloc_ok_def page_free_def same guard_page_def)
  then have "list_ok 0 u" by (simp add: list_ok_def l as_frames_def)
  moreover have "frame_of root \<notin> busy_frames 0 u"
    using fr k(1,4) free by (auto simp: busy_frames_def l as_frames_def heap_block_def)
  ultimately have "as_ok 0 u" using e by (simp add: as_ok_def r as_len_def l no_vec_def)
  then show "kernel_ok u" by (simp add: kernel_ok_def l map_frames_def)
  have oc: "only_changes (bitmap_frames s \<union> avail s) s t"
    by (rule only_changes_mono [OF k(5)]) (use k(3) in blast)
  then show "only_changes (bitmap_frames s \<union> avail s) s u" by (simp add: only_changes_def same_layout_def same)
  have "frame_of root \<in> avail s" using fr k(3) by blast
  then show "kernel_frames u \<subseteq> bitmap_frames s \<union> avail s"
    using k(4) layout_simps(2) [OF lay] free e(2)
    by (auto simp: kernel_frames_def frames_of_as_def busy_frames_def l r as_frames_def map_frames_def)
qed

lemma set_cr3 [simp]:
  "kernel_ok (s\<lparr>cr3 := c\<rparr>) = kernel_ok s" "mem_maps (s\<lparr>cr3 := c\<rparr>) = mem_maps s"
  using as_cong [where s' = "s\<lparr>cr3 := c\<rparr>" and t = s]
  by (simp_all add: kernel_ok_def mem_maps_def map_frames_def)

lemma direct_map_spec:
  assumes ok: "kernel_ok u" and st: "kernel_stocked Q g r u" and len: "List.length (mem_maps u) < g"
    and n: "unat (direct_pages limit) \<le> 2 ^ 36" "unat (NUM_PAGES limit) \<le> 2 ^ 36"
    and Q: "map_tables (shared_direct_map limit) \<subseteq> Q" "map_tables (kernel_direct_map limit) \<subseteq> Q"
  shows "\<exists>s1 s2. vm_map f h 0 MEM_VIRT_OFFSET 0 (direct_pages limit) VM_USERMODE u = Some s1 \<and>
    map_pages h 0 MEM_VIRT_OFFSET 0 (NUM_PAGES limit) VM_DEFAULT s1 = Some s2 \<and>
    kernel_step u s2 \<and> kernel_stocked Q g r s2 \<and> mem_maps s2 = mem_maps u @ [shared_direct_map limit] \<and>
    translate (ram s2) (as_pml4 0 u) =
      apply_map (kernel_direct_map limit) (apply_map (shared_direct_map limit) (translate (ram u) (as_pml4 0 u)))"
proof -
  have q: "region_tables MEM_VIRT_OFFSET (direct_pages limit) \<subseteq> Q"
    "region_tables MEM_VIRT_OFFSET (NUM_PAGES limit) \<subseteq> Q"
    using Q by (simp_all add: shared_direct_map_def kernel_direct_map_def map_tables_def)
  have l40: "List.length (mem_maps u) < 2 ^ 40" using len st by (simp add: kernel_stocked_def)
  from vm_map_kernel_stocked [OF ok st len n(1) q(1)] obtain s1 where
    r1: "vm_map f h 0 MEM_VIRT_OFFSET 0 (direct_pages limit) VM_USERMODE u = Some s1"
    and st1: "kernel_stocked Q g r s1" by blast
  note v1 = vm_map_kernel_spec [OF ok l40 n(1) r1, folded shared_direct_map_def]
  note k1 = kernel_stepD [OF v1(1)]
  from map_pages_kernel_stocked [OF k1(1) st1 n(2) q(2)] obtain s2 where
    r2: "map_pages h 0 MEM_VIRT_OFFSET 0 (NUM_PAGES limit) VM_DEFAULT s1 = Some s2"
    and st2: "kernel_stocked Q g r s2" by blast
  note v2 = map_pages_spec [OF kernel_okD(1) [OF k1(1)] n(2) r2, unfolded k1(2)]
  note m2 = kernel_mapping_step [OF k1(1) v2(1)]
  have "translate (ram s2) (as_pml4 0 u) =
      apply_map (kernel_direct_map limit) (apply_map (shared_direct_map limit) (translate (ram u) (as_pml4 0 u)))"
    using v2(2) v1(3) by (simp add: apply_map_def kernel_direct_map_def)
  then show ?thesis using r1 r2 st2 kernel_step_trans [OF v1(1) m2(1)] m2(2) v1(2) by auto
qed

lemma vm_init_root:
  assumes ok: "alloc_ok s" and lists: "memory_list (kernel_addr_space s) = no_vec" "global_mem_map s = no_vec"
    and z: "0 \<notin> avail s" and pages: "stock (vm_init_pages limit k es + r) s"
  defines "Q \<equiv> boot_tables (boot_maps limit k es)" and "g \<equiv> Suc (List.length (entry_maps k es))"
  shows "\<exists>root t u. kmalloc_impl 32768 func 504 s = Some (root, t) \<and>
    u = t\<lparr>kernel_addr_space := (kernel_addr_space t)\<lparr>pml4 := root\<rparr>, ram := memset root 0 32768 (ram t)\<rparr> \<and>
    kernel_stocked Q g r u"
proof -
  have need: "vm_init_pages limit k es = block_pages 32768 + (table_cost (card Q) * card Q + grow_pages 32 g * g)"
    by (simp add: vm_init_pages_def Let_def Q_def g_def)
  have b: "unat (32768 :: u64) \<le> 2 ^ 47" by simp
  have sup: "stock (block_pages 32768 + (table_cost (card Q) * card Q + (grow_pages 32 g * g + r))) s"
    using pages need by (simp add: add.assoc)
  from kmalloc_stock [OF ok b sup] obtain root t where
    kr: "kmalloc_impl 32768 func 504 s = Some (root, t)" and
    t: "stock (table_cost (card Q) * card Q + (grow_pages 32 g * g + r)) t" by blast
  define u where "u = t\<lparr>kernel_addr_space := (kernel_addr_space t)\<lparr>pml4 := root\<rparr>, ram := memset root 0 32768 (ram t)\<rparr>"
  note fr = first_root [OF ok lists kr, folded u_def]
  have "grow_pages 32 g * g \<le> 2 ^ 40" using stock_bound [OF ok sup] by simp
  moreover have "1 * g \<le> grow_pages 32 g * g" by (rule mult_le_mono1) (simp add: grow_pages_def)
  ultimately have g40: "g \<le> 2 ^ 40" by (metis mult_1 le_trans)
  have "finite Q" "card Q \<le> 2 ^ 40"
    using finite_subset [OF boot_tables_short finite_short] card_mono [OF finite_short boot_tables_short] card_short
    unfolding Q_def by (blast, meson le_trans less_imp_le)
  moreover have z': "0 \<notin> kernel_pool u" using z fr(6,8) by blast
  then have "0 \<notin> pool 0 u" by (simp add: kernel_pool_def)
  ultimately have "kernel_stocked Q g r u"
    using g40 z' stock_mono [OF t order_refl, of u]
    by (simp add: kernel_stocked_def stocked_def fr(2,4,5,7))
  with kr u_def show ?thesis by blast
qed

lemma vm_init_spec:
  assumes ok: "alloc_ok s" and lists: "memory_list (kernel_addr_space s) = no_vec" "global_mem_map s = no_vec"
    and z: "0 \<notin> avail s"
    and n: "\<forall>m \<in> set (boot_maps (physical_limit (kmem s)) k es). unat (mm_num_pages m) \<le> 2 ^ 36"
    and pages: "stock (vm_init_pages (physical_limit (kmem s)) k es + r) s"
  defines "limit \<equiv> physical_limit (kmem s)"
  shows "\<exists>s'. vm_init func f h (Some es) (Some k) s = Some s' \<and> kernel_ok s' \<and>
    mem_maps s' = shared_direct_map limit # entry_maps k es \<and>
    translate (ram s') (pml4 (kernel_addr_space s')) = fold apply_map (boot_maps limit k es) (\<lambda>_. None) \<and>
    cr3 s' = VIRT_TO_PHYS (pml4 (kernel_addr_space s')) \<and> stock r s' \<and> 0 \<notin> kernel_pool s' \<and>
    table_paths (ram s') (as_pml4 0 s') \<subseteq> boot_tables (boot_maps limit k es) \<and>
    only_changes (bitmap_frames s \<union> avail s) s s' \<and> kernel_frames s' \<subseteq> bitmap_frames s \<union> avail s"
proof -
  let ?Q = "boot_tables (boot_maps limit k es)" and ?g = "Suc (List.length (entry_maps k es))"
  obtain root t u where kr: "kmalloc_impl 32768 func 504 s = Some (root, t)" and st: "kernel_stocked ?Q ?g r u"
    and u: "u = t\<lparr>kernel_addr_space := (kernel_addr_space t)\<lparr>pml4 := root\<rparr>, ram := memset root 0 32768 (ram t)\<rparr>"
    using vm_init_root [OF ok lists z pages] unfolding limit_def by blast
  note fr = first_root [OF ok lists kr, folded u]
  have limit: "physical_limit (kmem t) = limit" "physical_limit (kmem u) = limit"
    using fr(9) by (simp_all add: limit_def u)
  have n36: "\<forall>m \<in> set (boot_maps limit k es). unat (mm_num_pages m) \<le> 2 ^ 36 \<and> map_tables m \<subseteq> ?Q"
    using n by (auto simp: limit_def boot_tables_def)
  then have n1: "unat (direct_pages limit) \<le> 2 ^ 36" "unat (NUM_PAGES limit) \<le> 2 ^ 36"
    and q1: "map_tables (shared_direct_map limit) \<subseteq> ?Q" "map_tables (kernel_direct_map limit) \<subseteq> ?Q"
    by (simp_all add: boot_maps_def shared_direct_map_def kernel_direct_map_def)
  have "List.length (mem_maps u) < ?g" by (simp add: fr(2))
  from direct_map_spec [OF fr(1) st this n1 q1, of f h] obtain s1 s2 where
    r1: "vm_map f h 0 MEM_VIRT_OFFSET 0 (direct_pages limit) VM_USERMODE u = Some s1"
    and r2: "map_pages h 0 MEM_VIRT_OFFSET 0 (NUM_PAGES limit) VM_DEFAULT s1 = Some s2"
    and s2: "kernel_step u s2" "kernel_stocked ?Q ?g r s2" "mem_maps s2 = [shared_direct_map limit]"
      "translate (ram s2) root = apply_map (kernel_direct_map limit) (apply_map (shared_direct_map limit) (\<lambda>_. None))"
    by (auto simp: fr(2,3,5))
  note k2 = kernel_stepD [OF s2(1), unfolded fr(5)]
  have "List.length (mem_maps s2) + List.length (entry_maps k es) \<le> ?g" by (simp add: s2(3))
  from vm_map_entries_spec [OF k2(1) s2(2) this, of f h] n36 obtain s3 where
    r3: "vm_map_entries f h k es s2 = Some s3" and s3: "kernel_step s2 s3" "mem_maps s3 = mem_maps s2 @ entry_maps k es"
      "translate (ram s3) root = fold apply_map (entry_maps k es) (translate (ram s2) root)" "kernel_stocked ?Q ?g r s3"
    by (auto simp: boot_maps_def k2(2))
  note k3 = kernel_stepD [OF kernel_step_trans [OF s2(1) s3(1)], unfolded fr(5)]
  define s' where "s' = s3\<lparr>cr3 := VIRT_TO_PHYS root\<rparr>"
  have same: "ram s' = ram s3" "kmem s' = kmem s3" "kernel_addr_space s' = kernel_addr_space s3"
      "global_mem_map s' = global_mem_map s3" by (simp_all add: s'_def)
  note c = as_cong [OF same(1-3)]
  have root3: "pml4 (kernel_addr_space s3) = root" "as_pml4 0 s3 = root" using k3(2) by (simp_all add: as_pml4_def)
  have "stock r s3" "0 \<notin> kernel_pool s3" "table_paths (ram s3) root \<subseteq> ?Q"
    using s3(4) stock_mono [of _ s3 r s3] by (auto simp: kernel_stocked_def stocked_def root3)
  then have rest: "stock r s'" "0 \<notin> kernel_pool s'" "table_paths (ram s') (as_pml4 0 s') \<subseteq> ?Q"
    using c by (simp_all add: stock_def kernel_pool_def map_frames_def same root3)
  have "only_changes (bitmap_frames s \<union> avail s) u s3"
    by (rule only_changes_mono [OF k3(4) fr(11)])
  from only_changes_trans [OF fr(10) this] have oc: "only_changes (bitmap_frames s \<union> avail s) s s'"
    by (simp add: only_changes_def same_layout_def same)
  have "kernel_frames s' \<subseteq> bitmap_frames s \<union> avail s"
    using k3(3) fr(11) c by (auto simp: kernel_frames_def map_frames_def same)
  moreover have "vm_init func f h (Some es) (Some k) s = Some s'"
    using r1 r2 r3 root3
    by (cases "NUM_PAGES limit < 524288")
      (simp_all add: vm_init_def kr u [symmetric] limit direct_pages_def Let_def s'_def)
  ultimately show ?thesis
    using k3(1) s2(3,4) s3(2,3) root3 rest oc by (simp add: boot_maps_def s'_def)
qed

end
