(* ===== verification/Shared_Space.thy ===== *)
theory Shared_Space
  imports Kernel_Space
begin

text \<open>
  \<^verbatim>\<open>create_address_space\<close> of \<^verbatim>\<open>kernel/src/sys/mmu.c\<close>: a new address space in
  which every mapping of the kernel's list holds, built without touching the kernel's own.
\<close>

section \<open>What is the kernel's\<close>

definition own_frames :: "kstate \<Rightarrow> nat set" where
  "own_frames s = table_frames (ram s) (as_pml4 0 s) \<union> vec_frames (as_list 0 s) \<union> map_frames s"

lemma own_frames_private:
  assumes "kernel_ok s"
  shows "own_frames s \<inter> (avail s \<union> bitmap_frames s) = {}"
proof -
  note k = kernel_okD [OF assms]
  note a = as_okD [OF k(1)] and l = list_okD [OF as_okD(1) [OF k(1)]]
  show ?thesis
    using a(3) vec_frames_private [OF l(2)] k(3)
    by (auto simp: own_frames_def busy_frames_def frames_of_as_def)
qed

lemma kernel_untouched:
  assumes ok: "kernel_ok s" and oc: "only_changes F s t" and F: "own_frames s \<inter> F = {}"
    and av: "own_frames s \<inter> avail t = {}" and al: "alloc_ok t"
    and gl: "kernel_addr_space t = kernel_addr_space s" "global_mem_map t = global_mem_map s"
  shows "kernel_ok t" "own_frames t = own_frames s" "mem_maps t = mem_maps s" "as_pml4 0 t = as_pml4 0 s"
    "translate (ram t) (as_pml4 0 s) = translate (ram s) (as_pml4 0 s)"
proof -
  let ?root = "as_pml4 0 s"
  note k = kernel_okD [OF ok]
  note a = as_okD [OF k(1)] and l = list_okD [OF as_okD(1) [OF k(1)]]
  have lay: "same_layout s t" using oc by (simp add: only_changes_def)
  have st: "as_list 0 t = as_list 0 s" and root: "as_pml4 0 t = ?root"
    using gl(1) by (simp_all add: as_list_def as_pml4_def)
  show "as_pml4 0 t = ?root" by (fact root)
  have same: "ram t x = ram s x" if "frame_of x \<in> table_frames (ram s) ?root" for x
    using that oc F by (auto simp: only_changes_def own_frames_def)
  note tc = tables_cong [where m' = "ram t", OF a(2) same]
  show "translate (ram t) ?root = translate (ram s) ?root" by (rule translate_cong [OF a(2) same])
  have paths: "table_paths (ram t) ?root = table_paths (ram s) ?root" by (rule table_paths_cong [OF a(2) same])
  have lf: "vec_frames (as_list 0 s) \<inter> F = {}" and mf: "vec_frames (global_mem_map s) \<inter> F = {}"
    and lv: "vec_frames (as_list 0 s) \<inter> avail t = {}" and mv: "vec_frames (global_mem_map s) \<inter> avail t = {}"
    using F av by (auto simp: own_frames_def map_frames_def)
  have l8: "vec_ok 8 (as_list 0 s) t" by (rule vec_ok_only_changes [OF l(2) oc lf lv])
  have m32: "vec_ok 32 (global_mem_map s) t" by (rule vec_ok_only_changes [OF k(2) oc mf mv])
  show "own_frames t = own_frames s" using tc(1) by (simp add: own_frames_def root st map_frames_def gl)
  show "mem_maps t = mem_maps s"
    using mem_map_vec.elems_only_changes [OF k(2) oc mf] by (simp add: mem_maps_def gl)
  have "list_ok 0 t" using al l8 by (simp add: list_ok_def st as_frames_def)
  moreover have "table_frames (ram t) ?root \<inter> busy_frames 0 t = {}"
    using tc(1) a(3) av by (auto simp: busy_frames_def st layout_simps [OF lay] own_frames_def)
  ultimately have "as_ok 0 t" using tc(2) a(4) by (simp add: as_ok_def root st paths as_len_def)
  moreover have "map_frames t \<inter> frames_of_as 0 t = {}"
    using k(3) tc(1) mv by (auto simp: map_frames_def gl frames_of_as_def busy_frames_def root st layout_simps [OF lay])
  ultimately show "kernel_ok t" using m32 by (simp add: kernel_ok_def gl)
qed

text \<open>Another address space, beside the kernel's.\<close>

definition beside :: "u64 \<Rightarrow> kstate \<Rightarrow> bool" where
  "beside as s \<longleftrightarrow> as \<noteq> 0 \<and> as_ok as s \<and> kernel_ok s \<and> own_frames s \<inter> frames_of_as as s = {}"

lemma beside_step:
  assumes b: "beside as s" and st: "mapping_step as s t"
  shows "beside as t" "mem_maps t = mem_maps s" "as_pml4 0 t = as_pml4 0 s"
    "translate (ram t) (as_pml4 0 s) = translate (ram s) (as_pml4 0 s)"
proof -
  have nz: "as \<noteq> 0" and ok: "kernel_ok s" and dis: "own_frames s \<inter> frames_of_as as s = {}"
    using b by (simp_all add: beside_def)
  note m = mapping_stepD [OF st]
  have "own_frames s \<inter> avail t = {}" using dis m(3) by (auto simp: frames_of_as_def busy_frames_def)
  moreover have "alloc_ok t" using list_okD(1) [OF as_okD(1) [OF m(1)]] .
  ultimately have u: "kernel_ok t" "own_frames t = own_frames s" "mem_maps t = mem_maps s"
      "as_pml4 0 t = as_pml4 0 s" "translate (ram t) (as_pml4 0 s) = translate (ram s) (as_pml4 0 s)"
    using kernel_untouched [OF ok m(4) dis] m(7,8) nz by blast+
  then show "mem_maps t = mem_maps s" "as_pml4 0 t = as_pml4 0 s"
    "translate (ram t) (as_pml4 0 s) = translate (ram s) (as_pml4 0 s)" by blast+
  show "beside as t" using u(1,2) m(1,3) nz dis by (auto simp: beside_def)
qed

section \<open>The new space before its mappings\<close>

definition blank_space :: "u64 \<Rightarrow> u64 \<Rightarrow> kstate \<Rightarrow> kstate" where
  "blank_space as root s = s\<lparr>ram := store_lock (as + 32) LOCK_NEW (store64 as root (ram s))\<rparr>"

lemma store_lock_outside: "\<not> in_range a 12 x \<Longrightarrow> store_lock a l m x = m x"
proof -
  assume r: "\<not> in_range a 12 x"
  have "\<not> in_range (a + of_nat 0) 8 x" "\<not> in_range (a + of_nat 8) 4 x"
    using r in_range_part [of a 0 8 x 12] in_range_part [of a 8 4 x 12] by auto
  then show ?thesis by (simp add: store_lock_def store_le_apply)
qed

lemma blank_bytes:
  assumes "\<not> in_range as 48 x"
  shows "ram (blank_space as root s) x = ram s x"
proof -
  have "\<not> in_range (as + of_nat 0) 8 x" "\<not> in_range (as + of_nat 32) 12 x"
    using assms in_range_part [of as 0 8 x 48] in_range_part [of as 32 12 x 48] by auto
  then show ?thesis by (simp add: blank_space_def store_lock_outside store_le_apply)
qed

lemma blank_loads:
  assumes "\<And>x. in_range as 48 x \<Longrightarrow> ram s x = 0"
  shows "load64 as (ram (blank_space as root s)) = root" "load64 (as + 8) (ram (blank_space as root s)) = 0"
    "load64 (as + 16) (ram (blank_space as root s)) = 0" "load64 (as + 24) (ram (blank_space as root s)) = 0"
proof -
  have zero: "load64 (as + of_nat i) (ram s) = 0" if "i + 8 \<le> 48" for i
    by (rule load_le_zero) (use assms in_range_part [of as i 8 _ 48] that in auto)
  show "load64 as (ram (blank_space as root s)) = root" "load64 (as + 8) (ram (blank_space as root s)) = 0"
    "load64 (as + 16) (ram (blank_space as root s)) = 0" "load64 (as + 24) (ram (blank_space as root s)) = 0"
    using zero [of 8] zero [of 16] zero [of 24]
    by (simp_all add: blank_space_def store_lock_def load_store_disjoint disjoint_ranges_def)
qed

text \<open>
  Two blocks off the heap: one for the structure, one for the root. Both are zeroed, so the
  \<^verbatim>\<open>memset\<close> of the structure changes nothing.
\<close>

lemma memset_zeroed: "(\<And>a. in_range v (unat n) a \<Longrightarrow> m a = 0) \<Longrightarrow> memset v 0 n m = m"
  by (auto simp: fun_eq_iff memset_apply)

text \<open>The two blocks of a new space: its structure, blanked, and its root, zeroed by the allocator.\<close>

lemma new_space_blocks:
  assumes al: "alloc_ok s"
    and k1: "kmalloc_impl 48 func l1 s = Some (as, s1)" and k2: "kmalloc_impl 32768 func l2 s1 = Some (root, s2)"
  defines "t \<equiv> blank_space as root s2"
  shows "memset as 0 48 (ram s1) = ram s1" "as \<noteq> 0" "as_list as t = no_vec" "as_pml4 as t = root"
    "alloc_ok t" "avail t = avail s2" "avail t = avail s - block_frames as 48 - block_frames root 32768"
    "only_changes (bitmap_frames s \<union> block_frames as 48 \<union> block_frames root 32768) s t"
    "aligned as" "aligned root" "\<And>a. frame_of a = frame_of root \<Longrightarrow> ram t a = 0"
    "block_frames as 48 \<subseteq> avail s" "block_frames root 32768 \<subseteq> avail s"
    "block_frames as 48 \<inter> block_frames root 32768 = {}"
    "frame_of as \<in> block_frames as 48" "frame_of root \<in> block_frames root 32768"
proof -
  have b: "unat (48 :: u64) \<le> 2 ^ 47" "unat (32768 :: u64) \<le> 2 ^ 47" by simp_all
  note a1 = kmalloc_spec [OF al b(1) k1]
  note a2 = kmalloc_spec [OF a1(2) b(2) k2]
  have blk: "heap_block as 48 s2" by (rule heap.get_keeps [OF a1(2) b(2) k2 a1(1)])
  show dis: "block_frames as 48 \<inter> block_frames root 32768 = {}" using a2(3) a1(4) by blast
  show "memset as 0 48 (ram s1) = ram s1" using a1(6) by (intro memset_zeroed) simp
  have zas: "ram s2 x = 0" if "in_range as 48 x" for x
  proof -
    have "frame_of x \<in> block_frames as 48" using that payload_frame [OF a1(1)] by simp
    then have "ram s2 x = ram s1 x"
      using a2(5) dis a1(1) by (auto simp: only_changes_def heap_block_def)
    then show ?thesis using a1(6) that by simp
  qed
  note ld = blank_loads [where as = as and s = s2 and root = root, OF zas, folded t_def]
  have eq: "t = s2\<lparr>ram := ram t\<rparr>" by (simp add: t_def blank_space_def)
  have "ram t a = ram s2 a" if "\<not> in_range as (unat (48 :: u64)) a" for a
    using that blank_bytes by (simp add: t_def)
  note c = heap_block_payload_change [OF blk this a2(2)]
  have pc: "only_changes (block_frames as 48) s2 t" "alloc_ok t" "avail t = avail s2"
    by (subst eq, rule c, assumption)+
  then show "alloc_ok t" "avail t = avail s2" by blast+
  show nz: "as \<noteq> 0" by (rule heap_block_nonzero [OF a1(1,2)])
  show "as_list as t = no_vec" "as_pml4 as t = root"
    using nz ld by (simp_all add: as_list_def as_pml4_def no_vec_def)
  show "frame_of as \<in> block_frames as 48" by (rule payload_frame [OF a1(1)]) simp
  show rf: "frame_of root \<in> block_frames root 32768" by (rule payload_frame [OF a2(1)]) simp
  show "aligned as" "aligned root" using heap_block_aligned [OF a1(1)] heap_block_aligned [OF a2(1)] .
  show "ram t a = 0" if "frame_of a = frame_of root" for a
  proof -
    have "frame_of a \<notin> block_frames as 48" using that rf dis by auto
    then have "ram t a = ram s2 a" using pc(1) by (simp add: only_changes_def)
    then show ?thesis using heap_page_payload [OF a2(1) _ that] a2(6) by simp
  qed
  show "only_changes (bitmap_frames s \<union> block_frames as 48 \<union> block_frames root 32768) s t"
    by (rule only_changes_mono [OF only_changes_trans [OF only_changes_trans [OF a1(5) a2(5)] pc(1)]])
      (use a1(5) in \<open>auto simp: only_changes_def layout_simps\<close>)
  show "avail t = avail s - block_frames as 48 - block_frames root 32768" using pc(3) a1(4) a2(4) by simp
  show "block_frames as 48 \<subseteq> avail s" by (rule a1(3))
  show "block_frames root 32768 \<subseteq> avail s" using a2(3) a1(4) by blast
qed

lemma new_space:
  assumes ok: "kernel_ok s"
    and k1: "kmalloc_impl 48 func l1 s = Some (as, s1)" and k2: "kmalloc_impl 32768 func l2 s1 = Some (root, s2)"
  defines "t \<equiv> blank_space as root s2"
  shows "beside as t" "as_pml4 as t = root" "translate (ram t) root = (\<lambda>_. None)" "table_paths (ram t) root = {}"
    "mem_maps t = mem_maps s" "as_pml4 0 t = as_pml4 0 s" "avail t = avail s2" "pool as t \<subseteq> avail s"
    "translate (ram t) (as_pml4 0 s) = translate (ram s) (as_pml4 0 s)" "memset as 0 48 (ram s1) = ram s1"
    "cr3 t = cr3 s"
proof -
  have al: "alloc_ok s" using ok by (simp add: kernel_ok_def as_ok_def list_ok_def)
  note n = new_space_blocks [OF al k1 k2, folded t_def]
  show "memset as 0 48 (ram s1) = ram s1" "as_pml4 as t = root" "avail t = avail s2" by (fact n(1,4,6))+
  note e = empty_root [where m = "ram t", OF n(10,11)]
  show "translate (ram t) root = (\<lambda>_. None)" "table_paths (ram t) root = {}" using e(3,4) by simp_all
  have lay: "same_layout s t" using n(8) by (simp add: only_changes_def)
  show "pool as t \<subseteq> avail s" using n(7) by (auto simp: pool_def n(3))
  have bm: "bitmap_frames s \<inter> avail s = {}" using al by (simp add: alloc_ok_def)
  have asl: "as_frames as = {frame_of as}" using n(2) by (simp add: as_frames_def)
  have bf: "bitmap_frames t = bitmap_frames s" by (rule layout_simps(2) [OF lay])
  have "list_ok as t"
    using n(5,9,15,12) n(7) bm by (auto simp: list_ok_def n(3) asl bf)
  moreover have "table_frames (ram t) root \<inter> busy_frames as t = {}"
    using e(2) n(16,7,13) bm n(14,15) by (auto simp: busy_frames_def n(3) asl bf)
  ultimately have "as_ok as t" using e(1) by (simp add: as_ok_def n(3,4) as_len_def no_vec_def)
  moreover have "frames_of_as as t \<subseteq> avail s \<union> bitmap_frames s"
    using e(2) n(16,7,13,15,12) by (auto simp: frames_of_as_def busy_frames_def n(3,4) asl bf)
  moreover note priv = own_frames_private [OF ok]
  have F: "own_frames s \<inter> (bitmap_frames s \<union> block_frames as 48 \<union> block_frames root 32768) = {}"
    using priv n(12,13) by blast
  have gl: "same_globals s t"
    using same_globals_trans [OF kmalloc_globals [OF k1] kmalloc_globals [OF k2]] by (simp add: t_def blank_space_def)
  have "own_frames s \<inter> avail t = {}" using priv n(7) by blast
  note u = kernel_untouched [OF ok n(8) F this n(5)]
  show "mem_maps t = mem_maps s" "as_pml4 0 t = as_pml4 0 s" "cr3 t = cr3 s"
    "translate (ram t) (as_pml4 0 s) = translate (ram s) (as_pml4 0 s)"
    using u gl by (simp_all add: same_globals_def)
  ultimately show "beside as t"
    using u(1,2) gl n(2) priv by (auto simp: beside_def same_globals_def)
qed

section \<open>Sharing the mappings\<close>

lemma share_map_eq:
  assumes "as \<noteq> 0" and "k < List.length (mem_maps t)"
  defines "e \<equiv> mem_maps t ! k"
  shows "share_map f h as (of_nat k) t =
    map_pages h as (mm_virt_addr e) (mm_phys_addr e) (mm_num_pages e) (mm_flags e) t"
proof -
  have k: "k < unat (vlength (global_mem_map t))" using assms(2) by (simp add: mem_maps_length)
  then have u: "unat (of_nat k :: u64) = k" using unat_lt64 [of "vlength (global_mem_map t)"] by (intro unat_of_nat64) simp
  with k have "of_nat k < vlength (global_mem_map t)" by (simp add: word_less_nat_alt)
  then have "vector_at 32 load_mem_map (global_mem_map t) (of_nat k) (ram t) = e"
    by (simp add: vector_at_elems u e_def mem_maps_def)
  then show ?thesis using assms(1) by (simp add: share_map_def vm_map_def)
qed

lemma share_all:
  assumes b: "beside as s" and st: "stocked Q r as s"
    and ms: "\<forall>m \<in> set (mem_maps s). unat (mm_num_pages m) \<le> 2 ^ 36 \<and> map_tables m \<subseteq> Q"
  shows "\<exists>s'. for_range 0 (vector_len (global_mem_map s)) 1 (share_map f h as) s = Some s' \<and> mapping_step as s s' \<and>
    translate (ram s') (as_pml4 as s) = fold apply_map (mem_maps s) (translate (ram s) (as_pml4 as s))"
proof -
  let ?root = "as_pml4 as s" and ?n = "List.length (mem_maps s)"
  let ?I = "\<lambda>k t. mapping_step as s t \<and> stocked Q r as t \<and>
    translate (ram t) ?root = fold apply_map (take k (mem_maps s)) (translate (ram s) ?root)"
  have "iterates 0 (vector_len (global_mem_map s)) 1 ?n"
    unfolding mem_maps_length
    by (rule iterates_exact) (use unat_lt64 [of "vlength (global_mem_map s)"] in \<open>simp_all add: vector_len_def\<close>)
  then have "\<exists>s'. for_range 0 (vector_len (global_mem_map s)) 1 (share_map f h as) s = Some s' \<and> ?I ?n s'"
  proof (rule for_range_rule)
    show "?I 0 s" using b st by (simp add: beside_def mapping_step_refl)
    fix k t
    assume k: "k < ?n" and I: "?I k t"
    let ?e = "mem_maps s ! k"
    have step: "mapping_step as s t" and stt: "stocked Q r as t" using I by blast+
    note bt = beside_step [OF b step] and m = mapping_stepD [OF step]
    have "as \<noteq> 0" using b by (simp add: beside_def)
    moreover have kt: "k < List.length (mem_maps t)" using k bt(2) by simp
    ultimately have eq: "share_map f h as (0 + of_nat k * 1) t =
        map_pages h as (mm_virt_addr ?e) (mm_phys_addr ?e) (mm_num_pages ?e) (mm_flags ?e) t"
      using share_map_eq [of as k t f h] bt(2) by simp
    have n: "unat (mm_num_pages ?e) \<le> 2 ^ 36" and q: "region_tables (mm_virt_addr ?e) (mm_num_pages ?e) \<subseteq> Q"
      using ms nth_mem [OF k] by (auto simp: map_tables_def)
    from map_pages_stocked [OF m(1) n stt q] obtain t' where
      ret: "map_pages h as (mm_virt_addr ?e) (mm_phys_addr ?e) (mm_num_pages ?e) (mm_flags ?e) t = Some t'"
      and st': "stocked Q r as t'" by blast
    note sp = map_pages_spec [OF m(1) n ret, unfolded m(2)]
    have "translate (ram t') ?root = fold apply_map (take (Suc k) (mem_maps s)) (translate (ram s) ?root)"
      using sp(2) I k by (simp add: take_Suc_conv_app_nth apply_map_def)
    with eq ret st' mapping_step_trans [OF step sp(1)]
    show "\<exists>t'. share_map f h as (0 + of_nat k * 1) t = Some t' \<and> ?I (Suc k) t'" by metis
  qed
  then show ?thesis by auto
qed

definition new_space_pages :: "mem_map list \<Rightarrow> nat" where
  "new_space_pages ms =
     (let t = card (boot_tables ms) in block_pages 48 + (block_pages 32768 + table_cost t * t))"

lemma create_address_space_spec:
  assumes ok: "kernel_ok s" and z: "0 \<notin> avail s"
    and ms: "\<forall>m \<in> set (mem_maps s). unat (mm_num_pages m) \<le> 2 ^ 36"
    and pages: "stock (new_space_pages (mem_maps s)) s"
  shows "\<exists>as s'. create_address_space func f h s = Some (as, s') \<and> beside as s' \<and>
    translate (ram s') (as_pml4 as s') = fold apply_map (mem_maps s) (\<lambda>_. None) \<and>
    mem_maps s' = mem_maps s \<and> as_pml4 0 s' = as_pml4 0 s \<and> cr3 s' = cr3 s \<and>
    translate (ram s') (as_pml4 0 s) = translate (ram s) (as_pml4 0 s)"
proof -
  define Q where "Q = boot_tables (mem_maps s)"
  have al: "alloc_ok s" using ok by (simp add: kernel_ok_def as_ok_def list_ok_def)
  have b: "unat (48 :: u64) \<le> 2 ^ 47" "unat (32768 :: u64) \<le> 2 ^ 47" by simp_all
  have sup: "stock (block_pages 48 + (block_pages 32768 + table_cost (card Q) * card Q)) s"
    using pages by (simp add: new_space_pages_def Let_def Q_def)
  from kmalloc_stock [OF al b(1) sup] obtain as s1 where
    k1: "kmalloc_impl 48 func 597 s = Some (as, s1)"
    and st1: "stock (block_pages 32768 + table_cost (card Q) * card Q) s1" by blast
  note a1 = kmalloc_spec [OF al b(1) k1]
  from kmalloc_stock [OF a1(2) b(2) st1] obtain root s2 where
    k2: "kmalloc_impl 32768 func 606 s1 = Some (root, s2)" and st2: "stock (table_cost (card Q) * card Q) s2" by blast
  note ns = new_space [OF ok k1 k2]
  let ?t = "blank_space as root s2"
  have "root \<noteq> 0" using heap_block_nonzero kmalloc_spec(1,2) [OF a1(2) b(2) k2] by blast
  have nz: "as \<noteq> 0" using ns(1) by (simp add: beside_def)
  have "finite Q" "card Q \<le> 2 ^ 40"
    using finite_subset [OF boot_tables_short finite_short] card_mono [OF finite_short boot_tables_short] card_short
    unfolding Q_def by (blast, meson le_trans less_imp_le)
  moreover have "0 \<notin> pool as ?t" using z ns(8) by blast
  ultimately have stk: "stocked Q 0 as ?t"
    using stock_mono [OF st2 order_refl, of ?t] by (simp add: stocked_def ns(2,4,7))
  have "\<forall>m \<in> set (mem_maps ?t). unat (mm_num_pages m) \<le> 2 ^ 36 \<and> map_tables m \<subseteq> Q"
    using ms by (auto simp: ns(5) Q_def boot_tables_def)
  from share_all [OF ns(1) stk this, of f h] obtain s' where
    sh: "for_range 0 (vector_len (global_mem_map ?t)) 1 (share_map f h as) ?t = Some s'" "mapping_step as ?t s'"
      "translate (ram s') root = fold apply_map (mem_maps s) (\<lambda>_. None)"
    by (auto simp: ns(2,3,5))
  have upd: "s1\<lparr>ram := ram s1\<rparr> = s1" by simp
  have "create_address_space func f h s = Some (as, s')"
    using sh(1) nz \<open>root \<noteq> 0\<close> k2
    by (simp add: create_address_space_def k1 ns(10) upd Let_def blank_space_def)
  with sh(3) beside_step [OF ns(1) sh(2)] mapping_stepD(2,6) [OF sh(2)] show ?thesis
    by (intro exI [of _ as] exI [of _ s']) (simp add: ns(2,5,6,9,11))
qed

end
