(* ===== verification/Memory_Properties.thy ===== *)
theory Memory_Properties
  imports Shared_Space
begin

text \<open>
  The properties of the memory manager, each applied to a small machine: eight pages of
  physical memory, the bitmap in page 0, pages 1 to 7 free, page tables further up.
\<close>

section \<open>A small machine\<close>

definition small_table :: "nat \<Rightarrow> u64" where
  "small_table k = PHYS_TO_VIRT (of_nat (100 + k) * 0x1000)"

definition small_boot_ram :: mem where
  "small_boot_ram = (\<lambda>a. 0)(MEM_VIRT_OFFSET := 0xFE)"

definition small_ram :: mem where
  "small_ram =
     store64 (entry_addr (small_table 2) 0) (0x67007)
       (store64 (entry_addr (small_table 1) 0) (0x66007)
         (store64 (entry_addr (small_table 0) 0) (0x65007) small_boot_ram))"

definition small_machine :: kstate where
  "small_machine =
     \<lparr>ram = small_ram,
      kmem = \<lparr>physical_limit = 0x8000, total_size = 0x8000, free_size = 0x7000, bitmap = MEM_VIRT_OFFSET\<rparr>,
      global_mem_map = \<lparr>vlength = 0, vcapacity = 0, vdata = 0\<rparr>,
      kernel_addr_space = \<lparr>pml4 = small_table 0,
         memory_list = \<lparr>vlength = 0, vcapacity = 0, vdata = 0\<rparr>, as_lock = \<lparr>lk_rflags = 0, lk_lock = 0\<rparr>\<rparr>,
      kmalloc_checkno = 0, cr3 = 0x64000, invlpg_log = []\<rparr>"

lemma small_state [simp]:
  "ram small_machine = small_ram" "physical_limit (kmem small_machine) = 0x8000"
  "bitmap (kmem small_machine) = MEM_VIRT_OFFSET" "free_size (kmem small_machine) = 0x7000"
  "kmalloc_checkno small_machine = 0" "cr3 small_machine = 0x64000" "invlpg_log small_machine = []"
  by (simp_all add: small_machine_def)

lemma small_guard: "guard_page small_machine = 8"
  by (simp add: guard_page_def)

lemma small_table_unat:
  assumes "k < 4"
  shows "unat (VIRT_TO_PHYS (small_table k)) = (100 + k) * 4096"
proof -
  have "VIRT_TO_PHYS (small_table k) = of_nat ((100 + k) * 4096)"
    by (simp add: small_table_def)
  then have "unat (VIRT_TO_PHYS (small_table k)) = unat (of_nat ((100 + k) * 4096) :: u64)"
    by (simp only:)
  also have "\<dots> = (100 + k) * 4096" by (rule unat_of_nat64) (use assms in simp)
  finally show ?thesis .
qed

lemma small_table [simp]:
  assumes "k < 4"
  shows "aligned (small_table k)" "frame_of (small_table k) = 100 + k"
  using small_table_unat [OF assms] by (simp_all add: aligned_def page_no_def)

lemma small_ram_low:
  assumes "frame_of a < 100"
  shows "small_ram a = (if a = MEM_VIRT_OFFSET then 0xFE else 0)"
proof -
  have "\<not> in_range (entry_addr (small_table k) 0) 8 a" if "k < 4" for k
    using entry_byte [of "small_table k" 0 a] small_table [OF that] assms by auto
  from this [of 0] this [of 1] this [of 2] show ?thesis
    by (simp add: small_ram_def small_boot_ram_def store_le_apply)
qed

lemma small_bitmap_byte:
  assumes "k < 8"
  shows "frame_of (MEM_VIRT_OFFSET + of_nat k) = 0"
    and "small_ram (MEM_VIRT_OFFSET + of_nat k) = (if k = 0 then 0xFE else 0)"
proof -
  have u: "unat (of_nat k :: u64) = k" using assms by (intro unat_of_nat64) simp
  show f: "frame_of (MEM_VIRT_OFFSET + of_nat k) = 0"
    using assms u by (simp add: VIRT_TO_PHYS_def page_no_def)
  have "k = 0" if "(of_nat k :: u64) = 0" using u [unfolded that] by simp
  then have "(of_nat k :: u64) = 0 \<longleftrightarrow> k = 0" by auto
  then have z: "MEM_VIRT_OFFSET + of_nat k = MEM_VIRT_OFFSET \<longleftrightarrow> k = 0" by (simp only: add_cancel_left_right)
  have "frame_of (MEM_VIRT_OFFSET + of_nat k) < 100" unfolding f by simp
  from small_ram_low [OF this] show "small_ram (MEM_VIRT_OFFSET + of_nat k) = (if k = 0 then 0xFE else 0)"
    unfolding z .
qed

lemma small_page_free: "p < 64 \<Longrightarrow> page_free small_machine p \<longleftrightarrow> p \<in> {1..<8}"
proof -
  assume p: "p < 64"
  have e: "(0xFE :: u8) = NOT 1" by simp
  have "bit (0xFE :: u8) (p mod 8) \<longleftrightarrow> 1 \<le> p mod 8"
    unfolding e by (auto simp: bit_simps)
  then show ?thesis
    using p small_bitmap_byte(2) [of "p div 8"] by (auto simp: page_free_def)
qed

lemma small_avail: "avail small_machine = {1..<8}"
  using small_page_free by (auto simp: avail_alt small_guard)

lemma small_bitmap_frames: "bitmap_frames small_machine = {0}"
  using small_bitmap_byte(1) by (auto simp: bitmap_frames_def small_guard intro!: image_eqI [of _ _ 0])

lemma small_alloc_ok: "alloc_ok small_machine"
  by (simp add: alloc_ok_def small_guard small_page_free small_avail small_bitmap_frames)

lemma small_kmalloc:
  assumes "unat bytes \<le> 4096"
  shows "\<exists>v s'. kmalloc_impl bytes func line small_machine = Some (v, s')"
proof (rule ccontr)
  assume "\<not> ?thesis"
  then have none: "kmalloc_impl bytes func line small_machine = None" by (metis not_Some_eq surj_pair)
  have b: "unat bytes \<le> 2 ^ 47" using assms by simp
  have "(unat bytes + 4095) div 4096 \<le> (4096 + 4095) div 4096"
    using assms by (intro div_le_mono) simp
  then have n: "unat (NUM_PAGES bytes + 1) \<le> 2"
    unfolding NUM_PAGES_small(1) [OF b] by simp
  have "1 < candidates 0 small_machine" by (simp add: candidates_less)
  moreover have "run (of_nat 1 * 4096) (NUM_PAGES bytes + 1) \<subseteq> free_pages small_machine"
  proof
    fix q assume "q \<in> run (of_nat 1 * 4096) (NUM_PAGES bytes + 1)"
    then have "q \<in> avail small_machine" using n by (auto simp: run_def page_no_def small_avail)
    then show "q \<in> free_pages small_machine" by (simp add: avail_def)
  qed
  ultimately show False using none kmalloc_None_iff [OF small_alloc_ok b] by blast
qed

lemma small_kmalloc_100: "\<exists>v s'. kmalloc_impl 100 0 0 small_machine = Some (v, s')"
  by (rule small_kmalloc) simp

text \<open>The page tables of the small machine: one chain from the root at index 0.\<close>

lemma small_table_inj [simp]:
  assumes "k < 4" and "l < 4"
  shows "small_table k = small_table l \<longleftrightarrow> k = l"
  using small_table(2) [OF assms(1)] small_table(2) [OF assms(2)] add_left_cancel [of 100 k l] by metis

lemma small_entry:
  assumes "k < 4" and "i < 512"
  shows "load64 (entry_addr (small_table k) i) small_ram =
    (if i = 0 \<and> k < 3 then of_nat (101 + k) * 0x1000 + 7 else 0)"
proof -
  have zero: "load64 (entry_addr (small_table k) i) small_boot_ram = 0"
  proof (rule load_le_zero)
    fix x assume "in_range (entry_addr (small_table k) i) 8 x"
    from entry_byte [OF small_table(1) [OF assms(1)] assms(2) this]
    have x: "frame_of x = 100 + k" unfolding small_table(2) [OF assms(1)] .
    have "frame_of MEM_VIRT_OFFSET = 0" by (simp add: VIRT_TO_PHYS_def page_no_def)
    with x have "x \<noteq> MEM_VIRT_OFFSET" by auto
    then show "small_boot_ram x = 0" by (simp add: small_boot_ram_def)
  qed simp
  have eq: "load64 (entry_addr (small_table k) i) small_ram =
      (if k = 2 \<and> i = 0 then 0x67007 else if k = 1 \<and> i = 0 then 0x66007 else if k = 0 \<and> i = 0 then 0x65007 else 0)"
    unfolding small_ram_def using assms zero
    by (simp add: load_entry_store)
  consider "k = 0" | "k = 1" | "k = 2" | "k = 3" using assms(1) by linarith
  then show ?thesis using eq by cases simp_all
qed

lemma small_next: "k < 3 \<Longrightarrow> table_of (of_nat (101 + k) * 0x1000 + 7) = small_table (Suc k)"
proof -
  assume "k < 3"
  then consider "k = 0" | "k = 1" | "k = 2" by linarith
  then show ?thesis by cases (simp_all add: table_of_def small_table_def)
qed

lemma small_descend:
  "k + List.length p \<le> 3 \<Longrightarrow> \<forall>i \<in> set p. i < 512 \<Longrightarrow>
   descend small_ram (small_table k) p =
     (if \<forall>i \<in> set p. i = 0 then Some (small_table (k + List.length p)) else None)"
proof (induction p arbitrary: k)
  case (Cons i p)
  have e: "load64 (entry_addr (small_table k) i) small_ram = (if i = 0 then of_nat (101 + k) * 0x1000 + 7 else 0)"
    using small_entry [of k i] Cons.prems by simp
  show ?case
  proof (cases "i = 0")
    case True
    have "k < 3" using Cons.prems by simp
    then consider "k = 0" | "k = 1" | "k = 2" by linarith
    then have "present (of_nat (101 + k) * 0x1000 + 7)"
      by cases (simp_all add: present_def)
    with True Cons.IH [of "Suc k"] Cons.prems e small_next [OF \<open>k < 3\<close>] show ?thesis by simp
  next
    case False
    with e show ?thesis by (simp add: present_def)
  qed
qed simp

lemma small_tree: "tree small_ram (small_table 0)"
  unfolding tree_def
proof (intro conjI allI impI)
  fix p q t u
  assume a: "short p \<and> short q \<and> descend small_ram (small_table 0) p = Some t \<and>
    descend small_ram (small_table 0) q = Some u \<and> frame_of t = frame_of u"
  then have lp: "List.length p \<le> 3" "List.length q \<le> 3" by (simp_all add: short_def)
  from a have d: "\<forall>i \<in> set p. i = 0" "\<forall>i \<in> set q. i = 0" "t = small_table (List.length p)" "u = small_table (List.length q)"
    using small_descend [of 0 p] small_descend [of 0 q] by (auto simp: short_def split: if_splits)
  have "List.length p = List.length q"
    using a d lp small_table(2) [of "List.length p"] small_table(2) [of "List.length q"] by simp
  then show "p = q" using d(1,2) replicate_length_same [of p 0] replicate_length_same [of q 0] by metis
qed simp

lemma small_table_frames: "table_frames small_ram (small_table 0) \<subseteq> {100..<104}"
  using small_descend [of 0] by (auto simp: table_frames_def short_def split: if_splits)

lemma small_as:
  "as_pml4 0 small_machine = small_table 0"
  "as_list 0 small_machine = \<lparr>vlength = 0, vcapacity = 0, vdata = 0\<rparr>"
  by (simp_all add: as_pml4_def as_list_def small_machine_def)

lemma small_as_ok: "as_ok 0 small_machine"
proof -
  have v: "vec_frames \<lparr>vlength = 0, vcapacity = 0, vdata = 0\<rparr> = {}"
    by (simp add: vec_frames_def opt_frames_def)
  have "busy_frames 0 small_machine = {0..<8}"
    by (auto simp: busy_frames_def small_avail small_bitmap_frames small_as v as_frames_def)
  then have "table_frames small_ram (small_table 0) \<inter> busy_frames 0 small_machine = {}"
    using small_table_frames by fastforce
  then show ?thesis
    by (simp add: as_ok_def list_ok_def small_as v small_alloc_ok small_tree as_frames_def vec_ok_def opt_block_def
        as_len_def)
qed

section \<open>Physical pages\<close>

text \<open>
  C7. \<^verbatim>\<open>pm_get\<close> is first fit: it returns the lowest candidate address whose run of
  pages is free and takes exactly that run; it fails (the machine halts) only when no
  candidate below the physical limit has a free run.
\<close>

theorem pm_get_first_fit_correct:
  assumes "room s n"
  shows "case pm_get n a s of
      None \<Rightarrow> \<forall>k < candidates a s. \<not> run (a + of_nat k * 4096) n \<subseteq> free_pages s
    | Some (r, s') \<Rightarrow> (\<exists>m. first_fit n a s m \<and> r = a + of_nat m * 4096) \<and>
        free_pages s' = free_pages s - run r n \<and>
        free_size (kmem s') = free_size (kmem s) - n * PAGE_SIZE"
proof (cases "pm_get n a s")
  case None
  then have "\<forall>k < candidates a s. \<not> run (a + of_nat k * 4096) n \<subseteq> free_pages s"
    using pm_get_None_iff [OF assms] by blast
  with None show ?thesis by simp
next
  case (Some x)
  obtain r s' where x: "x = (r, s')" by fastforce
  with Some obtain m where "first_fit n a s m" "r = a + of_nat m * 4096" "s' = taken r n s"
    using pm_get_SomeE [OF assms] by metis
  moreover have "fits r n" using pm_get_SomeD(1) [OF assms] Some x by metis
  ultimately show ?thesis using Some x free_pages_taken [of r n s] by (auto simp: taken_def)
qed

lemma small_room: "unat n \<le> 100 \<Longrightarrow> room small_machine n"
  by (simp add: room_def)

theorem pm_get_first_fit_correct_witness:
  "case pm_get 2 0 small_machine of
      None \<Rightarrow> \<forall>k < candidates 0 small_machine. \<not> run (0 + of_nat k * 4096) 2 \<subseteq> free_pages small_machine
    | Some (r, s') \<Rightarrow> (\<exists>m. first_fit 2 0 small_machine m \<and> r = 0 + of_nat m * 4096) \<and>
        free_pages s' = free_pages small_machine - run r 2 \<and>
        free_size (kmem s') = free_size (kmem small_machine) - 2 * PAGE_SIZE"
  by (rule pm_get_first_fit_correct) (simp add: small_room)

text \<open>
  C14. Freeing what \<^verbatim>\<open>pm_get\<close> returned restores the machine exactly: bitmap, counter
  and every other byte, with status \<^verbatim>\<open>SYS_OK\<close>.
\<close>

theorem pm_get_free_roundtrip:
  assumes "room s n" and "pm_get n a s = Some (r, s')"
  shows "pm_free r n s' = Some (SYS_OK, s)"
proof -
  note g = pm_get_SomeD [OF assms]
  show ?thesis using pm_free_taken [OF g(1,2)] by (simp only: g(3))
qed

lemma small_pm_get: "\<exists>r s'. pm_get 1 0 small_machine = Some (r, s')"
proof (rule ccontr)
  assume "\<not> ?thesis"
  then have none: "pm_get 1 0 small_machine = None" by (cases "pm_get 1 0 small_machine") auto
  have r: "room small_machine 1" by (rule small_room) simp
  have c: "1 < candidates 0 small_machine" by (simp add: candidates_less)
  have "run (0 + of_nat 1 * 4096) 1 \<subseteq> avail small_machine"
    by (auto simp: run_def page_no_def small_avail)
  then have "run (0 + of_nat 1 * 4096) 1 \<subseteq> free_pages small_machine"
    by (auto simp: avail_def)
  with c none pm_get_None_iff [OF r, of 0] show False by blast
qed

theorem pm_get_free_roundtrip_witness:
  "\<exists>r s'. pm_get 1 0 small_machine = Some (r, s') \<and> pm_free r 1 s' = Some (SYS_OK, small_machine)"
proof -
  obtain r s' where "pm_get 1 0 small_machine = Some (r, s')" using small_pm_get by blast
  with pm_get_free_roundtrip [OF small_room [of 1] this] show ?thesis by auto
qed

text \<open>
  C15. The free-size counter is exact: if it is 4096 times the number of free pages, it still
  is after \<^verbatim>\<open>pm_get\<close> and after \<^verbatim>\<open>pm_free\<close> of any run, double frees included.
\<close>

theorem free_size_exact:
  assumes "room s n" and "fits a n" and "accounted s"
  shows "(\<forall>b r s'. pm_get n b s = Some (r, s') \<longrightarrow> accounted s') \<and>
    (\<forall>st s'. pm_free a n s = Some (st, s') \<longrightarrow> accounted s')"
proof (intro conjI allI impI)
  fix b r s' assume "pm_get n b s = Some (r, s')"
  note g = pm_get_SomeD [OF assms(1) this]
  show "accounted s'" unfolding g(3) by (rule accounted_taken [OF g(1,2) assms(3)])
next
  fix st s' assume "pm_free a n s = Some (st, s')"
  then show "accounted s'" using pm_free_eq [OF assms(2), of s] accounted_released [OF assms(2,3)] by auto
qed

theorem free_size_exact_witness:
  "\<exists>st s'. pm_free 0x1000 3 (small_machine\<lparr>ram := \<lambda>_. 0, kmem := (kmem small_machine)\<lparr>free_size := 0\<rparr>\<rparr>)
     = Some (st, s') \<and> accounted s' \<and> free_size (kmem s') = 3 * PAGE_SIZE"
proof -
  let ?s = "small_machine\<lparr>ram := \<lambda>_. 0, kmem := (kmem small_machine)\<lparr>free_size := 0\<rparr>\<rparr>"
  have none: "free_pages ?s = {}" by (simp add: free_pages_def page_free_def)
  then have a: "accounted ?s" by (simp add: accounted_def)
  have f: "room ?s 3" "fits 0x1000 3" by (simp_all add: room_def fits_def)
  obtain st s' where r: "pm_free 0x1000 3 ?s = Some (st, s')" using pm_free_eq [OF f(2), of ?s] by auto
  with free_size_exact [OF f a] have "accounted s'" by blast
  moreover from this have "free_size (kmem s') = 3 * PAGE_SIZE"
    using pm_free_eq [OF f(2), of ?s] free_pages_released [OF f(2), of ?s] r none
    by (simp add: accounted_def released_def run_def card_image)
  ultimately show ?thesis using r by blast
qed

text \<open>
  C5. Any sequence of page requests and returns leaves the client with pairwise disjoint
  runs, disjoint from the free pages, and loses no page.
\<close>

theorem pm_requests_disjoint:
  assumes "\<forall>n. Get n \<in> set rs \<longrightarrow> room s n"
    and "serve_all (\<lambda>n. pm_get n 0) pm_put rs ([], s) = Some (live, s')"
  shows "pairwise_disjoint (map (\<lambda>(a, n). run a n) live) \<and>
    free_pages s' \<union> \<Union> ((\<lambda>(a, n). run a n) ` set live) = free_pages s \<and>
    free_pages s' \<inter> \<Union> ((\<lambda>(a, n). run a n) ` set live) = {}"
  using pm.serve_all_sound [OF TrueI assms] by blast

theorem pm_requests_disjoint_witness:
  "\<exists>live s'. serve_all (\<lambda>n. pm_get n 0) pm_put [Get 1] ([], small_machine) = Some (live, s') \<and>
    free_pages s' \<union> \<Union> ((\<lambda>(a, n). run a n) ` set live) = free_pages small_machine"
proof -
  obtain r s' where get: "pm_get 1 0 small_machine = Some (r, s')" using small_pm_get by blast
  have "\<forall>n. Get n \<in> set [Get 1] \<longrightarrow> room small_machine n" using small_room [of 1] by simp
  moreover have s: "serve_all (\<lambda>n. pm_get n 0) pm_put [Get 1] ([], small_machine) = Some ([(r, 1)], s')"
    by (simp add: get)
  ultimately show ?thesis using pm_requests_disjoint [of "[Get 1]" small_machine "[(r, 1)]" s'] by blast
qed

text \<open>
  C8. \<^verbatim>\<open>pm_init\<close> on a sane memory map returns with the bitmap in the first usable
  entry that holds it; for every page the cleared bitmap covers, the page is free exactly when
  a usable entry above 1 MB contains it and it is not one of the bitmap's own pages.
\<close>

theorem pm_init_correct:
  assumes "sane_map es e0" and "unat (map_bytes es) \<le> 2 ^ 49"
  shows "\<exists>s'. pm_init (Some es) s = Some s' \<and>
    bitmap (kmem s') = PHYS_TO_VIRT (me_base e0) \<and> physical_limit (kmem s') = booted_limit es \<and>
    (\<forall>p. p div 8 < unat (map_bytes es) \<and> p < 2 ^ 52 \<longrightarrow>
       (page_free s' p \<longleftrightarrow> (\<exists>e \<in> set es. pooled e \<and> p \<in> entry_pages e) \<and>
          p \<notin> run (me_base e0) (NUM_PAGES (map_bytes es)))) \<and>
    run (me_base e0) (NUM_PAGES (map_bytes es)) \<inter> free_pages s' = {}"
proof -
  let ?nb = "map_bytes es" and ?B = "run (me_base e0) (NUM_PAGES (map_bytes es))"
  let ?s0 = "cleared_state es e0 s"
  from pm_init_eq [OF assms(1), of s] obtain t where t: "fits (me_base e0) (NUM_PAGES ?nb)"
    "pm_init (Some es) s = Some (taken (me_base e0) (NUM_PAGES ?nb) t)"
    "free_pages t = free_pages ?s0 \<union> \<Union> (entry_pages ` {e \<in> set es. pooled e})"
    "bitmap (kmem t) = PHYS_TO_VIRT (me_base e0)" "physical_limit (kmem t) = booted_limit es" by blast
  define s' where "s' = taken (me_base e0) (NUM_PAGES ?nb) t"
  have f: "free_pages s' = free_pages t - ?B" by (simp add: s'_def free_pages_taken [OF t(1)])
  have *: "p \<notin> free_pages ?s0" if "p div 8 < unat ?nb" for p
    using free_pages_cleared [OF assms(2), where s = s and K = "kmem ?s0"] that by (simp add: cleared_state_def)
  have "page_free s' p \<longleftrightarrow> (\<exists>e \<in> set es. pooled e \<and> p \<in> entry_pages e) \<and> p \<notin> ?B"
    if "p div 8 < unat ?nb" "p < 2 ^ 52" for p
  proof -
    have "page_free s' p \<longleftrightarrow> p \<in> free_pages s'" using that(2) by (simp add: free_pages_def)
    then show ?thesis using * [OF that(1)] by (simp add: f t(3)) blast
  qed
  moreover have "bitmap (kmem s') = PHYS_TO_VIRT (me_base e0)" "physical_limit (kmem s') = booted_limit es"
    using t(4,5) by (simp_all add: s'_def taken_def)
  ultimately show ?thesis using t(2) f by (auto simp: s'_def)
qed

definition small_map :: "memmap_entry list" where
  "small_map = [\<lparr>me_base = 0, me_length = 0x9F000, me_type = LIMINE_MEMMAP_USABLE\<rparr>,
     \<lparr>me_base = 0x100000, me_length = 0x700000, me_type = LIMINE_MEMMAP_USABLE\<rparr>,
     \<lparr>me_base = 0x800000, me_length = 0x800000, me_type = LIMINE_MEMMAP_RESERVED\<rparr>]"

lemma small_map_bytes: "map_bytes small_map = 256"
proof -
  have "{e \<in> set small_map. ENTRY_TYPE_CHECK e} =
      {\<lparr>me_base = 0, me_length = 0x9F000, me_type = LIMINE_MEMMAP_USABLE\<rparr>,
       \<lparr>me_base = 0x100000, me_length = 0x700000, me_type = LIMINE_MEMMAP_USABLE\<rparr>}"
    by (auto simp: small_map_def ENTRY_TYPE_CHECK_def)
  then have "booted_limit small_map = 0x800000" by (simp add: booted_limit_def max_def)
  then show ?thesis by (simp add: map_bytes_def)
qed

lemma small_map_sane: "sane_map small_map \<lparr>me_base = 0x100000, me_length = 0x700000, me_type = LIMINE_MEMMAP_USABLE\<rparr>"
proof -
  have "NUM_PAGES 0x700000 = 0x700" by (simp add: NUM_PAGES_def)
  then show ?thesis
    unfolding sane_map_def small_map_bytes
    by (simp add: small_map_def pooled_def low_entry_def fits_def bitmap_fits_in_def)
qed

theorem pm_init_correct_witness:
  "\<exists>s'. pm_init (Some small_map) small_machine = Some s' \<and> physical_limit (kmem s') = booted_limit small_map \<and>
     page_free s' 0x200"
proof -
  have "unat (map_bytes small_map) \<le> 2 ^ 49" by (simp add: small_map_bytes)
  from pm_init_correct [OF small_map_sane this, of small_machine] obtain s' where s':
    "pm_init (Some small_map) small_machine = Some s'" "physical_limit (kmem s') = booted_limit small_map"
    "\<And>p. p div 8 < 256 \<Longrightarrow> p < 2 ^ 52 \<Longrightarrow> page_free s' p \<longleftrightarrow>
       (\<exists>e \<in> set small_map. pooled e \<and> p \<in> entry_pages e) \<and> p \<notin> run 0x100000 (NUM_PAGES 256)"
    by (auto simp: small_map_bytes)
  have "0x200 \<in> entry_pages \<lparr>me_base = 0x100000, me_length = 0x700000, me_type = LIMINE_MEMMAP_USABLE\<rparr>"
    by (simp add: entry_pages_def run_def NUM_PAGES_def page_no_def)
  then have "page_free s' 0x200"
    by (subst s'(3)) (simp_all add: small_map_def pooled_def low_entry_def run_def NUM_PAGES_def page_no_def)
  with s' show ?thesis by blast
qed

section \<open>The heap\<close>

text \<open>
  C9. \<^verbatim>\<open>kmalloc\<close> returns a zeroed payload in pages that were free and nobody's, with
  intact metadata, keeps the allocator well formed, and writes nothing outside its block and
  the page bitmap.
\<close>

theorem kmalloc_correct:
  assumes "alloc_ok s" and "unat bytes \<le> 2 ^ 47" and "kmalloc_impl bytes func line s = Some (v, s')"
  shows "heap_block v bytes s' \<and> alloc_ok s' \<and> block_frames v bytes \<subseteq> avail s \<and>
    avail s' = avail s - block_frames v bytes \<and>
    only_changes (bitmap_frames s \<union> block_frames v bytes) s s' \<and>
    (\<forall>a. in_range v (unat bytes) a \<longrightarrow> ram s' a = 0) \<and> v \<noteq> 0"
  using kmalloc_spec [OF assms] heap_block_nonzero by blast

theorem kmalloc_correct_witness:
  "\<exists>v s'. kmalloc_impl 100 0 0 small_machine = Some (v, s') \<and> heap_block v 100 s' \<and> v \<noteq> 0"
proof -
  obtain v s' where k: "kmalloc_impl 100 0 0 small_machine = Some (v, s')"
    using small_kmalloc_100 by blast
  have "unat (100 :: u64) \<le> 2 ^ 47" by simp
  from kmalloc_correct [OF small_alloc_ok this k] k show ?thesis by blast
qed

text \<open>
  C11. \<^verbatim>\<open>kfree\<close> of a live block always returns and gives back exactly its pages; freeing
  the same address again changes nothing, because the magic number is gone.
\<close>

theorem kfree_correct:
  assumes "alloc_ok s" and "heap_block v bytes s"
  shows "\<exists>s'. kfree_impl v s = Some s' \<and> alloc_ok s' \<and> avail s' = avail s \<union> block_frames v bytes \<and>
    only_changes (bitmap_frames s \<union> block_frames v bytes) s s' \<and> kfree_impl v s' = Some s'"
proof -
  obtain s' where s': "kfree_impl v s = Some s'" "alloc_ok s'" "avail s' = avail s \<union> block_frames v bytes"
    "only_changes (bitmap_frames s \<union> block_frames v bytes) s s'" "load64 (v - PAGE_SIZE) (ram s') = 0"
    using kfree_spec [OF assms] by blast
  have "kfree_impl v s' = Some s'" by (rule kfree_bad) (simp add: s'(5))
  with s' show ?thesis by blast
qed

theorem kfree_correct_witness:
  "\<exists>v s s'. kmalloc_impl 100 0 0 small_machine = Some (v, s) \<and> kfree_impl v s = Some s' \<and>
     avail s' = avail small_machine"
proof -
  obtain v s where k: "kmalloc_impl 100 0 0 small_machine = Some (v, s)"
    using small_kmalloc_100 by blast
  have "unat (100 :: u64) \<le> 2 ^ 47" by simp
  note m = kmalloc_spec [OF small_alloc_ok this k]
  from kfree_correct [OF m(2,1)] obtain s' where "kfree_impl v s = Some s'"
    "avail s' = avail s \<union> block_frames v 100" by blast
  moreover have "avail s \<union> block_frames v 100 = avail small_machine" using m(3,4) by blast
  ultimately show ?thesis using k by metis
qed

text \<open>
  C10. \<^verbatim>\<open>krealloc\<close> keeps the contents up to the smaller of the two sizes, whether the
  block stays or moves, returns a live block of the new size, and frees the old pages.
\<close>

theorem krealloc_correct:
  assumes "alloc_ok s" and "opt_block v old s" and "unat bytes \<le> 2 ^ 47"
    and "krealloc_impl v bytes func line s = Some (w, s')"
  shows "alloc_ok s' \<and> heap_block w bytes s' \<and>
    (\<forall>i < min (unat old) (unat bytes). ram s' (w + of_nat i) = ram s (v + of_nat i)) \<and>
    avail s' = (avail s \<union> opt_frames v old) - block_frames w bytes \<and>
    only_changes (bitmap_frames s \<union> opt_frames v old \<union> block_frames w bytes) s s'"
  using krealloc_spec [OF assms] by blast

theorem krealloc_correct_witness:
  "\<exists>v s w s'. kmalloc_impl 100 0 0 small_machine = Some (v, s) \<and>
     krealloc_impl v 200 0 0 s = Some (w, s') \<and> heap_block w 200 s' \<and> alloc_ok s'"
proof -
  obtain v s where k: "kmalloc_impl 100 0 0 small_machine = Some (v, s)"
    using small_kmalloc_100 by blast
  have "unat (100 :: u64) \<le> 2 ^ 47" by simp
  note m = kmalloc_spec [OF small_alloc_ok this k]
  have ob: "opt_block v 100 s" using m(1) heap_block_nonzero [OF m(1,2)] by (simp add: opt_block_def)
  have le: "unat (200 :: u64) \<le> 2 ^ 47" by simp
  have "NUM_PAGES 100 = NUM_PAGES 200" by (simp add: NUM_PAGES_def)
  with krealloc_in_place [OF m(2,1) le] obtain s' where r: "krealloc_impl v 200 0 0 s = Some (v, s')"
    by blast
  from krealloc_correct [OF m(2) ob le r] k r show ?thesis by blast
qed

text \<open>
  C6. Any sequence of \<^verbatim>\<open>kmalloc\<close> and \<^verbatim>\<open>kfree\<close> of live blocks leaves live blocks
  that are intact, pairwise disjoint and disjoint from the free pages; no page is lost and the
  allocator stays well formed.
\<close>

theorem heap_requests_disjoint:
  assumes "alloc_ok s" and "\<forall>n. Get n \<in> set rs \<longrightarrow> unat n \<le> 2 ^ 47"
    and "serve_all (\<lambda>n. kmalloc_impl n func line) (\<lambda>v n. kfree_impl v) rs ([], s) = Some (live, s')"
  shows "pairwise_disjoint (map (\<lambda>(v, n). block_frames v n) live) \<and>
    (\<forall>(v, n) \<in> set live. heap_block v n s') \<and>
    avail s' \<union> \<Union> ((\<lambda>(v, n). block_frames v n) ` set live) = avail s \<and> alloc_ok s'"
  using heap.serve_all_sound [OF assms] by blast

theorem heap_requests_disjoint_witness:
  "\<exists>live s'. serve_all (\<lambda>n. kmalloc_impl n 0 0) (\<lambda>v n. kfree_impl v) [Get 100, Put 0] ([], small_machine)
      = Some (live, s') \<and> alloc_ok s' \<and>
    avail s' \<union> \<Union> ((\<lambda>(v, n). block_frames v n) ` set live) = avail small_machine"
proof -
  obtain v s where k: "kmalloc_impl 100 0 0 small_machine = Some (v, s)"
    using small_kmalloc_100 by blast
  have "unat (100 :: u64) \<le> 2 ^ 47" by simp
  note m = kmalloc_spec [OF small_alloc_ok this k]
  from kfree_spec [OF m(2,1)] obtain s' where f: "kfree_impl v s = Some s'" by blast
  have "serve_all (\<lambda>n. kmalloc_impl n 0 0) (\<lambda>v n. kfree_impl v) [Get 100, Put 0] ([], small_machine)
      = Some ([], s')" by (simp add: k f)
  moreover have "\<forall>n. Get n \<in> set [Get 100, Put 0] \<longrightarrow> unat n \<le> 2 ^ 47" by simp
  ultimately show ?thesis using heap_requests_disjoint [OF small_alloc_ok] by blast
qed

section \<open>Vectors\<close>

text \<open>
  C12. Appending to a vector of 64-bit values: the vector stands for the old list with the
  element at the end, through a reallocation or not, and nothing outside its blocks and the
  page bitmap changes.
\<close>

theorem vector_append_correct:
  assumes "alloc_ok s" and "vec_ok 8 v s" and "(unat (vlength v) + 1) * 32 \<le> 2 ^ 47"
    and "vector_append 8 (\<lambda>a x m. store64 a x m) func line v e s = Some (v', s')"
  shows "vec_ok 8 v' s' \<and> alloc_ok s' \<and>
    vec_elems 8 (\<lambda>a m. load64 a m) v' (ram s') = vec_elems 8 (\<lambda>a m. load64 a m) v (ram s) @ [e] \<and>
    only_changes (bitmap_frames s \<union> vec_frames v \<union> vec_frames v') s s'"
proof -
  have "(unat (vlength v) + 1) * unat (8 :: u64) * 4 \<le> 2 ^ 47" using assms(3) by simp
  from u64_vec.append_spec [OF assms(1,2) this assms(4)] show ?thesis by blast
qed

theorem vector_append_correct_witness:
  "\<exists>v' s'. vector_append 8 (\<lambda>a x m. store64 a x m) 0 0 \<lparr>vlength = 0, vcapacity = 0, vdata = 0\<rparr> 42 small_machine
      = Some (v', s') \<and> vec_elems 8 (\<lambda>a m. load64 a m) v' (ram s') = [42]"
proof -
  let ?v = "\<lparr>vlength = 0, vcapacity = 0, vdata = 0\<rparr> :: vec"
  have "unat (32 :: u64) \<le> 4096" by simp
  then obtain p t where "kmalloc_impl 32 0 0 small_machine = Some (p, t)" using small_kmalloc by blast
  then obtain v' s' where a: "vector_append 8 (\<lambda>a x m. store64 a x m) 0 0 ?v 42 small_machine = Some (v', s')"
    by (auto simp: vector_append_def krealloc_impl_def Let_def)
  have "vec_ok 8 ?v small_machine" "(unat (vlength ?v) + 1) * 32 \<le> 2 ^ 47"
    by (simp_all add: vec_ok_def opt_block_def)
  from vector_append_correct [OF small_alloc_ok this a] a show ?thesis
    by (auto simp: vec_elems_def)
qed

text \<open>
  C16. \<^verbatim>\<open>vector_erase_value\<close> removes the first occurrence of the value, if there is
  one, and keeps the other elements in order.
\<close>

theorem vector_erase_value_correct:
  assumes "unat (vlength v) * 8 \<le> 2 ^ 47"
  shows "case vector_erase_value 8 (\<lambda>a m. load64 a m) v x m of (v', m') \<Rightarrow>
    vec_elems 8 (\<lambda>a m. load64 a m) v' m' = remove1 x (vec_elems 8 (\<lambda>a m. load64 a m) v m)"
proof -
  have "unat (vlength v) * unat (8 :: u64) \<le> 2 ^ 47" using assms by simp
  from u64_vec.erase_value_elems [OF this] show ?thesis by (auto split: prod.splits)
qed

theorem vector_erase_value_correct_witness:
  "case vector_erase_value 8 (\<lambda>a m. load64 a m) \<lparr>vlength = 3, vcapacity = 32, vdata = 0x1000\<rparr> 0 small_ram of
    (v', m') \<Rightarrow> vec_elems 8 (\<lambda>a m. load64 a m) v' m' =
      remove1 0 (vec_elems 8 (\<lambda>a m. load64 a m) \<lparr>vlength = 3, vcapacity = 32, vdata = 0x1000\<rparr> small_ram)"
  by (rule vector_erase_value_correct) simp

text \<open>
  C17. \<^verbatim>\<open>vector_erase\<close> copies too much: every byte from the last element's end up to
  \<open>index * 8 + 8 * length - index - 1\<close> is replaced by the byte eight further on, whoever owns
  it. With a full vector and a large index this reaches past the block.
\<close>

theorem vector_erase_overruns:
  assumes "i < vlength v" and "unat (vlength v) * 8 \<le> 2 ^ 47"
    and "8 * unat (vlength v) \<le> off" and "off < unat i * 8 + (8 * unat (vlength v) - unat i - 1)"
  shows "snd (vector_erase 8 v i m) (vdata v + of_nat off) = m (vdata v + of_nat (off + 8))"
proof -
  obtain v' m' where e: "vector_erase 8 v i m = (v', m')" by fastforce
  have small: "unat (vlength v) * unat (8 :: u64) \<le> 2 ^ 47" using assms(2) by simp
  have lt: "unat i < unat (vlength v)" using assms(1) by (simp add: word_less_nat_alt)
  have "off < 2 ^ 64" using assms(2,4) lt by simp
  then have u: "unat (vdata v + of_nat off - vdata v) = off" by (simp add: unat_of_nat64)
  have hi: "off < u64_vec.erase_end v (unat i)" using assms(4) by (simp add: u64_vec.erase_end_def)
  have "unat i * unat (8 :: u64) \<le> off" using lt assms(3) by simp
  then have "m' (vdata v + of_nat off) = m (vdata v + of_nat off + 8)"
    using u64_vec.erase_bytes(3) [OF assms(1) small e, of "vdata v + of_nat off"] u hi by simp
  then show ?thesis by (simp add: e add.assoc)
qed

theorem vector_erase_overruns_witness:
  "snd (vector_erase 8 \<lparr>vlength = 4, vcapacity = 32, vdata = 0x1000\<rparr> 3 small_ram) (0x1000 + of_nat 40)
    = small_ram (0x1000 + of_nat 48)"
  using vector_erase_overruns [of 3 "\<lparr>vlength = 4, vcapacity = 32, vdata = 0x1000\<rparr>" 40 small_ram] by simp

section \<open>Virtual memory\<close>

text \<open>
  C2. \<^verbatim>\<open>map_page_entry\<close> implements mapping for the processor's walk: the page of
  \<open>va\<close> translates to the new entry, every other page translates as before, the address space
  stays well formed (its tables a tree of distinct pages apart from free memory, the bitmap,
  the table list), only its own pages are written, and \<^verbatim>\<open>invlpg\<close> is executed exactly
  when the address space is the active one. The machine halts only when memory is short: no run
  of free pages for three more tables and their list, or physical page 0 in the pool.
\<close>

theorem map_page_entry_correct:
  assumes "as_ok as s"
  shows "case map_page_entry func as va pa flags s of
      None \<Rightarrow> 0 \<in> pool as s \<or>
        \<not> stock (3 * table_cost (card (table_paths (ram s) (as_pml4 as s)) + 3)) s
    | Some s' \<Rightarrow> as_ok as s' \<and> as_pml4 as s' = as_pml4 as s \<and>
        translate (ram s') (as_pml4 as s) va =
          (if present (mapped_entry pa flags) then Some (mapped_entry pa flags) else None) \<and>
        (\<forall>va'. \<not> same_page va va' \<longrightarrow>
          translate (ram s') (as_pml4 as s) va' = translate (ram s) (as_pml4 as s) va') \<and>
        only_changes (frames_of_as as s) s s' \<and>
        invlpg_log s' = (if cr3 s = VIRT_TO_PHYS (as_pml4 as s) then va # invlpg_log s else invlpg_log s)"
proof (cases "map_page_entry func as va pa flags s")
  case None
  have "\<exists>s'. map_page_entry func as va pa flags s = Some s'"
    if "0 \<notin> pool as s" "stock (3 * table_cost (card (table_paths (ram s) (as_pml4 as s)) + 3)) s"
    using map_page_entry_returns [OF assms that] .
  with None show ?thesis by auto
next
  case (Some s')
  from map_page_entry_spec [OF assms this] show ?thesis using Some by (auto simp: mapping_step_def)
qed

lemma small_map_page: "\<exists>s'. map_page_entry func 0 0 pa flags small_machine = Some s'"
proof (rule map_page_entry_present)
  have "va_path 0 = [0, 0, 0]"
    by (simp add: va_path_def pml4e_index_def pdpe_index_def pde_index_def)
  then show "descend (ram small_machine) (as_pml4 0 small_machine) (va_path 0) = Some (small_table 3)"
    using small_descend [of 0 "[0, 0, 0]"] by (simp add: small_as)
qed

theorem map_page_entry_correct_witness:
  "\<exists>s'. map_page_entry 0 0 0 0x5000 3 small_machine = Some s' \<and>
     translate (ram s') (small_table 0) 0 = Some 0x5003 \<and> invlpg_log s' = [0]"
proof -
  obtain s' where m: "map_page_entry 0 0 0 0x5000 3 small_machine = Some s'" using small_map_page by blast
  from map_page_entry_correct [OF small_as_ok, where func = 0 and va = 0 and pa = "0x5000" and flags = 3] show ?thesis
    by (auto simp: m small_as mapped_entry_def MAKE_TABLE_ENTRY_def present_def small_table_def)
qed

section \<open>A machine that starts up\<close>

text \<open>256 pages of memory with the bitmap in page 0; the loader reports them and the kernel.\<close>

definition wide_ram :: mem where
  "wide_ram = (\<lambda>a. if a = MEM_VIRT_OFFSET then 0xFE else if unat (VIRT_TO_PHYS a) < 32 then 0xFF else 0)"

definition wide_machine :: kstate where
  "wide_machine =
     \<lparr>ram = wide_ram,
      kmem = \<lparr>physical_limit = 0x100000, total_size = 0x100000, free_size = 0xFF000, bitmap = MEM_VIRT_OFFSET\<rparr>,
      global_mem_map = no_vec,
      kernel_addr_space = \<lparr>pml4 = 0, memory_list = no_vec, as_lock = LOCK_NEW\<rparr>,
      kmalloc_checkno = 0, cr3 = 0, invlpg_log = []\<rparr>"

definition wide_map :: "memmap_entry list" where
  "wide_map = [\<lparr>me_base = 0, me_length = 0x100000, me_type = LIMINE_MEMMAP_USABLE\<rparr>,
     \<lparr>me_base = 0x10000, me_length = 0x2000, me_type = LIMINE_MEMMAP_KERNEL_AND_MODULES\<rparr>]"

abbreviation wide_kernel :: "u64 \<times> u64" where
  "wide_kernel \<equiv> (0xFFFFFFFF80000000, 0x10000)"

lemma wide_state [simp]:
  "ram wide_machine = wide_ram" "physical_limit (kmem wide_machine) = 0x100000"
  "bitmap (kmem wide_machine) = MEM_VIRT_OFFSET" "global_mem_map wide_machine = no_vec"
  "memory_list (kernel_addr_space wide_machine) = no_vec"
  by (simp_all add: wide_machine_def)

lemma wide_guard: "guard_page wide_machine = 256"
  by (simp add: guard_page_def)

lemma wide_page_free: "p < 512 \<Longrightarrow> page_free wide_machine p \<longleftrightarrow> 1 \<le> p \<and> p < 256"
proof -
  assume p: "p < 512"
  have u: "unat (of_nat (p div 8) :: u64) = p div 8" using p by (intro unat_of_nat64) simp
  have v: "VIRT_TO_PHYS (MEM_VIRT_OFFSET + of_nat (p div 8)) = of_nat (p div 8)" by (simp add: VIRT_TO_PHYS_def)
  have "p div 8 = 0" if "(of_nat (p div 8) :: u64) = 0" using u [unfolded that] by simp
  then have "(of_nat (p div 8) :: u64) = 0 \<longleftrightarrow> p div 8 = 0" by auto
  then have z: "MEM_VIRT_OFFSET + of_nat (p div 8) = MEM_VIRT_OFFSET \<longleftrightarrow> p div 8 = 0"
    by (simp only: add_cancel_left_right)
  have byte: "page_free wide_machine p \<longleftrightarrow>
      bit (if p div 8 = 0 then 0xFE else if p div 8 < 32 then 0xFF else 0 :: u8) (p mod 8)"
    by (simp only: page_free_def wide_state wide_ram_def z v u)
  have e: "(0xFE :: u8) = NOT 1" "(0xFF :: u8) = NOT 0" by simp_all
  have fe: "bit (0xFE :: u8) k \<longleftrightarrow> 1 \<le> k" and ff: "bit (0xFF :: u8) k" if "k < 8" for k
    unfolding e using that by (auto simp: bit_simps)
  consider "p < 8" | "8 \<le> p" "p < 256" | "256 \<le> p" by linarith
  then show ?thesis
  proof cases
    case 1
    then have "p div 8 = 0" "p mod 8 = p" by simp_all
    then show ?thesis unfolding byte using 1 fe [of p] by simp
  next
    case 2
    then have "p div 8 \<noteq> 0" "p div 8 < 32" by (simp_all add: div_eq_0_iff div_less_iff_less_mult)
    then show ?thesis unfolding byte using 2 ff [of "p mod 8"] by simp
  next
    case 3
    then have "p div 8 \<noteq> 0" "\<not> p div 8 < 32" by (simp_all add: div_eq_0_iff div_less_iff_less_mult)
    then show ?thesis unfolding byte using 3 by simp
  qed
qed

lemma wide_avail: "avail wide_machine = {1..<256}"
  using wide_page_free by (auto simp: avail_alt wide_guard)

lemma wide_bitmap_frames: "bitmap_frames wide_machine \<subseteq> {0}"
proof -
  have "frame_of (MEM_VIRT_OFFSET + of_nat (p div 8)) = 0" if "p \<le> 256" for p
  proof -
    have "unat (of_nat (p div 8) :: u64) = p div 8" using that by (intro unat_of_nat64) simp
    then show ?thesis using that by (simp add: VIRT_TO_PHYS_def page_no_def)
  qed
  then show ?thesis by (auto simp: bitmap_frames_def wide_guard)
qed

lemma wide_alloc_ok: "alloc_ok wide_machine"
  using wide_bitmap_frames by (auto simp: alloc_ok_def wide_guard wide_page_free wide_avail)

text \<open>Six tables serve all the mappings of the start-up.\<close>

lemma wide_entries: "entry_maps wide_kernel wide_map =
    [\<lparr>mm_virt_addr = MEM_VIRT_OFFSET, mm_phys_addr = 0, mm_flags = 3, mm_num_pages = 256\<rparr>,
     \<lparr>mm_virt_addr = 0xFFFFFFFF80000000, mm_phys_addr = 0x10000, mm_flags = 3, mm_num_pages = 2\<rparr>]"
  by (simp add: entry_maps_def wide_map_def map_filter_simps entry_map_def vm_entry_action_def PHYS_TO_VIRT_def
      NUM_PAGES_def)

lemma wide_boot_maps: "boot_maps 0x100000 wide_kernel wide_map =
    [\<lparr>mm_virt_addr = MEM_VIRT_OFFSET, mm_phys_addr = 0, mm_flags = 7, mm_num_pages = 256\<rparr>,
     \<lparr>mm_virt_addr = MEM_VIRT_OFFSET, mm_phys_addr = 0, mm_flags = 3, mm_num_pages = 256\<rparr>,
     \<lparr>mm_virt_addr = MEM_VIRT_OFFSET, mm_phys_addr = 0, mm_flags = 3, mm_num_pages = 256\<rparr>,
     \<lparr>mm_virt_addr = 0xFFFFFFFF80000000, mm_phys_addr = 0x10000, mm_flags = 3, mm_num_pages = 2\<rparr>]"
  by (simp add: boot_maps_def wide_entries shared_direct_map_def kernel_direct_map_def direct_pages_def NUM_PAGES_def)

lemma wide_vpn: "vpn MEM_VIRT_OFFSET = 0x800000000" "vpn 0xFFFFFFFF80000000 = 0xFFFF80000"
  by (simp_all add: vpn_def)

lemma wide_region_tables:
  "unat n \<le> 512 \<Longrightarrow> region_tables MEM_VIRT_OFFSET n \<subseteq> va_tables MEM_VIRT_OFFSET"
  "unat n \<le> 512 \<Longrightarrow> region_tables 0xFFFFFFFF80000000 n \<subseteq> va_tables 0xFFFFFFFF80000000"
  by (rule region_tables_one, simp add: wide_vpn)+

lemma card_boot_tables_wide:
  assumes "set ms \<subseteq> set (boot_maps 0x100000 wide_kernel wide_map)"
  shows "card (boot_tables ms) \<le> 6"
proof -
  have "boot_tables ms \<subseteq> boot_tables (boot_maps 0x100000 wide_kernel wide_map)"
    using assms by (auto simp: boot_tables_def)
  also have "\<dots> \<subseteq> va_tables MEM_VIRT_OFFSET \<union> va_tables 0xFFFFFFFF80000000"
    using wide_region_tables(1) [of 256] wide_region_tables(2) [of 2]
    by (simp add: boot_tables_def wide_boot_maps map_tables_def) blast
  finally have "card (boot_tables ms) \<le> card (va_tables MEM_VIRT_OFFSET \<union> va_tables 0xFFFFFFFF80000000)"
    by (rule card_mono [rotated]) (simp add: va_tables_def)
  also have "\<dots> \<le> 3 + 3"
    using card_Un_le [of "va_tables MEM_VIRT_OFFSET" "va_tables 0xFFFFFFFF80000000"] card_va_tables add_le_mono le_trans
    by meson
  finally show ?thesis by simp
qed

lemma table_cost_6: "t \<le> 6 \<Longrightarrow> table_cost t * t \<le> 60"
proof -
  assume t: "t \<le> 6"
  have "grow_pages 8 t \<le> grow_pages 8 6" by (rule grow_pages_mono [OF t])
  then have "table_cost t \<le> 10" by (simp add: table_cost_def grow_pages_def)
  from mult_le_mono [OF this t] show ?thesis by simp
qed

lemma wide_stock: "stock (vm_init_pages 0x100000 wide_kernel wide_map + 71) wide_machine"
proof -
  have "vm_init_pages 0x100000 wide_kernel wide_map \<le> 9 + (60 + 6)"
    using table_cost_6 [OF card_boot_tables_wide [OF subset_refl]]
    by (simp add: vm_init_pages_def Let_def wide_entries block_pages_def NUM_PAGES_def grow_pages_def)
  then have "{1..<1 + (vm_init_pages 0x100000 wide_kernel wide_map + 71)} \<subseteq> avail wide_machine"
    by (auto simp: wide_avail)
  then show ?thesis unfolding stock_def by blast
qed

text \<open>
  C3. \<^verbatim>\<open>vm_init\<close>. Given the pages for the root, for every table and for the lists, it
  always returns, and then: the address of each page in the active tables is what the mappings
  say, applied one after the other to the empty address space (the direct map, recorded with user
  access for the first 2 GB; the direct map of all physical memory, kernel only; the loader's
  entries, the kernel image at its virtual base); the list shared with later address spaces is
  the recorded mappings in order; the kernel's space is well formed, and its tables are the
  active ones.
\<close>

theorem vm_init_correct:
  fixes s :: kstate
  defines "limit \<equiv> physical_limit (kmem s)"
  assumes "alloc_ok s" and "memory_list (kernel_addr_space s) = no_vec" and "global_mem_map s = no_vec"
    and "0 \<notin> avail s" and "\<forall>m \<in> set (boot_maps limit k es). unat (mm_num_pages m) \<le> 2 ^ 36"
    and "stock (vm_init_pages limit k es) s"
  shows "\<exists>s'. vm_init func vm_func mpe_func (Some es) (Some k) s = Some s' \<and>
    translate (ram s') (pml4 (kernel_addr_space s')) = fold apply_map (boot_maps limit k es) (\<lambda>_. None) \<and>
    mem_maps s' = shared_direct_map limit # entry_maps k es \<and>
    kernel_ok s' \<and> cr3 s' = VIRT_TO_PHYS (pml4 (kernel_addr_space s'))"
  using vm_init_spec [OF assms(2-5), of k es 0 func vm_func mpe_func] assms(6,7) by (auto simp: limit_def)

lemma wide_fit: "\<forall>m \<in> set (boot_maps (physical_limit (kmem wide_machine)) wide_kernel wide_map).
    unat (mm_num_pages m) \<le> 2 ^ 36"
  by (simp add: wide_boot_maps)

lemma wide_z: "0 \<notin> avail wide_machine"
  by (simp add: wide_avail)

lemma wide_translations:
  "fold apply_map (boot_maps 0x100000 wide_kernel wide_map) (\<lambda>_. None) 0xFFFF800000005000 = Some 0x5003"
  "fold apply_map (boot_maps 0x100000 wide_kernel wide_map) (\<lambda>_. None) 0xFFFFFFFF80001234 = Some 0x11003"
  "fold apply_map (boot_maps 0x100000 wide_kernel wide_map) (\<lambda>_. None) 0x1000 = None"
  by (simp_all add: wide_boot_maps apply_map_def map_region_def page_offset_def wide_vpn vpn_def Let_def
      mapped_entry_def MAKE_TABLE_ENTRY_def present_def)

theorem vm_init_correct_witness:
  "\<exists>s'. vm_init 0 0 0 (Some wide_map) (Some wide_kernel) wide_machine = Some s' \<and>
    translate (ram s') (pml4 (kernel_addr_space s')) 0xFFFF800000005000 = Some 0x5003 \<and>
    translate (ram s') (pml4 (kernel_addr_space s')) 0xFFFFFFFF80001234 = Some 0x11003 \<and>
    translate (ram s') (pml4 (kernel_addr_space s')) 0x1000 = None"
proof -
  have "stock (vm_init_pages (physical_limit (kmem wide_machine)) wide_kernel wide_map) wide_machine"
    using stock_mono [OF wide_stock] by simp
  from vm_init_correct [OF wide_alloc_ok wide_state(5,4) wide_z wide_fit this, of 0 0 0]
  obtain s' where s': "vm_init 0 0 0 (Some wide_map) (Some wide_kernel) wide_machine = Some s'"
    "translate (ram s') (pml4 (kernel_addr_space s')) =
       fold apply_map (boot_maps 0x100000 wide_kernel wide_map) (\<lambda>_. None)"
    by auto
  then show ?thesis by (intro exI [of _ s']) (simp only: wide_translations s')
qed

text \<open>
  C4. \<^verbatim>\<open>create_address_space\<close>. Given the pages for the structure, the root and the
  tables, it always returns a new address space in which every mapping of the kernel's list
  holds, applied in the order of the list, and nothing else is mapped; the kernel's list, its
  translation, its tables and the active address space are what they were.
\<close>

theorem create_address_space_correct:
  fixes s :: kstate
  assumes "kernel_ok s" and "0 \<notin> avail s" and "\<forall>m \<in> set (mem_maps s). unat (mm_num_pages m) \<le> 2 ^ 36"
    and "stock (new_space_pages (mem_maps s)) s"
  shows "\<exists>as s'. create_address_space func vm_func mpe_func s = Some (as, s') \<and> as \<noteq> 0 \<and> as_ok as s' \<and>
    translate (ram s') (as_pml4 as s') = fold apply_map (mem_maps s) (\<lambda>_. None) \<and>
    kernel_ok s' \<and> mem_maps s' = mem_maps s \<and> cr3 s' = cr3 s \<and>
    as_pml4 0 s' = as_pml4 0 s \<and> translate (ram s') (as_pml4 0 s) = translate (ram s) (as_pml4 0 s) \<and>
    own_frames s' \<inter> frames_of_as as s' = {}"
  using create_address_space_spec [OF assms, of func vm_func mpe_func] unfolding beside_def by blast

theorem create_address_space_correct_witness:
  "\<exists>s as t. vm_init 0 0 0 (Some wide_map) (Some wide_kernel) wide_machine = Some s \<and>
    create_address_space 0 0 0 s = Some (as, t) \<and>
    translate (ram t) (as_pml4 as t) 0xFFFF800000005000 = Some 0x5003 \<and>
    translate (ram t) (as_pml4 as t) 0x1000 = None"
proof -
  have "stock (vm_init_pages (physical_limit (kmem wide_machine)) wide_kernel wide_map + 71) wide_machine"
    using wide_stock by simp
  from vm_init_spec [OF wide_alloc_ok wide_state(5,4) wide_z wide_fit this, of 0 0 0]
  obtain s where s: "vm_init 0 0 0 (Some wide_map) (Some wide_kernel) wide_machine = Some s"
    "mem_maps s = shared_direct_map 0x100000 # entry_maps wide_kernel wide_map" "kernel_ok s" "stock 71 s" "0 \<notin> kernel_pool s"
    by auto
  have "new_space_pages (mem_maps s) \<le> 2 + (9 + 60)"
    using table_cost_6 [OF card_boot_tables_wide [of "mem_maps s"]]
    by (simp add: s(2) new_space_pages_def Let_def block_pages_def NUM_PAGES_def boot_maps_def subset_iff)
  then have st: "stock (new_space_pages (mem_maps s)) s" using stock_mono [OF s(4)] by simp
  have fit: "\<forall>m \<in> set (mem_maps s). unat (mm_num_pages m) \<le> 2 ^ 36"
    using wide_fit by (simp add: s(2) boot_maps_def)
  have "0 \<notin> avail s" using s(5) by (simp add: kernel_pool_def pool_def)
  from create_address_space_correct [OF s(3) this fit st, of 0 0 0] obtain as t where
    t: "create_address_space 0 0 0 s = Some (as, t)"
      "translate (ram t) (as_pml4 as t) = fold apply_map (mem_maps s) (\<lambda>_. None)" by blast
  have "fold apply_map (mem_maps s) (\<lambda>_. None) 0xFFFF800000005000 = Some 0x5003"
    "fold apply_map (mem_maps s) (\<lambda>_. None) 0x1000 = None"
    by (simp_all add: s(2) wide_entries shared_direct_map_def direct_pages_def NUM_PAGES_def apply_map_def map_region_def
        page_offset_def wide_vpn vpn_def Let_def mapped_entry_def MAKE_TABLE_ENTRY_def present_def)
  with s(1) t show ?thesis by (intro exI [of _ s] exI [of _ as] exI [of _ t]) (simp only: simp_thms)
qed



text \<open>
  C18. \<^verbatim>\<open>vm_get_phys_addr\<close> tests the page-directory entry at the page-table index: with
  equal indices it agrees with the processor's walk, but it answers 0 for every address whose
  page-table index names an empty directory entry, mapped or not.
\<close>

theorem vm_get_phys_addr_behaviour:
  assumes "clean_path (ram s) (as_pml4 as s) va"
  shows "(pte_index va = pde_index va \<longrightarrow> vm_get_phys_addr as va s =
      (case translate (ram s) (as_pml4 as s) va of None \<Rightarrow> 0 | Some e \<Rightarrow> e AND NOT 0xFFF)) \<and>
    (\<forall>pd. descend (ram s) (as_pml4 as s) [unat (pml4e_index va), unat (pdpe_index va)] = Some pd \<and>
      \<not> present (load64 (entry_addr pd (unat (pte_index va))) (ram s)) \<longrightarrow> vm_get_phys_addr as va s = 0)"
  using vm_get_phys_agrees [OF assms] vm_get_phys_misses [OF assms] by blast

lemma small_clean:
  assumes "va_path va = [0, 0, 0]" 
  shows "clean_path small_ram (small_table 0) va"
proof -
  have "clean (load64 (entry_addr (small_table k) 0) small_ram)" if "k < 3" for k
  proof -
    from that consider "k = 0" | "k = 1" | "k = 2" by linarith
    then show ?thesis by cases (simp_all add: small_entry clean_def)
  qed
  moreover have "descend small_ram (small_table 0) (take k [0, 0, 0]) = Some (small_table k)" if "k < 3" for k
  proof -
    from that consider "k = 0" | "k = 1" | "k = 2" by linarith
    then show ?thesis using small_descend [of 0 "take k [0, 0, 0]"] by cases simp_all
  qed
  moreover have "[0, 0, 0] ! k = (0 :: nat)" if "k < 3" for k
  proof -
    from that consider "k = 0" | "k = 1" | "k = 2" by linarith
    then show ?thesis by cases simp_all
  qed
  ultimately show ?thesis by (simp add: clean_path_def assms)
qed

theorem vm_get_phys_addr_behaviour_witness: "vm_get_phys_addr 0 0x1000 small_machine = 0"
proof -
  have path: "va_path 0x1000 = [0, 0, 0]"
    by (simp add: va_path_def pml4e_index_def pdpe_index_def pde_index_def)
  have i: "pte_index 0x1000 = 1" by (simp add: pte_index_def)
  have c: "clean_path (ram small_machine) (as_pml4 0 small_machine) 0x1000"
    using small_clean [OF path] by (simp add: small_as)
  have d: "descend (ram small_machine) (as_pml4 0 small_machine)
      [unat (pml4e_index 0x1000), unat (pdpe_index 0x1000)] = Some (small_table 2)"
    using small_descend [of 0 "[0, 0]"] path by (simp add: small_as va_path_def)
  have "\<not> present (load64 (entry_addr (small_table 2) (unat (pte_index 0x1000))) (ram small_machine))"
    using small_entry [of 2 1] i by (simp add: present_def)
  with vm_get_phys_addr_behaviour [OF c] d show ?thesis by blast
qed

end
