(* ===== verification/Port_IO.thy ===== *)
theory Port_IO
  imports Prelude
begin

text \<open>
  The processor's interface to its devices: the wrapped instructions of
  \<^verbatim>\<open>kernel/include/sys/asm.h\<close> and volatile accesses to device registers in memory.

  A state keeps the trace of all accesses, newest first, and the interrupt flag. What the
  hardware answers is not in the repository: a read takes its value from a parameter
  \<open>dev\<close>, a function of the accesses so far and of the access itself. The records of the
  drivers extend \<open>io_state\<close>, so the operations here act on all of them.
\<close>

datatype io =
    Out8 u16 u8 | Out16 u16 u16 | Out32 u16 u32
  | In8 u16 | In16 u16 | In32 u16
  | Write32 u64 u32 | Write64 u64 u64
  | Read32 u64 | Read64 u64

type_synonym hardware = "io list \<Rightarrow> io \<Rightarrow> u64"

record io_state =
  trace :: "io list"
  interrupts_on :: bool

definition outb :: "u16 \<Rightarrow> u8 \<Rightarrow> 'a io_state_scheme \<Rightarrow> 'a io_state_scheme" where
  "outb port v s = s\<lparr>trace := Out8 port v # trace s\<rparr>"

definition outw :: "u16 \<Rightarrow> u16 \<Rightarrow> 'a io_state_scheme \<Rightarrow> 'a io_state_scheme" where
  "outw port v s = s\<lparr>trace := Out16 port v # trace s\<rparr>"

definition outd :: "u16 \<Rightarrow> u32 \<Rightarrow> 'a io_state_scheme \<Rightarrow> 'a io_state_scheme" where
  "outd port v s = s\<lparr>trace := Out32 port v # trace s\<rparr>"

definition inb :: "hardware \<Rightarrow> u16 \<Rightarrow> 'a io_state_scheme \<Rightarrow> u8 \<times> 'a io_state_scheme" where
  "inb dev port s = (ucast (dev (trace s) (In8 port)), s\<lparr>trace := In8 port # trace s\<rparr>)"

definition inw :: "hardware \<Rightarrow> u16 \<Rightarrow> 'a io_state_scheme \<Rightarrow> u16 \<times> 'a io_state_scheme" where
  "inw dev port s = (ucast (dev (trace s) (In16 port)), s\<lparr>trace := In16 port # trace s\<rparr>)"

definition ind :: "hardware \<Rightarrow> u16 \<Rightarrow> 'a io_state_scheme \<Rightarrow> u32 \<times> 'a io_state_scheme" where
  "ind dev port s = (ucast (dev (trace s) (In32 port)), s\<lparr>trace := In32 port # trace s\<rparr>)"

definition write32 :: "u64 \<Rightarrow> u32 \<Rightarrow> 'a io_state_scheme \<Rightarrow> 'a io_state_scheme" where
  "write32 a v s = s\<lparr>trace := Write32 a v # trace s\<rparr>"

definition write64 :: "u64 \<Rightarrow> u64 \<Rightarrow> 'a io_state_scheme \<Rightarrow> 'a io_state_scheme" where
  "write64 a v s = s\<lparr>trace := Write64 a v # trace s\<rparr>"

definition read32 :: "hardware \<Rightarrow> u64 \<Rightarrow> 'a io_state_scheme \<Rightarrow> u32 \<times> 'a io_state_scheme" where
  "read32 dev a s = (ucast (dev (trace s) (Read32 a)), s\<lparr>trace := Read32 a # trace s\<rparr>)"

definition read64 :: "hardware \<Rightarrow> u64 \<Rightarrow> 'a io_state_scheme \<Rightarrow> u64 \<times> 'a io_state_scheme" where
  "read64 dev a s = (dev (trace s) (Read64 a), s\<lparr>trace := Read64 a # trace s\<rparr>)"

definition io_wait :: "'a io_state_scheme \<Rightarrow> 'a io_state_scheme" where
  "io_wait s = outb 0x80 0 s"

definition disable_interrupts :: "'a io_state_scheme \<Rightarrow> 'a io_state_scheme" where
  "disable_interrupts s = s\<lparr>interrupts_on := False\<rparr>"

definition enable_interrupts :: "'a io_state_scheme \<Rightarrow> 'a io_state_scheme" where
  "enable_interrupts s = s\<lparr>interrupts_on := True\<rparr>"

text \<open>\<^verbatim>\<open>halt\<close> disables interrupts and never returns: no state follows it.\<close>

definition halt :: "'a io_state_scheme \<Rightarrow> 'b option" where
  "halt s = None"

lemmas io_defs [kdefs] = outb_def outw_def outd_def inb_def inw_def ind_def write32_def write64_def
  read32_def read64_def io_wait_def disable_interrupts_def enable_interrupts_def halt_def

section \<open>Reading a trace\<close>

text \<open>The bytes written to a port, oldest first: what the device behind it has been told.\<close>

fun bytes_to :: "u16 \<Rightarrow> io list \<Rightarrow> u8 list" where
  "bytes_to p [] = []"
| "bytes_to p (Out8 q v # t) = (if q = p then bytes_to p t @ [v] else bytes_to p t)"
| "bytes_to p (_ # t) = bytes_to p t"

lemma bytes_to_append [simp]: "bytes_to p (t @ u) = bytes_to p u @ bytes_to p t"
  by (induction p t rule: bytes_to.induct) auto

section \<open>Busy waiting\<close>

text \<open>
  A loop that polls the hardware may never end; then it has no value. The state type is a
  parameter of the loop.
\<close>

partial_function (option) poll :: "('s \<Rightarrow> bool \<times> 's) \<Rightarrow> 's \<Rightarrow> 's option" where
  "poll ready s = (case ready s of (b, s) \<Rightarrow> if b then Some s else poll ready s)"

text \<open>The state after \<open>n\<close> unsuccessful rounds.\<close>

fun rounds :: "('s \<Rightarrow> bool \<times> 's) \<Rightarrow> nat \<Rightarrow> 's \<Rightarrow> 's" where
  "rounds ready 0 s = s"
| "rounds ready (Suc n) s = rounds ready n (snd (ready s))"

lemma poll_returns:
  "\<forall>k < n. \<not> fst (ready (rounds ready k s)) \<Longrightarrow> fst (ready (rounds ready n s)) \<Longrightarrow>
   poll ready s = Some (snd (ready (rounds ready n s)))"
proof (induction n arbitrary: s)
  case 0
  then show ?case by (subst poll.simps) (cases "ready s", simp)
next
  case (Suc n)
  have "\<not> fst (ready s)" using Suc.prems(1) by force
  moreover have "poll ready (snd (ready s)) = Some (snd (ready (rounds ready n (snd (ready s)))))"
    by (rule Suc.IH) (use Suc.prems in \<open>force+\<close>)
  ultimately show ?case by (subst poll.simps) (cases "ready s", simp)
qed

lemma poll_SomeD:
  fixes ready :: "'s \<Rightarrow> bool \<times> 's"
  assumes ret: "poll ready s = Some t"
  shows "\<exists>n. fst (ready (rounds ready n s)) \<and> t = snd (ready (rounds ready n s))"
proof (rule poll.raw_induct [where P = "\<lambda>ready s t.
      \<exists>n. fst (ready (rounds ready n s)) \<and> t = snd (ready (rounds ready n s))", OF _ ret])
  fix p and ready :: "'s \<Rightarrow> bool \<times> 's" and s t
  assume IH: "\<And>ready s t. p ready s = Some t \<Longrightarrow>
      \<exists>n. fst (ready (rounds ready n s)) \<and> t = snd (ready (rounds ready n s))"
    and eq: "(case ready s of (b, s) \<Rightarrow> if b then Some s else p ready s) = Some t"
  obtain b s' where r: "ready s = (b, s')" by fastforce
  show "\<exists>n. fst (ready (rounds ready n s)) \<and> t = snd (ready (rounds ready n s))"
  proof (cases b)
    case True
    then show ?thesis using r eq by (intro exI [of _ 0]) simp
  next
    case False
    then obtain n where "fst (ready (rounds ready n s')) \<and> t = snd (ready (rounds ready n s'))"
      using IH [of ready s' t] eq r by auto
    then show ?thesis using r by (intro exI [of _ "Suc n"]) simp
  qed
qed

lemma poll_Some_iff:
  "(\<exists>t. poll ready s = Some t) \<longleftrightarrow> (\<exists>n. fst (ready (rounds ready n s)))"
proof
  let ?n = "LEAST n. fst (ready (rounds ready n s))"
  assume "\<exists>n. fst (ready (rounds ready n s))"
  then have "fst (ready (rounds ready ?n s))" by (rule LeastI_ex)
  moreover have "\<forall>k < ?n. \<not> fst (ready (rounds ready k s))" by (blast dest: not_less_Least)
  ultimately have "poll ready s = Some (snd (ready (rounds ready ?n s)))" by (intro poll_returns)
  then show "\<exists>t. poll ready s = Some t" ..
next
  assume "\<exists>t. poll ready s = Some t"
  then obtain t where "poll ready s = Some t" ..
  from poll_SomeD [OF this] show "\<exists>n. fst (ready (rounds ready n s))" by blast
qed

end
