(* ===== verification/Pic.thy ===== *)
theory Pic
  imports Port_IO
begin

text \<open>
  The legacy interrupt controller: \<^verbatim>\<open>kernel/src/sys/tick/pic.c\<close>. The driver's
  state is the cached mask; everything else it does is port I/O. The second half reads the
  trace as the two controllers do (initialisation words, then masks) and shows that the
  cached mask is the one the hardware has.
\<close>

section \<open>The driver\<close>

record pic_state = io_state +
  g_pic_mask :: u16

abbreviation (input) PIC1_COMMAND_PORT :: u16 where "PIC1_COMMAND_PORT \<equiv> 0x20"
abbreviation (input) PIC1_DATA_PORT :: u16 where "PIC1_DATA_PORT \<equiv> 0x21"
abbreviation (input) PIC2_COMMAND_PORT :: u16 where "PIC2_COMMAND_PORT \<equiv> 0xA0"
abbreviation (input) PIC2_DATA_PORT :: u16 where "PIC2_DATA_PORT \<equiv> 0xA1"

abbreviation (input) PIC_ICW1_ICW4 :: u8 where "PIC_ICW1_ICW4 \<equiv> 0x01"
abbreviation (input) PIC_ICW1_INITIALIZE :: u8 where "PIC_ICW1_INITIALIZE \<equiv> 0x10"
abbreviation (input) PIC_ICW4_8086 :: u8 where "PIC_ICW4_8086 \<equiv> 0x01"
abbreviation (input) PIC_ICW4_AUTO_EOI :: u8 where "PIC_ICW4_AUTO_EOI \<equiv> 0x02"
abbreviation (input) PIC_CMD_END_OF_INTERRUPT :: u8 where "PIC_CMD_END_OF_INTERRUPT \<equiv> 0x20"
abbreviation (input) PIC_CMD_READ_IRR :: u8 where "PIC_CMD_READ_IRR \<equiv> 0x0A"
abbreviation (input) PIC_CMD_READ_ISR :: u8 where "PIC_CMD_READ_ISR \<equiv> 0x0B"
abbreviation (input) g_auto_eoi :: bool where "g_auto_eoi \<equiv> True"

definition pic_set_mask :: "u16 \<Rightarrow> 'a pic_state_scheme \<Rightarrow> 'a pic_state_scheme" where
  "pic_set_mask m s =
     (let s = s\<lparr>g_pic_mask := m\<rparr>;
          s = outb PIC1_DATA_PORT (ucast (g_pic_mask s AND 0xFF)) s;
          s = io_wait s;
          s = outb PIC2_DATA_PORT (ucast (drop_bit 8 (g_pic_mask s))) s
      in io_wait s)"

definition pic_disable :: "'a pic_state_scheme \<Rightarrow> 'a pic_state_scheme" where
  "pic_disable s = pic_set_mask 0xFFFF s"

definition pic_mask :: "nat \<Rightarrow> 'a pic_state_scheme \<Rightarrow> 'a pic_state_scheme" where
  "pic_mask irq s = pic_set_mask (g_pic_mask s OR push_bit irq 1) s"

definition pic_unmask :: "nat \<Rightarrow> 'a pic_state_scheme \<Rightarrow> 'a pic_state_scheme" where
  "pic_unmask irq s = pic_set_mask (g_pic_mask s AND NOT (push_bit irq 1)) s"

definition pic_get_mask :: "hardware \<Rightarrow> 'a pic_state_scheme \<Rightarrow> u16 \<times> 'a pic_state_scheme" where
  "pic_get_mask dev s =
     (let (lo, s) = inb dev PIC1_DATA_PORT s; (hi, s) = inb dev PIC2_DATA_PORT s
      in (ucast lo OR push_bit 8 (ucast hi), s))"

definition pic_save_mask :: "hardware \<Rightarrow> 'a pic_state_scheme \<Rightarrow> 'a pic_state_scheme" where
  "pic_save_mask dev s = (let (m, s) = pic_get_mask dev s in s\<lparr>g_pic_mask := m\<rparr>)"

definition pic_restore_mask :: "'a pic_state_scheme \<Rightarrow> 'a pic_state_scheme" where
  "pic_restore_mask s = pic_set_mask (g_pic_mask s) s"

definition pic_read_in_request_register :: "hardware \<Rightarrow> 'a pic_state_scheme \<Rightarrow> u16 \<times> 'a pic_state_scheme" where
  "pic_read_in_request_register dev s =
     (let s = outb PIC1_COMMAND_PORT PIC_CMD_READ_IRR s;
          s = outb PIC2_COMMAND_PORT PIC_CMD_READ_IRR s;
          (lo, s) = inb dev PIC1_COMMAND_PORT s; (hi, s) = inb dev PIC2_COMMAND_PORT s
      in (ucast lo OR push_bit 8 (ucast hi), s))"

definition pic_read_in_service_register :: "hardware \<Rightarrow> 'a pic_state_scheme \<Rightarrow> u16 \<times> 'a pic_state_scheme" where
  "pic_read_in_service_register dev s =
     (let s = outb PIC1_COMMAND_PORT PIC_CMD_READ_ISR s;
          s = outb PIC2_COMMAND_PORT PIC_CMD_READ_ISR s;
          (lo, s) = inb dev PIC1_COMMAND_PORT s; (hi, s) = inb dev PIC2_COMMAND_PORT s
      in (ucast lo OR push_bit 8 (ucast hi), s))"

definition pic_probe :: "hardware \<Rightarrow> 'a pic_state_scheme \<Rightarrow> bool \<times> 'a pic_state_scheme" where
  "pic_probe dev s =
     (let s = pic_disable s; s = pic_set_mask 0 s; (m, s) = pic_get_mask dev s in (m = 0, s))"

definition pic_send_end_of_interrupt :: "int \<Rightarrow> 'a pic_state_scheme \<Rightarrow> 'a pic_state_scheme" where
  "pic_send_end_of_interrupt irq s =
     (let s = (if irq > 8 then outb PIC2_COMMAND_PORT PIC_CMD_END_OF_INTERRUPT s else s)
      in outb PIC1_COMMAND_PORT PIC_CMD_END_OF_INTERRUPT s)"

definition pic_configure :: "u8 \<Rightarrow> u8 \<Rightarrow> 'a pic_state_scheme \<Rightarrow> 'a pic_state_scheme" where
  "pic_configure offset_pic_1 offset_pic_2 s =
     (let s = pic_set_mask 0xFFFF s;
          s = outb PIC1_COMMAND_PORT (PIC_ICW1_ICW4 OR PIC_ICW1_INITIALIZE) s;
          s = io_wait s;
          s = outb PIC2_COMMAND_PORT (PIC_ICW1_ICW4 OR PIC_ICW1_INITIALIZE) s;
          s = io_wait s;
          s = outb PIC1_DATA_PORT offset_pic_1 s;
          s = io_wait s;
          s = outb PIC2_DATA_PORT offset_pic_2 s;
          s = io_wait s;
          s = outb PIC1_DATA_PORT 0x4 s;
          s = io_wait s;
          s = outb PIC2_DATA_PORT 0x2 s;
          s = io_wait s;
          s = outb PIC1_DATA_PORT (if g_auto_eoi then PIC_ICW4_8086 OR PIC_ICW4_AUTO_EOI else PIC_ICW4_8086) s;
          s = io_wait s;
          s = outb PIC2_DATA_PORT (if g_auto_eoi then PIC_ICW4_8086 OR PIC_ICW4_AUTO_EOI else PIC_ICW4_8086) s;
          s = io_wait s
      in pic_set_mask 0xFFFF s)"

section \<open>What the controllers have been told\<close>

text \<open>
  The 8259's reading of the writes to its two ports. \<open>icw\<close> is the number of the
  initialisation word it waits for next (0 when it is in operation).
\<close>

record chip =
  icw :: nat
  has_icw4 :: bool
  imr :: u8
  vector_base :: u8
  cascade :: u8
  auto_eoi :: bool

definition reset_chip :: chip where
  "reset_chip = \<lparr>icw = 0, has_icw4 = False, imr = 0, vector_base = 0, cascade = 0, auto_eoi = False\<rparr>"

definition chip_command :: "u8 \<Rightarrow> chip \<Rightarrow> chip" where
  "chip_command v c = (if bit v 4 then c\<lparr>icw := 2, has_icw4 := bit v 0, imr := 0, auto_eoi := False\<rparr> else c)"

definition chip_data :: "u8 \<Rightarrow> chip \<Rightarrow> chip" where
  "chip_data v c =
     (if icw c = 2 then c\<lparr>icw := 3, vector_base := v\<rparr>
      else if icw c = 3 then c\<lparr>icw := (if has_icw4 c then 4 else 0), cascade := v\<rparr>
      else if icw c = 4 then c\<lparr>icw := 0, auto_eoi := bit v 1\<rparr>
      else c\<lparr>imr := v\<rparr>)"

fun chip_of :: "u16 \<Rightarrow> u16 \<Rightarrow> io list \<Rightarrow> chip" where
  "chip_of cmd dat [] = reset_chip"
| "chip_of cmd dat (Out8 p v # t) =
     (if p = cmd then chip_command v (chip_of cmd dat t)
      else if p = dat then chip_data v (chip_of cmd dat t) else chip_of cmd dat t)"
| "chip_of cmd dat (_ # t) = chip_of cmd dat t"

abbreviation master :: "io list \<Rightarrow> chip" where "master \<equiv> chip_of 0x20 0x21"
abbreviation slave :: "io list \<Rightarrow> chip" where "slave \<equiv> chip_of 0xA0 0xA1"

text \<open>Both controllers run, remapped to the given vectors, and have the driver's mask.\<close>

definition running :: "u8 \<Rightarrow> u8 \<Rightarrow> io list \<Rightarrow> bool" where
  "running o1 o2 t \<longleftrightarrow>
     icw (master t) = 0 \<and> vector_base (master t) = o1 \<and> cascade (master t) = 4 \<and> auto_eoi (master t) \<and>
     icw (slave t) = 0 \<and> vector_base (slave t) = o2 \<and> cascade (slave t) = 2 \<and> auto_eoi (slave t)"

definition hw_mask :: "io list \<Rightarrow> u16" where
  "hw_mask t = ucast (imr (master t)) OR push_bit 8 (ucast (imr (slave t)))"

lemma join_bytes: "(ucast (ucast (m AND 0xFF :: u16) :: u8) :: u16) OR push_bit 8 (ucast (ucast (drop_bit 8 m) :: u8)) = m"
proof (rule bit_word_eqI)
  fix n assume "n < LENGTH(16)"
  have c: "(0xFF :: u16) = mask 8" by (simp add: mask_eq_exp_minus_1)
  show "bit ((ucast (ucast (m AND 0xFF :: u16) :: u8) :: u16) OR push_bit 8 (ucast (ucast (drop_bit 8 m) :: u8))) n = bit m n"
    unfolding c using \<open>n < LENGTH(16)\<close> by (auto simp: bit_simps)
qed

lemma pic_set_mask_trace:
  "trace (pic_set_mask m s) =
     [Out8 0x80 0, Out8 0xA1 (ucast (drop_bit 8 m)), Out8 0x80 0, Out8 0x21 (ucast (m AND 0xFF))] @ trace s"
  by (simp add: pic_set_mask_def Let_def outb_def io_wait_def)

lemma pic_set_mask_mask [simp]: "g_pic_mask (pic_set_mask m s) = m"
  by (simp add: pic_set_mask_def Let_def outb_def io_wait_def)

lemma set_mask_running:
  assumes "running o1 o2 (trace s)"
  shows "running o1 o2 (trace (pic_set_mask m s))" and "hw_mask (trace (pic_set_mask m s)) = m"
  using assms join_bytes [of m] by (simp_all add: pic_set_mask_trace running_def hw_mask_def chip_data_def)

lemma configure_running:
  "running o1 o2 (trace (pic_configure o1 o2 s))" "hw_mask (trace (pic_configure o1 o2 s)) = 0xFFFF"
  "g_pic_mask (pic_configure o1 o2 s) = 0xFFFF"
proof -
  define t where "t = pic_configure o1 o2 s"
  have bits: "bit (0x11 :: u8) 4" "bit (0x11 :: u8) 0" "bit (3 :: u8) 1" by (simp_all add: bit_iff_odd)
  obtain u where u: "t = pic_set_mask 0xFFFF u" and ut: "trace u =
      [Out8 0x80 0, Out8 0xA1 3, Out8 0x80 0, Out8 0x21 3, Out8 0x80 0, Out8 0xA1 2, Out8 0x80 0, Out8 0x21 4,
       Out8 0x80 0, Out8 0xA1 o2, Out8 0x80 0, Out8 0x21 o1, Out8 0x80 0, Out8 0xA0 0x11, Out8 0x80 0,
       Out8 0x20 0x11] @ trace (pic_set_mask 0xFFFF s)"
    by (simp add: t_def pic_configure_def Let_def outb_def io_wait_def)
  have "running o1 o2 (trace u)"
    using bits by (simp add: ut running_def chip_command_def chip_data_def)
  from set_mask_running [OF this] show "running o1 o2 (trace (pic_configure o1 o2 s))"
    "hw_mask (trace (pic_configure o1 o2 s)) = 0xFFFF" by (simp_all add: t_def [symmetric] u)
  show "g_pic_mask (pic_configure o1 o2 s) = 0xFFFF" by (simp add: t_def [symmetric] u)
qed

section \<open>Sequences of driver calls\<close>

datatype pic_op =
    SetMask u16 | Disable | Mask nat | Unmask nat | Restore | Save
  | EndOfInterrupt int | ReadRequest | ReadService | Configure

definition pic_do :: "hardware \<Rightarrow> u8 \<Rightarrow> u8 \<Rightarrow> pic_op \<Rightarrow> 'a pic_state_scheme \<Rightarrow> 'a pic_state_scheme" where
  "pic_do dev o1 o2 op s = (case op of
     SetMask m \<Rightarrow> pic_set_mask m s
   | Disable \<Rightarrow> pic_disable s
   | Mask n \<Rightarrow> pic_mask n s
   | Unmask n \<Rightarrow> pic_unmask n s
   | Restore \<Rightarrow> pic_restore_mask s
   | Save \<Rightarrow> pic_save_mask dev s
   | EndOfInterrupt n \<Rightarrow> pic_send_end_of_interrupt n s
   | ReadRequest \<Rightarrow> snd (pic_read_in_request_register dev s)
   | ReadService \<Rightarrow> snd (pic_read_in_service_register dev s)
   | Configure \<Rightarrow> pic_configure o1 o2 s)"

text \<open>A controller in operation answers a read of its data port with its mask.\<close>

definition masks_readable :: "hardware \<Rightarrow> bool" where
  "masks_readable dev \<longleftrightarrow>
     (\<forall>t. icw (master t) = 0 \<longrightarrow> ucast (dev t (In8 0x21)) = imr (master t)) \<and>
     (\<forall>t. icw (slave t) = 0 \<longrightarrow> ucast (dev t (In8 0xA1)) = imr (slave t))"

definition in_sync :: "u8 \<Rightarrow> u8 \<Rightarrow> 'a pic_state_scheme \<Rightarrow> bool" where
  "in_sync o1 o2 s \<longleftrightarrow> running o1 o2 (trace s) \<and> hw_mask (trace s) = g_pic_mask s"

lemma in_sync_set_mask: "in_sync o1 o2 s \<Longrightarrow> in_sync o1 o2 (pic_set_mask m s)"
  by (auto simp: in_sync_def intro: set_mask_running)

lemma trace_other_ports:
  "hw_mask (In8 p # t) = hw_mask t" "running o1 o2 (In8 p # t) = running o1 o2 t"
  "\<not> bit v 4 \<Longrightarrow> p = 0x20 \<or> p = 0xA0 \<Longrightarrow> hw_mask (Out8 p v # t) = hw_mask t"
  "\<not> bit v 4 \<Longrightarrow> p = 0x20 \<or> p = 0xA0 \<Longrightarrow> running o1 o2 (Out8 p v # t) = running o1 o2 t"
  by (auto simp: hw_mask_def running_def chip_command_def)

lemma command_bytes: "\<not> bit (0x20 :: u8) 4" "\<not> bit (0x0A :: u8) 4" "\<not> bit (0x0B :: u8) 4"
  by (simp_all add: bit_iff_odd)

lemma in_sync_reads:
  assumes "in_sync o1 o2 s"
  shows "in_sync o1 o2 (pic_send_end_of_interrupt n s)"
    and "in_sync o1 o2 (snd (pic_read_in_request_register dev s))"
    and "in_sync o1 o2 (snd (pic_read_in_service_register dev s))"
  using assms
  by (simp_all add: pic_send_end_of_interrupt_def pic_read_in_request_register_def
      pic_read_in_service_register_def outb_def inb_def in_sync_def trace_other_ports command_bytes Let_def)

lemma pic_do_in_sync:
  assumes hw: "masks_readable dev" and s: "in_sync o1 o2 s"
  shows "in_sync o1 o2 (pic_do dev o1 o2 op s)"
proof (cases op)
  case Configure
  then show ?thesis by (simp add: pic_do_def in_sync_def configure_running)
next
  case Save
  have r: "icw (master (trace s)) = 0" "icw (slave (trace s)) = 0" using s by (simp_all add: in_sync_def running_def)
  have "icw (slave (In8 0x21 # trace s)) = 0" using r by simp
  with r hw have "ucast (dev (trace s) (In8 0x21)) = imr (master (trace s))"
    "ucast (dev (In8 0x21 # trace s) (In8 0xA1)) = imr (slave (trace s))"
    unfolding masks_readable_def by (metis, metis chip_of.simps(5))
  then show ?thesis using s Save
    by (simp add: pic_do_def pic_save_mask_def pic_get_mask_def inb_def in_sync_def trace_other_ports hw_mask_def [symmetric])
qed (use s in \<open>simp_all add: pic_do_def in_sync_set_mask pic_disable_def pic_mask_def pic_unmask_def
     pic_restore_mask_def in_sync_reads\<close>)

lemma pic_sequence_in_sync:
  "masks_readable dev \<Longrightarrow> in_sync o1 o2 s \<Longrightarrow> in_sync o1 o2 (fold (pic_do dev o1 o2) ops s)"
  by (induction ops arbitrary: s) (simp_all add: pic_do_in_sync)

text \<open>The lines the mask closes, and what the two bit operations do to them.\<close>

definition masked :: "u16 \<Rightarrow> nat set" where
  "masked m = {n. n < 16 \<and> bit m n}"

lemma masked_mask: "n < 16 \<Longrightarrow> masked (m OR push_bit n 1) = insert n (masked m)"
  by (auto simp: masked_def bit_simps)

lemma masked_unmask: "n < 16 \<Longrightarrow> masked (m AND NOT (push_bit n 1)) = masked m - {n}"
  by (auto simp: masked_def bit_simps)

lemma mask_inj: "masked a = masked b \<Longrightarrow> a = b"
  by (rule bit_word_eqI) (auto simp: masked_def set_eq_iff)

text \<open>The probe finds a controller whose masks can be read back.\<close>

definition pic_idle :: "io list \<Rightarrow> bool" where
  "pic_idle t \<longleftrightarrow> icw (master t) = 0 \<and> icw (slave t) = 0"

lemma pic_probe_idle:
  assumes "masks_readable dev" and "pic_idle (trace s)"
  shows "fst (pic_probe dev s)"
proof -
  define u where "u = pic_set_mask 0 (pic_disable s)"
  have u: "icw (master (trace u)) = 0" "icw (slave (In8 0x21 # trace u)) = 0"
    "imr (master (trace u)) = 0" "imr (slave (trace u)) = 0"
    using assms(2) by (simp_all add: u_def pic_disable_def pic_set_mask_trace chip_data_def pic_idle_def)
  with assms(1) have "ucast (dev (trace u) (In8 0x21)) = imr (master (trace u))"
    "ucast (dev (In8 0x21 # trace u) (In8 0xA1)) = imr (slave (trace u))"
    unfolding masks_readable_def by (metis, metis chip_of.simps(5))
  then show ?thesis using u(3,4)
    by (simp add: pic_probe_def Let_def u_def [symmetric] pic_get_mask_def inb_def)
qed

lemma pic_probe_found: "masks_readable dev \<Longrightarrow> running o1 o2 (trace s) \<Longrightarrow> fst (pic_probe dev s)"
  by (rule pic_probe_idle) (auto simp: running_def pic_idle_def)

end
