(* ===== verification/Timer.thy ===== *)
theory Timer
  imports Pic
begin

text \<open>
  The interval timer of \<^verbatim>\<open>kernel/src/sys/tick/pit.c\<close> and the kernel tick of
  \<^verbatim>\<open>kernel/src/sys/tick/clkhandler.c\<close>.
\<close>

section \<open>pit.c\<close>

abbreviation (input) PIT_MIN_FREQ :: u32 where "PIT_MIN_FREQ \<equiv> 18"
abbreviation (input) PIT_MAX_FREQ :: u32 where "PIT_MAX_FREQ \<equiv> 1193182"
abbreviation (input) PIT_DEFAULT_FREQ :: u32 where "PIT_DEFAULT_FREQ \<equiv> 1000"
abbreviation (input) PIT_CHANNEL_0_DATA_PORT :: u16 where "PIT_CHANNEL_0_DATA_PORT \<equiv> 0x40"
abbreviation (input) MODE_COMMAND_REGISTER :: u16 where "MODE_COMMAND_REGISTER \<equiv> 0x43"
abbreviation (input) PIT_CHANNEL_0 :: u8 where "PIT_CHANNEL_0 \<equiv> 0x0"
abbreviation (input) PIT_LO_AND_HIGH :: u8 where "PIT_LO_AND_HIGH \<equiv> 0x3"
abbreviation (input) PIT_MODE_3 :: u8 where "PIT_MODE_3 \<equiv> 0x3"
abbreviation (input) PIT_BINARY_MODE :: u8 where "PIT_BINARY_MODE \<equiv> 0x0"
abbreviation (input) PIT_LATCH_COUNT_COMMAND :: u8 where "PIT_LATCH_COUNT_COMMAND \<equiv> 0x0"

definition PIT_MODE_COMMAND_SET_CHANNEL :: "u8 \<Rightarrow> u8" where
  "PIT_MODE_COMMAND_SET_CHANNEL x = push_bit 6 x"

definition PIT_MODE_COMMAND_SET_ACCESS_MODE :: "u8 \<Rightarrow> u8" where
  "PIT_MODE_COMMAND_SET_ACCESS_MODE x = push_bit 4 x"

definition PIT_MODE_COMMAND_SET_OP_MODE :: "u8 \<Rightarrow> u8" where
  "PIT_MODE_COMMAND_SET_OP_MODE x = push_bit 1 x"

definition pit_divisor :: "u32 \<Rightarrow> u32" where
  "pit_divisor hertz =
     (let hertz = (if hertz < PIT_MIN_FREQ \<or> hertz > PIT_MAX_FREQ then PIT_DEFAULT_FREQ else hertz);
          hertz = PIT_MAX_FREQ div hertz
      in if PIT_MAX_FREQ mod hertz > hertz div 2 then hertz + 1 else hertz)"

definition pit_init :: "u32 \<Rightarrow> 'a pic_state_scheme \<Rightarrow> 'a pic_state_scheme" where
  "pit_init hertz s =
     (let hertz = pit_divisor hertz;
          mode = PIT_BINARY_MODE OR PIT_MODE_COMMAND_SET_OP_MODE PIT_MODE_3 OR
                 PIT_MODE_COMMAND_SET_ACCESS_MODE PIT_LO_AND_HIGH OR PIT_MODE_COMMAND_SET_CHANNEL PIT_CHANNEL_0;
          s = outb MODE_COMMAND_REGISTER mode s;
          s = outb PIT_CHANNEL_0_DATA_PORT (ucast (hertz AND 0x00FF)) s;
          s = outb PIT_CHANNEL_0_DATA_PORT (ucast (drop_bit 8 (hertz AND 0xFF00))) s
      in pic_unmask 0 s)"

definition pit_set_event :: "u64 \<Rightarrow> 'a io_state_scheme \<Rightarrow> 'a io_state_scheme" where
  "pit_set_event delta s =
     (let s = disable_interrupts s;
          s = outb PIT_CHANNEL_0_DATA_PORT (ucast (delta AND 0xFF)) s;
          s = outb PIT_CHANNEL_0_DATA_PORT (ucast (drop_bit 8 delta)) s
      in enable_interrupts s)"

definition pit_read_frequency :: "hardware \<Rightarrow> 'a io_state_scheme \<Rightarrow> u32 \<times> 'a io_state_scheme" where
  "pit_read_frequency dev s =
     (let s = disable_interrupts s;
          s = outb MODE_COMMAND_REGISTER PIT_LATCH_COUNT_COMMAND s;
          (lo, s) = inb dev PIT_CHANNEL_0_DATA_PORT s;
          (hi, s) = inb dev PIT_CHANNEL_0_DATA_PORT s
      in (ucast lo OR push_bit 8 (ucast hi), enable_interrupts s))"

text \<open>
  The reload value the timer takes from its data port in lo/hi access: the last two bytes,
  low byte first.
\<close>

definition reload_value :: "io list \<Rightarrow> nat" where
  "reload_value t =
     (case rev (bytes_to 0x40 t) of hi # lo # _ \<Rightarrow> unat lo + 256 * unat hi | _ \<Rightarrow> 0)"

lemma low_byte: "(ucast (v AND 0xFF) :: u8) = ucast v" for v :: "'a::len word"
proof -
  have m: "(0xFF :: 'a word) = mask 8" by (simp add: mask_eq_exp_minus_1)
  show ?thesis unfolding m by (rule bit_word_eqI) (auto simp: bit_simps dest: bit_imp_le_length)
qed

lemma high_byte: "(ucast (drop_bit 8 (v AND 0xFF00)) :: u8) = ucast (drop_bit 8 v)" for v :: u32
proof -
  have m: "(0xFF00 :: u32) = push_bit 8 (mask 8)" by (simp add: mask_eq_exp_minus_1 push_bit_eq_mult)
  show ?thesis unfolding m by (rule bit_word_eqI) (auto simp: bit_simps)
qed

lemma split16: "unat (ucast v :: u8) + 256 * unat (ucast (drop_bit 8 v) :: u8) = unat v mod 2 ^ 16"
  for v :: "'a::len word"
proof -
  have "unat (ucast v :: u8) = unat v mod 256"
    by (simp add: unsigned_ucast_eq take_bit_eq_mod)
  moreover have "unat (ucast (drop_bit 8 v) :: u8) = unat v div 256 mod 256"
    by (simp add: unsigned_ucast_eq take_bit_eq_mod unat_drop_bit_eq) (simp add: drop_bit_eq_div [where 'a = nat])
  moreover have "n mod 256 + 256 * (n div 256 mod 256) = n mod 65536" for n :: nat
    using mod_mult2_eq [of n 256 256] by simp
  ultimately show ?thesis by simp
qed

lemma bytes_to_40_unmask [simp]: "bytes_to 0x40 (trace (pic_unmask n s)) = bytes_to 0x40 (trace s)"
  by (simp add: pic_unmask_def pic_set_mask_trace)

lemma pit_init_reload: "reload_value (trace (pit_init hertz s)) = unat (pit_divisor hertz) mod 2 ^ 16"
  using split16 [of "pit_divisor hertz"]
  by (simp add: reload_value_def pit_init_def Let_def outb_def low_byte high_byte)

lemma pit_init_mode: "last (bytes_to 0x43 (trace (pit_init hertz s))) = 0x36"
  by (simp add: pit_init_def Let_def outb_def pic_unmask_def pic_set_mask_trace
      PIT_MODE_COMMAND_SET_CHANNEL_def PIT_MODE_COMMAND_SET_ACCESS_MODE_def PIT_MODE_COMMAND_SET_OP_MODE_def)

lemma pit_divisor_bounds:
  assumes "18 \<le> unat hertz" and "unat hertz \<le> 1193182"
  shows "unat (pit_divisor hertz) \<in> {1193182 div unat hertz, 1193182 div unat hertz + 1}"
proof -
  have r: "\<not> (hertz < 18 \<or> hertz > 1193182)" using assms by (simp add: word_less_nat_alt)
  define q where "q = (1193182 :: u32) div hertz"
  have uq: "unat q = 1193182 div unat hertz" by (simp add: q_def unat_div)
  have "unat q + 1 < 2 ^ 32"
    using div_le_dividend [of 1193182 "unat hertz"] unfolding uq by (rule le_less_trans [OF add_right_mono]) simp
  then have "unat (q + 1) = unat q + 1" by (simp add: unat_plus_simple word_le_nat_alt unat_word_ariths)
  moreover have "pit_divisor hertz \<in> {q, q + 1}" using r by (simp add: pit_divisor_def q_def Let_def)
  ultimately show ?thesis using uq by auto
qed

lemma pit_divisor_default:
  "unat hertz < 18 \<or> 1193182 < unat hertz \<Longrightarrow> unat (pit_divisor hertz) = 1193"
  by (auto simp: pit_divisor_def word_less_nat_alt)

section \<open>clkhandler.c\<close>

abbreviation (input) QUANTUM :: u8 where "QUANTUM \<equiv> 5"

record tick_state = pic_state +
  system_time :: u64
  preempt_quantum :: u8

text \<open>The quantum is unsigned: the test \<^verbatim>\<open>--preempt_quantum <= 0\<close> is a test for 0.\<close>

definition clkhandler :: "'a tick_state_scheme \<Rightarrow> 'a tick_state_scheme" where
  "clkhandler s =
     (let s = s\<lparr>system_time := system_time s + 1\<rparr>;
          s = s\<lparr>preempt_quantum := preempt_quantum s - 1\<rparr>
      in if preempt_quantum s \<le> 0 then s\<lparr>preempt_quantum := QUANTUM\<rparr> else s)"

definition get_pit_time :: "'a tick_state_scheme \<Rightarrow> u64" where
  "get_pit_time s = system_time s"

text \<open>
  The sleep loop re-reads the volatile \<^verbatim>\<open>system_time\<close>; its values at successive
  reads come from the interrupts in between and are the parameter \<open>reads\<close>, the first
  one being the value the call starts from.
\<close>

partial_function (option) sleep_from :: "(nat \<Rightarrow> u64) \<Rightarrow> u64 \<Rightarrow> nat \<Rightarrow> nat option" where
  "sleep_from reads wake k = (if wake > reads k then sleep_from reads wake (k + 1) else Some k)"

definition system_timer_sleep :: "(nat \<Rightarrow> u64) \<Rightarrow> u64 \<Rightarrow> nat option" where
  "system_timer_sleep reads offset = (let start = reads 0 in sleep_from reads (start + offset) 1)"

lemma ticks:
  assumes "preempt_quantum s = QUANTUM"
  shows "system_time ((clkhandler ^^ n) s) = system_time s + of_nat n \<and>
    unat (preempt_quantum ((clkhandler ^^ n) s)) = 5 - n mod 5"
proof (induction n)
  case 0
  then show ?case using assms by simp
next
  case (Suc n)
  let ?t = "(clkhandler ^^ n) s" and ?q = "preempt_quantum ((clkhandler ^^ n) s)"
  have q: "unat ?q = 5 - n mod 5" and t: "system_time ?t = system_time s + of_nat n" using Suc by simp_all
  have pos: "0 < unat ?q" using q by simp
  then have "1 \<le> ?q" by (simp add: word_le_nat_alt)
  then have dec: "unat (?q - 1) = unat ?q - 1" by (simp add: unat_sub)
  have "unat (preempt_quantum (clkhandler ?t)) = 5 - Suc n mod 5"
  proof (cases "n mod 5 = 4")
    case True
    then have "unat (?q - 1) = 0" using q dec by simp
    then have "?q - 1 = 0" using unat_eq_zero by blast
    moreover have "Suc n mod 5 = 0" using True by presburger
    ultimately show ?thesis by (simp add: clkhandler_def Let_def)
  next
    case False
    have "n mod 5 < 4" using False mod_less_divisor [of 5 n] by linarith
    then have "unat (?q - 1) = 4 - n mod 5" "Suc n mod 5 = Suc (n mod 5)" using q dec by (simp, presburger)
    moreover from this \<open>n mod 5 < 4\<close> have "\<not> ?q - 1 \<le> 0" by (simp add: word_le_nat_alt)
    ultimately show ?thesis by (simp add: clkhandler_def Let_def)
  qed
  moreover have "system_time (clkhandler ?t) = system_time s + of_nat (Suc n)"
    using t by (simp add: clkhandler_def Let_def)
  ultimately show ?case by simp
qed

text \<open>The sleep ends at the first read that reaches the wake-up time, if there is one.\<close>

lemma sleep_from_first:
  "\<forall>i \<in> {k..<k + d}. reads i < wake \<Longrightarrow> wake \<le> reads (k + d) \<Longrightarrow> sleep_from reads wake k = Some (k + d)"
proof (induction d arbitrary: k)
  case 0
  then show ?case by (subst sleep_from.simps) auto
next
  case (Suc d)
  have "sleep_from reads wake (k + 1) = Some (k + 1 + d)" by (rule Suc.IH) (use Suc.prems in auto)
  moreover have "reads k < wake" using Suc.prems(1) by simp
  ultimately show ?case by (subst sleep_from.simps) simp
qed

lemma sleep_from_SomeD:
  assumes "sleep_from reads wake k = Some j"
  shows "k \<le> j \<and> wake \<le> reads j \<and> (\<forall>i \<in> {k..<j}. reads i < wake)"
proof (rule sleep_from.raw_induct [where P = "\<lambda>reads wake k j.
      k \<le> j \<and> wake \<le> reads j \<and> (\<forall>i \<in> {k..<j}. reads i < wake)", OF _ assms])
  fix f :: "(nat \<Rightarrow> u64) \<Rightarrow> u64 \<Rightarrow> nat \<Rightarrow> nat option" and reads :: "nat \<Rightarrow> u64" and wake k j
  assume IH: "\<And>reads wake k j. f reads wake k = Some j \<Longrightarrow>
      k \<le> j \<and> wake \<le> reads j \<and> (\<forall>i \<in> {k..<j}. reads i < wake)"
    and eq: "(if wake > reads k then f reads wake (k + 1) else Some k) = Some j"
  show "k \<le> j \<and> wake \<le> reads j \<and> (\<forall>i \<in> {k..<j}. reads i < wake)"
  proof (cases "wake > reads k")
    case True
    with eq IH [of reads wake "k + 1" j] have "k + 1 \<le> j" "wake \<le> reads j" "\<forall>i \<in> {k + 1..<j}. reads i < wake"
      by simp_all
    moreover have "{k..<j} \<subseteq> insert k {k + 1..<j}" by auto
    ultimately show ?thesis using True by fastforce
  qed (use eq in auto)
qed

lemma sleep_returns_iff:
  "(\<exists>j. sleep_from reads wake k = Some j) \<longleftrightarrow> (\<exists>j\<ge>k. wake \<le> reads j)"
proof
  assume "\<exists>j\<ge>k. wake \<le> reads j"
  then obtain d where d: "wake \<le> reads (k + d)" by (metis le_Suc_ex)
  define e where "e = (LEAST d. wake \<le> reads (k + d))"
  have e: "wake \<le> reads (k + e)" unfolding e_def by (rule LeastI [of _ d]) (rule d)
  have "\<forall>i \<in> {k..<k + e}. reads i < wake"
  proof
    fix i assume "i \<in> {k..<k + e}"
    then obtain c where "i = k + c" "c < e" using le_Suc_ex by fastforce
    then show "reads i < wake" using not_less_Least [of c "\<lambda>d. wake \<le> reads (k + d)"] by (simp add: e_def not_le)
  qed
  from sleep_from_first [OF this e] show "\<exists>j. sleep_from reads wake k = Some j" ..
qed (use sleep_from_SomeD in blast)

end
