(* ===== verification/Gdt.thy ===== *)
theory Gdt
  imports Port_IO
begin

text \<open>
  The global descriptor table: \<^verbatim>\<open>kernel/src/sys/gdt/gdt.c\<close> with its structures and
  constants. The table of a processor is a record with the fields of \<^verbatim>\<open>GDT_TABLE\<close>;
  \<^verbatim>\<open>gdt_load\<close> (assembly) is recorded as the descriptor it loads.
\<close>

section \<open>Structures and constants\<close>

record gdt_entry =
  limit_low :: u16
  base_low :: u16
  base_middle :: u8
  access :: u8
  flags_limit_high :: u8
  base_high :: u8

definition null_entry :: gdt_entry where
  "null_entry = \<lparr>limit_low = 0, base_low = 0, base_middle = 0, access = 0, flags_limit_high = 0, base_high = 0\<rparr>"

record gdt_table =
  null_desc :: gdt_entry
  kernel_code_16_bit :: gdt_entry
  kernel_data_16_bit :: gdt_entry
  kernel_code_32_bit :: gdt_entry
  kernel_data_32_bit :: gdt_entry
  kernel_code_64_bit :: gdt_entry
  kernel_data_64_bit :: gdt_entry
  user_code_64_bit :: gdt_entry
  user_data_64_bit :: gdt_entry

abbreviation (input) GDT_FLAG_64BIT :: u8 where "GDT_FLAG_64BIT \<equiv> 0x20"
abbreviation (input) GDT_FLAG_32BIT :: u8 where "GDT_FLAG_32BIT \<equiv> 0x40"
abbreviation (input) GDT_FLAG_16BIT :: u8 where "GDT_FLAG_16BIT \<equiv> 0x00"
abbreviation (input) GDT_FLAG_GRANULARITY_1B :: u8 where "GDT_FLAG_GRANULARITY_1B \<equiv> 0x00"
abbreviation (input) GDT_FLAG_GRANULARITY_4K :: u8 where "GDT_FLAG_GRANULARITY_4K \<equiv> 0x80"

abbreviation (input) GDT_ACCESS_CODE_READABLE :: u8 where "GDT_ACCESS_CODE_READABLE \<equiv> 0x02"
abbreviation (input) GDT_ACCESS_DATA_WRITEABLE :: u8 where "GDT_ACCESS_DATA_WRITEABLE \<equiv> 0x02"
abbreviation (input) GDT_ACCESS_EXECUTABLE :: u8 where "GDT_ACCESS_EXECUTABLE \<equiv> 0x08"
abbreviation (input) GDT_ACCESS_DATA_SEGMENT :: u8 where "GDT_ACCESS_DATA_SEGMENT \<equiv> 0x10"
abbreviation (input) GDT_ACCESS_CODE_SEGMENT :: u8 where "GDT_ACCESS_CODE_SEGMENT \<equiv> 0x10"
abbreviation (input) GDT_ACCESS_RING0 :: u8 where "GDT_ACCESS_RING0 \<equiv> 0x00"
abbreviation (input) GDT_ACCESS_RING3 :: u8 where "GDT_ACCESS_RING3 \<equiv> 0x60"
abbreviation (input) GDT_ACCESS_PRESENT :: u8 where "GDT_ACCESS_PRESENT \<equiv> 0x80"

abbreviation (input) GDT_KERNEL_CODE_16_BIT :: u16 where "GDT_KERNEL_CODE_16_BIT \<equiv> 0x8"
abbreviation (input) GDT_KERNEL_DATA_16_BIT :: u16 where "GDT_KERNEL_DATA_16_BIT \<equiv> 0x10"
abbreviation (input) GDT_KERNEL_CODE_32_BIT :: u16 where "GDT_KERNEL_CODE_32_BIT \<equiv> 0x18"
abbreviation (input) GDT_KERNEL_DATA_32_BIT :: u16 where "GDT_KERNEL_DATA_32_BIT \<equiv> 0x20"
abbreviation (input) GDT_KERNEL_CODE_64_BIT :: u16 where "GDT_KERNEL_CODE_64_BIT \<equiv> 0x28"
abbreviation (input) GDT_KERNEL_DATA_64_BIT :: u16 where "GDT_KERNEL_DATA_64_BIT \<equiv> 0x30"
abbreviation (input) GDT_USER_CODE_64_BIT :: u16 where "GDT_USER_CODE_64_BIT \<equiv> 0x38"
abbreviation (input) GDT_USER_DATA_64_BIT :: u16 where "GDT_USER_DATA_64_BIT \<equiv> 0x40"

abbreviation (input) NUM_CPUS :: nat where "NUM_CPUS \<equiv> 1"

section \<open>Encoding a descriptor\<close>

definition GDT_LIMIT_LOW :: "u64 \<Rightarrow> u16" where
  "GDT_LIMIT_LOW limit = ucast (limit AND 0xFFFF)"

definition GDT_BASE_LOW :: "u64 \<Rightarrow> u16" where
  "GDT_BASE_LOW base = ucast (base AND 0xFFFF)"

definition GDT_BASE_MID :: "u64 \<Rightarrow> u8" where
  "GDT_BASE_MID base = ucast (drop_bit 16 base AND 0xFF)"

definition GDT_FLAGS_LIMIT_HIGH :: "u64 \<Rightarrow> u8 \<Rightarrow> u8" where
  "GDT_FLAGS_LIMIT_HIGH limit flags = ucast ((drop_bit 16 limit AND 0xF) OR (ucast flags AND 0xF0))"

definition GDT_BASE_HIGH :: "u64 \<Rightarrow> u8" where
  "GDT_BASE_HIGH base = ucast (drop_bit 24 base AND 0xFF)"

definition gdt_init_entry :: "u64 \<Rightarrow> u64 \<Rightarrow> u8 \<Rightarrow> u8 \<Rightarrow> gdt_entry \<Rightarrow> gdt_entry" where
  "gdt_init_entry base limit acc flags e =
     e\<lparr>limit_low := GDT_LIMIT_LOW limit, flags_limit_high := GDT_FLAGS_LIMIT_HIGH limit flags,
       base_low := GDT_BASE_LOW base, base_middle := GDT_BASE_MID base,
       base_high := GDT_BASE_HIGH base, access := acc\<rparr>"

section \<open>gdt_init\<close>

text \<open>The register holds the size and the number of the processor whose table it names.\<close>

record gdt_state = io_state +
  g_gdt :: "gdt_table list"
  num_gdt :: nat
  gdtr :: "(u16 \<times> nat) option"

definition zero_table :: gdt_table where
  "zero_table = \<lparr>null_desc = null_entry, kernel_code_16_bit = null_entry, kernel_data_16_bit = null_entry,
     kernel_code_32_bit = null_entry, kernel_data_32_bit = null_entry, kernel_code_64_bit = null_entry,
     kernel_data_64_bit = null_entry, user_code_64_bit = null_entry, user_data_64_bit = null_entry\<rparr>"

definition code_access :: "u8 \<Rightarrow> u8" where
  "code_access ring = GDT_ACCESS_PRESENT OR ring OR GDT_ACCESS_EXECUTABLE OR
     GDT_ACCESS_CODE_SEGMENT OR GDT_ACCESS_CODE_READABLE"

definition data_access :: "u8 \<Rightarrow> u8" where
  "data_access ring = GDT_ACCESS_PRESENT OR ring OR GDT_ACCESS_DATA_SEGMENT OR GDT_ACCESS_DATA_WRITEABLE"

definition gdt_fill :: "gdt_table \<Rightarrow> gdt_table" where
  "gdt_fill g =
     g\<lparr>null_desc := gdt_init_entry 0 0 0 0 (null_desc g),
       kernel_code_16_bit := gdt_init_entry 0 0xFFFF (code_access GDT_ACCESS_RING0)
         (GDT_FLAG_16BIT OR GDT_FLAG_GRANULARITY_1B) (kernel_code_16_bit g),
       kernel_data_16_bit := gdt_init_entry 0 0xFFFF (data_access GDT_ACCESS_RING0)
         (GDT_FLAG_16BIT OR GDT_FLAG_GRANULARITY_1B) (kernel_data_16_bit g),
       kernel_code_32_bit := gdt_init_entry 0 0xFFFFFFFF (code_access GDT_ACCESS_RING0)
         (GDT_FLAG_32BIT OR GDT_FLAG_GRANULARITY_4K) (kernel_code_32_bit g),
       kernel_data_32_bit := gdt_init_entry 0 0xFFFFFFFF (data_access GDT_ACCESS_RING0)
         (GDT_FLAG_32BIT OR GDT_FLAG_GRANULARITY_4K) (kernel_data_32_bit g),
       kernel_code_64_bit := gdt_init_entry 0 0xFFFFFFFF (code_access GDT_ACCESS_RING0)
         (GDT_FLAG_64BIT OR GDT_FLAG_GRANULARITY_4K) (kernel_code_64_bit g),
       kernel_data_64_bit := gdt_init_entry 0 0xFFFFFFFF (data_access GDT_ACCESS_RING0)
         (GDT_FLAG_64BIT OR GDT_FLAG_GRANULARITY_4K) (kernel_data_64_bit g),
       user_code_64_bit := gdt_init_entry 0 0xFFFFFFFF (code_access GDT_ACCESS_RING3)
         (GDT_FLAG_64BIT OR GDT_FLAG_GRANULARITY_4K) (user_code_64_bit g),
       user_data_64_bit := gdt_init_entry 0 0xFFFFFFFF (data_access GDT_ACCESS_RING3)
         (GDT_FLAG_64BIT OR GDT_FLAG_GRANULARITY_4K) (user_data_64_bit g)\<rparr>"

definition gdt_load :: "u16 \<times> nat \<Rightarrow> 'a gdt_state_scheme \<Rightarrow> 'a gdt_state_scheme" where
  "gdt_load descriptor s = s\<lparr>gdtr := Some descriptor\<rparr>"

definition gdt_init :: "'a gdt_state_scheme \<Rightarrow> 'a gdt_state_scheme option" where
  "gdt_init s =
     (if num_gdt s + 1 > NUM_CPUS then halt s
      else let n = num_gdt s;
               s = s\<lparr>num_gdt := n + 1, g_gdt := (g_gdt s)[n := gdt_fill zero_table]\<rparr>
      in Some (gdt_load (9 * 8 - 1, n) s))"

section \<open>What a descriptor says\<close>

text \<open>The processor's reading of a descriptor.\<close>

definition segment_base :: "gdt_entry \<Rightarrow> u32" where
  "segment_base e = ucast (base_low e) OR push_bit 16 (ucast (base_middle e)) OR push_bit 24 (ucast (base_high e))"

definition segment_limit :: "gdt_entry \<Rightarrow> u32" where
  "segment_limit e = ucast (limit_low e) OR push_bit 16 (ucast (flags_limit_high e AND 0xF))"

definition segment_flags :: "gdt_entry \<Rightarrow> u8" where
  "segment_flags e = flags_limit_high e AND 0xF0"

definition segment_dpl :: "gdt_entry \<Rightarrow> u8" where
  "segment_dpl e = drop_bit 5 (access e) AND 3"

definition segment_present :: "gdt_entry \<Rightarrow> bool" where
  "segment_present e \<longleftrightarrow> bit (access e) 7"

definition segment_executable :: "gdt_entry \<Rightarrow> bool" where
  "segment_executable e \<longleftrightarrow> bit (access e) 3"

definition segment_long :: "gdt_entry \<Rightarrow> bool" where
  "segment_long e \<longleftrightarrow> bit (flags_limit_high e) 5"

lemmas segment_defs = segment_base_def segment_limit_def segment_flags_def segment_dpl_def
  segment_present_def segment_executable_def segment_long_def

lemmas gdt_field_defs = GDT_LIMIT_LOW_def GDT_BASE_LOW_def GDT_BASE_MID_def GDT_FLAGS_LIMIT_HIGH_def
  GDT_BASE_HIGH_def

lemma byte_masks:
  "(0xF :: 'a::len word) = mask 4" "(0xFF :: 'a::len word) = mask 8" "(0xFFFF :: 'a::len word) = mask 16"
  "(0xF0 :: 'a::len word) = push_bit 4 (mask 4)"
  by (simp_all add: mask_eq_exp_minus_1 push_bit_eq_mult)

lemma encoded_base: "segment_base (gdt_init_entry base limit acc flags e) = ucast base"
proof (rule bit_word_eqI)
  fix n assume n: "n < LENGTH(32)"
  show "bit (segment_base (gdt_init_entry base limit acc flags e)) n = bit (ucast base :: u32) n"
    unfolding segment_base_def gdt_init_entry_def gdt_field_defs byte_masks
    using n by (cases "n < 24") (auto simp: bit_simps)
qed

lemma encoded_limit: "segment_limit (gdt_init_entry base limit acc flags e) = ucast limit AND mask 20"
  unfolding segment_limit_def gdt_init_entry_def gdt_field_defs byte_masks
  by (rule bit_word_eqI) (auto simp: bit_simps)

lemma encoded_flags: "segment_flags (gdt_init_entry base limit acc flags e) = flags AND 0xF0"
  unfolding segment_flags_def gdt_init_entry_def gdt_field_defs byte_masks
  by (rule bit_word_eqI) (auto simp: bit_simps)

lemma encoded_access [simp]: "access (gdt_init_entry base limit acc flags e) = acc"
  by (simp add: gdt_init_entry_def)

text \<open>A selector names the descriptor at its offset in the table.\<close>

definition table_entries :: "gdt_table \<Rightarrow> gdt_entry list" where
  "table_entries g = [null_desc g, kernel_code_16_bit g, kernel_data_16_bit g, kernel_code_32_bit g,
     kernel_data_32_bit g, kernel_code_64_bit g, kernel_data_64_bit g, user_code_64_bit g, user_data_64_bit g]"

definition descriptor_at :: "gdt_table \<Rightarrow> u16 \<Rightarrow> gdt_entry" where
  "descriptor_at g sel = table_entries g ! (unat sel div 8)"

text \<open>Base, limit, present bit, privilege level, executable and long-mode bit of a descriptor.\<close>

definition segment_view :: "gdt_entry \<Rightarrow> u32 \<times> u32 \<times> bool \<times> u8 \<times> bool \<times> bool" where
  "segment_view e =
     (segment_base e, segment_limit e, segment_present e, segment_dpl e, segment_executable e, segment_long e)"

lemma segment_view_init:
  "segment_view (gdt_init_entry base limit acc flags e) =
     (ucast base, ucast limit AND mask 20, bit acc 7, drop_bit 5 acc AND 3, bit acc 3, bit flags 5)"
proof -
  have "segment_long (gdt_init_entry base limit acc flags e) = bit flags 5"
    unfolding segment_long_def gdt_init_entry_def gdt_field_defs byte_masks by (simp add: bit_simps)
  then show ?thesis
    by (simp add: segment_view_def encoded_base encoded_limit segment_present_def segment_dpl_def
        segment_executable_def)
qed

lemma gdt_fill_view:
  "map segment_view (table_entries (gdt_fill g)) =
     [(0, 0, False, 0, False, False),
      (0, 0xFFFF, True, 0, True, False), (0, 0xFFFF, True, 0, False, False),
      (0, 0xFFFFF, True, 0, True, False), (0, 0xFFFFF, True, 0, False, False),
      (0, 0xFFFFF, True, 0, True, True), (0, 0xFFFFF, True, 0, False, True),
      (0, 0xFFFFF, True, 3, True, True), (0, 0xFFFFF, True, 3, False, True)]"
  by (simp add: table_entries_def gdt_fill_def segment_view_init code_access_def data_access_def
      mask_eq_exp_minus_1)

lemma gdt_init_spec:
  assumes "num_gdt s = 0" and "List.length (g_gdt s) = NUM_CPUS"
  shows "gdt_init s = Some (s\<lparr>num_gdt := 1, g_gdt := [gdt_fill zero_table], gdtr := Some (71, 0)\<rparr>)"
  using assms by (cases "g_gdt s") (auto simp: gdt_init_def Let_def gdt_load_def)

lemma gdt_init_again: "num_gdt s \<ge> NUM_CPUS \<Longrightarrow> gdt_init s = None"
  by (simp add: gdt_init_def halt_def)

end
