(* ===== verification/Interrupts.thy ===== *)
theory Interrupts
  imports Timer Gdt
begin

text \<open>
  Interrupt dispatch: the descriptor table (\<^verbatim>\<open>idt.c\<close>), its generated entries
  (\<^verbatim>\<open>isrs_gen.c\<close>), the service routines (\<^verbatim>\<open>isr.c\<close>) and the hardware
  interrupts (\<^verbatim>\<open>irq.c\<close>), all under \<^verbatim>\<open>kernel/src/sys/interrupts\<close>.

  A handler pointer is a constructor named after the function. The bodies of the handlers
  that belong to other components are a parameter \<open>body\<close>; the addresses of the assembly
  stubs \<^verbatim>\<open>ISR0\<close> to \<^verbatim>\<open>ISR255\<close> are a parameter \<open>ISR\<close>. The three
  tables are lists of the sizes the arrays have. An index outside an array is undefined
  behaviour in C and has no value here.
\<close>

section \<open>idt.c\<close>

record idt_entry =
  ie_base_low :: u16
  segment_selector :: u16
  ist :: u8
  gate_type :: u8
  ie_base_mid :: u16
  ie_base_high :: u32
  ie_reserved :: u32

abbreviation (input) X86_64_IDT_ENTRIES :: nat where "X86_64_IDT_ENTRIES \<equiv> 256"
abbreviation (input) IDT_FLAG_GATE_64BIT_INT :: u8 where "IDT_FLAG_GATE_64BIT_INT \<equiv> 0x8E"
abbreviation (input) IDT_FLAG_RING0 :: u8 where "IDT_FLAG_RING0 \<equiv> 0"
abbreviation (input) IDT_FLAG_PRESENT :: u8 where "IDT_FLAG_PRESENT \<equiv> 0x80"
abbreviation (input) NUM_HARDWARE_INTERRUPTS :: nat where "NUM_HARDWARE_INTERRUPTS \<equiv> 0x10"
abbreviation (input) PIC_REMAP_OFFSET :: nat where "PIC_REMAP_OFFSET \<equiv> 0x20"
abbreviation (input) PIT_1MS :: u32 where "PIT_1MS \<equiv> 1000"

datatype irq_fn = CLKHANDLER | CLKHANDLER_TWO | KBHANDLER
datatype isr_fn = IRQ_HANDLER | OTHER_ISR nat

record irq_state = tick_state +
  g_idt :: "idt_entry list"
  idt_loaded :: bool
  g_isr_handlers :: "isr_fn option list"
  g_irq_handler :: "irq_fn option list"

definition zero_gate :: idt_entry where
  "zero_gate = \<lparr>ie_base_low = 0, segment_selector = 0, ist = 0, gate_type = 0, ie_base_mid = 0,
     ie_base_high = 0, ie_reserved = 0\<rparr>"

definition update_gate :: "nat \<Rightarrow> (idt_entry \<Rightarrow> idt_entry) \<Rightarrow> 'a irq_state_scheme \<Rightarrow> 'a irq_state_scheme" where
  "update_gate i f s = s\<lparr>g_idt := (g_idt s)[i := f (g_idt s ! i)]\<rparr>"

definition idt_init_entry :: "nat \<Rightarrow> u64 \<Rightarrow> u16 \<Rightarrow> u8 \<Rightarrow> 'a irq_state_scheme \<Rightarrow> 'a irq_state_scheme" where
  "idt_init_entry interrupt base segment type =
     update_gate interrupt (\<lambda>e. e\<lparr>segment_selector := segment,
       ie_base_low := ucast (base AND 0xFFFF),
       ie_base_mid := ucast (drop_bit 16 base AND 0xFFFF),
       ie_base_high := ucast (drop_bit 32 base AND 0xFFFFFFFF),
       ist := 0, gate_type := type\<rparr>)"

definition idt_init :: "'a irq_state_scheme \<Rightarrow> 'a irq_state_scheme" where
  "idt_init s =
     (let s = fold (\<lambda>i. update_gate i (\<lambda>_. zero_gate)) [0..<X86_64_IDT_ENTRIES] s in s\<lparr>idt_loaded := True\<rparr>)"

definition idt_enable_gate :: "nat \<Rightarrow> 'a irq_state_scheme \<Rightarrow> 'a irq_state_scheme" where
  "idt_enable_gate interrupt =
     update_gate interrupt (\<lambda>e. e\<lparr>gate_type := gate_type e OR IDT_FLAG_PRESENT\<rparr>)"

definition idt_disable_gate :: "nat \<Rightarrow> 'a irq_state_scheme \<Rightarrow> 'a irq_state_scheme" where
  "idt_disable_gate interrupt =
     update_gate interrupt (\<lambda>e. e\<lparr>gate_type := gate_type e AND NOT IDT_FLAG_PRESENT\<rparr>)"

section \<open>isrs_gen.c\<close>

text \<open>The generated file repeats one call for each vector; it is cut into four runs of calls.\<close>

definition isr_gate :: "(nat \<Rightarrow> u64) \<Rightarrow> nat \<Rightarrow> 'a irq_state_scheme \<Rightarrow> 'a irq_state_scheme" where
  "isr_gate ISR i = idt_init_entry i (ISR i) GDT_KERNEL_CODE_64_BIT (IDT_FLAG_RING0 OR IDT_FLAG_GATE_64BIT_INT)"

definition isr_gates_0_74 :: "(nat \<Rightarrow> u64) \<Rightarrow> 'a irq_state_scheme \<Rightarrow> 'a irq_state_scheme" where
  "isr_gates_0_74 ISR = fold (isr_gate ISR) [0..<75]"

definition isr_gates_75_149 :: "(nat \<Rightarrow> u64) \<Rightarrow> 'a irq_state_scheme \<Rightarrow> 'a irq_state_scheme" where
  "isr_gates_75_149 ISR = fold (isr_gate ISR) [75..<150]"

definition isr_gates_150_224 :: "(nat \<Rightarrow> u64) \<Rightarrow> 'a irq_state_scheme \<Rightarrow> 'a irq_state_scheme" where
  "isr_gates_150_224 ISR = fold (isr_gate ISR) [150..<225]"

definition isr_gates_225_255 :: "(nat \<Rightarrow> u64) \<Rightarrow> 'a irq_state_scheme \<Rightarrow> 'a irq_state_scheme" where
  "isr_gates_225_255 ISR = fold (isr_gate ISR) [225..<256]"

definition isr_init_entries :: "(nat \<Rightarrow> u64) \<Rightarrow> 'a irq_state_scheme \<Rightarrow> 'a irq_state_scheme" where
  "isr_init_entries ISR s =
     (let s = isr_gates_0_74 ISR s; s = isr_gates_75_149 ISR s; s = isr_gates_150_224 ISR s
      in isr_gates_225_255 ISR s)"

section \<open>irq.c and isr.c\<close>

text \<open>
  The handlers take the saved registers; the dispatch reads their \<^verbatim>\<open>interrupt\<close> field
  only (the others go to the diagnostics printed before a halt).
\<close>

record registers =
  r15 :: u64
  r14 :: u64
  r13 :: u64
  r12 :: u64
  r11 :: u64
  r10 :: u64
  r9 :: u64
  r8 :: u64
  rsi :: u64
  rdi :: u64
  rbp :: u64
  rdx :: u64
  rcx :: u64
  rbx :: u64
  rax :: u64
  interrupt :: u64
  error_code :: u64
  rip :: u64
  cs :: u64
  rflags :: u64
  rsp :: u64
  ss :: u64

definition call_irq :: "(irq_fn \<Rightarrow> irq_state \<Rightarrow> irq_state option) \<Rightarrow> irq_fn \<Rightarrow> irq_state \<Rightarrow> irq_state option" where
  "call_irq body f s = (if f = CLKHANDLER then Some (clkhandler s) else body f s)"

definition irq_handler :: "(irq_fn \<Rightarrow> irq_state \<Rightarrow> irq_state option) \<Rightarrow> registers \<Rightarrow> irq_state \<Rightarrow> irq_state option" where
  "irq_handler body regs s =
     (let irq = uint (interrupt regs) - int PIC_REMAP_OFFSET
      in if irq < 0 \<or> int NUM_HARDWARE_INTERRUPTS \<le> irq then None
         else case g_irq_handler s ! nat irq of
                Some f \<Rightarrow> call_irq body f s
              | None \<Rightarrow> Some s)"

definition irq_register_handler :: "nat \<Rightarrow> irq_fn \<Rightarrow> 'a irq_state_scheme \<Rightarrow> 'a irq_state_scheme" where
  "irq_register_handler irq handler s = s\<lparr>g_irq_handler := (g_irq_handler s)[irq := Some handler]\<rparr>"

definition irq_unregister_handler :: "nat \<Rightarrow> 'a irq_state_scheme \<Rightarrow> 'a irq_state_scheme" where
  "irq_unregister_handler irq s = s\<lparr>g_irq_handler := (g_irq_handler s)[irq := None]\<rparr>"

definition call_isr :: "(irq_fn \<Rightarrow> irq_state \<Rightarrow> irq_state option) \<Rightarrow> (nat \<Rightarrow> registers \<Rightarrow> irq_state \<Rightarrow> irq_state option) \<Rightarrow>
    isr_fn \<Rightarrow> registers \<Rightarrow> irq_state \<Rightarrow> irq_state option" where
  "call_isr body other f regs s =
     (case f of IRQ_HANDLER \<Rightarrow> irq_handler body regs s | OTHER_ISR n \<Rightarrow> other n regs s)"

definition isr_handler :: "(irq_fn \<Rightarrow> irq_state \<Rightarrow> irq_state option) \<Rightarrow> (nat \<Rightarrow> registers \<Rightarrow> irq_state \<Rightarrow> irq_state option) \<Rightarrow>
    registers \<Rightarrow> irq_state \<Rightarrow> irq_state option" where
  "isr_handler body other regs s =
     (if unat (interrupt regs) \<ge> X86_64_IDT_ENTRIES then None
      else case g_isr_handlers s ! unat (interrupt regs) of
             Some f \<Rightarrow> call_isr body other f regs s
           | None \<Rightarrow> if interrupt regs \<ge> 32 then halt s else halt s)"

definition isr_init :: "(nat \<Rightarrow> u64) \<Rightarrow> 'a irq_state_scheme \<Rightarrow> 'a irq_state_scheme" where
  "isr_init ISR s =
     (let s = isr_init_entries ISR s;
          s = fold idt_enable_gate [0..<256] s;
          s = idt_disable_gate 0x80 s
      in enable_interrupts s)"

definition isr_register_handler :: "nat \<Rightarrow> isr_fn \<Rightarrow> 'a irq_state_scheme \<Rightarrow> 'a irq_state_scheme" where
  "isr_register_handler i handler s =
     (let s = s\<lparr>g_isr_handlers := (g_isr_handlers s)[i := Some handler]\<rparr> in idt_enable_gate i s)"

definition irq_init :: "hardware \<Rightarrow> 'a irq_state_scheme \<Rightarrow> 'a irq_state_scheme" where
  "irq_init dev s =
     (let s = disable_interrupts s; (found, s) = pic_probe dev s
      in if \<not> found then s
         else let s = pic_configure (of_nat PIC_REMAP_OFFSET) (of_nat (PIC_REMAP_OFFSET + 8)) s;
                  s = pit_init PIT_1MS s;
                  s = irq_register_handler 0 CLKHANDLER s;
                  s = fold (\<lambda>i. isr_register_handler (PIC_REMAP_OFFSET + i) IRQ_HANDLER)
                        [0..<NUM_HARDWARE_INTERRUPTS] s
              in enable_interrupts s)"

section \<open>Gates\<close>

text \<open>Where the processor goes through a gate.\<close>

definition gate_target :: "idt_entry \<Rightarrow> u64" where
  "gate_target e = ucast (ie_base_low e) OR push_bit 16 (ucast (ie_base_mid e)) OR push_bit 32 (ucast (ie_base_high e))"

definition gate_present :: "idt_entry \<Rightarrow> bool" where
  "gate_present e \<longleftrightarrow> bit (gate_type e) 7"

lemma gate_target_split:
  "(ucast (ucast (base AND 0xFFFF :: u64) :: u16) :: u64) OR
   push_bit 16 (ucast (ucast (drop_bit 16 base AND 0xFFFF) :: u16)) OR
   push_bit 32 (ucast (ucast (drop_bit 32 base AND 0xFFFFFFFF) :: u32)) = base"
proof -
  have c: "(0xFFFF :: u64) = mask 16" "(0xFFFFFFFF :: u64) = mask 32" by (simp_all add: mask_eq_exp_minus_1)
  show ?thesis unfolding c
  proof (rule bit_word_eqI)
    fix n assume n: "n < LENGTH(64)"
    consider "n < 16" | "16 \<le> n" "n < 32" | "32 \<le> n" by linarith
    then show "bit ((ucast (ucast (base AND mask 16 :: u64) :: u16) :: u64) OR
       push_bit 16 (ucast (ucast (drop_bit 16 base AND mask 16) :: u16)) OR
       push_bit 32 (ucast (ucast (drop_bit 32 base AND mask 32) :: u32))) n = bit base n"
      using n by cases (auto simp: bit_simps)
  qed
qed

text \<open>A loop over distinct indices updates each entry once.\<close>

lemma update_gate_nth:
  "i < List.length (g_idt s) \<Longrightarrow> g_idt (update_gate j f s) ! i = (if i = j then f (g_idt s ! i) else g_idt s ! i)"
  by (simp add: update_gate_def nth_list_update)

lemma update_gate_length [simp]: "List.length (g_idt (update_gate j f s)) = List.length (g_idt s)"
  by (simp add: update_gate_def)

lemma update_gate_other [simp]:
  "g_isr_handlers (update_gate j f s) = g_isr_handlers s" "g_irq_handler (update_gate j f s) = g_irq_handler s"
  "trace (update_gate j f s) = trace s" "g_pic_mask (update_gate j f s) = g_pic_mask s"
  "system_time (update_gate j f s) = system_time s" "preempt_quantum (update_gate j f s) = preempt_quantum s"
  "interrupts_on (update_gate j f s) = interrupts_on s"
  by (simp_all add: update_gate_def)

lemma fold_update_gate:
  assumes "distinct js"
  shows "List.length (g_idt (fold (\<lambda>j. update_gate j (f j)) js s)) = List.length (g_idt s)"
    and "i < List.length (g_idt s) \<Longrightarrow>
      g_idt (fold (\<lambda>j. update_gate j (f j)) js s) ! i = (if i \<in> set js then f i (g_idt s ! i) else g_idt s ! i)"
  using assms by (induction js arbitrary: s) (auto simp: update_gate_nth)

lemma isr_gate_update:
  "isr_gate ISR = (\<lambda>i. update_gate i (\<lambda>e. e\<lparr>segment_selector := GDT_KERNEL_CODE_64_BIT,
       ie_base_low := ucast (ISR i AND 0xFFFF), ie_base_mid := ucast (drop_bit 16 (ISR i) AND 0xFFFF),
       ie_base_high := ucast (drop_bit 32 (ISR i) AND 0xFFFFFFFF), ist := 0, gate_type := 0x8E\<rparr>))"
  by (rule ext) (simp add: isr_gate_def idt_init_entry_def)

lemma isr_init_entries_fold: "isr_init_entries ISR s = fold (isr_gate ISR) [0..<256] s"
proof -
  have split: "[i..<k] = [i..<j] @ [j..<k]" if "i \<le> j" "j \<le> k" for i j k :: nat
    using upt_add_eq_append [OF that(1), of "k - j"] that by simp
  have "[0..<256] = [0..<75] @ [75..<150] @ [150..<225] @ [225..<256]"
    using split [of 0 75 256] split [of 75 150 256] split [of 150 225 256] by simp
  then show ?thesis
    by (simp only: isr_init_entries_def Let_def isr_gates_0_74_def isr_gates_75_149_def isr_gates_150_224_def
        isr_gates_225_255_def fold_append comp_apply)
qed

lemma isr_init_gate:
  fixes ISR :: "nat \<Rightarrow> u64" and s :: "'a irq_state_scheme" and i :: nat
  assumes len: "List.length (g_idt s) = X86_64_IDT_ENTRIES" and i: "i < X86_64_IDT_ENTRIES"
  defines "e \<equiv> g_idt (isr_init ISR s) ! i"
  shows "gate_target e = ISR i" and "segment_selector e = 0x28" and "ist e = 0"
    and "gate_type e = (if i = 0x80 then 0x0E else 0x8E)"
proof -
  define s1 where "s1 = isr_init_entries ISR s"
  define s2 where "s2 = fold idt_enable_gate [0..<256] s1"
  have l1: "List.length (g_idt s1) = 256"
    unfolding s1_def isr_init_entries_fold isr_gate_update by (simp only: fold_update_gate(1) distinct_upt len)
  have e1: "g_idt s1 ! i = (g_idt s ! i)\<lparr>segment_selector := 0x28, ie_base_low := ucast (ISR i AND 0xFFFF),
     ie_base_mid := ucast (drop_bit 16 (ISR i) AND 0xFFFF),
     ie_base_high := ucast (drop_bit 32 (ISR i) AND 0xFFFFFFFF), ist := 0, gate_type := 0x8E\<rparr>"
    unfolding s1_def isr_init_entries_fold isr_gate_update
    using i by (subst fold_update_gate(2)) (simp_all add: len del: upt_conv_Cons_Cons)
  have en: "idt_enable_gate = (\<lambda>i. update_gate i ((\<lambda>_ e. e\<lparr>gate_type := gate_type e OR IDT_FLAG_PRESENT\<rparr>) i))"
    by (rule ext) (simp add: idt_enable_gate_def)
  have l2: "List.length (g_idt s2) = 256"
    unfolding s2_def en by (simp only: fold_update_gate(1) distinct_upt l1)
  have e2: "g_idt s2 ! i = (g_idt s1 ! i)\<lparr>gate_type := gate_type (g_idt s1 ! i) OR 0x80\<rparr>"
    unfolding s2_def en using i l1 by (subst fold_update_gate(2)) simp_all
  have "e = g_idt (idt_disable_gate 0x80 s2) ! i"
    by (simp only: e_def isr_init_def Let_def s1_def s2_def) (simp add: enable_interrupts_def)
  moreover define g where "g = g_idt s2 ! i"
  ultimately have e: "e = (if i = 0x80 then g\<lparr>gate_type := gate_type g AND NOT 0x80\<rparr> else g)"
    using i l2 by (simp add: idt_disable_gate_def update_gate_nth)
  note g = e2 [folded g_def, unfolded e1]
  have "gate_target e = gate_target g" by (simp add: e gate_target_def)
  then show "gate_target e = ISR i" using gate_target_split [of "ISR i"] by (simp add: g gate_target_def)
  show "segment_selector e = 0x28" "ist e = 0" "gate_type e = (if i = 0x80 then 0x0E else 0x8E)"
    by (simp_all add: e g)
qed

section \<open>Dispatch after irq_init\<close>

definition tables_ok :: "'a irq_state_scheme \<Rightarrow> bool" where
  "tables_ok s \<longleftrightarrow> List.length (g_idt s) = 256 \<and> List.length (g_isr_handlers s) = 256 \<and>
     List.length (g_irq_handler s) = 16"

text \<open>Interrupt code touches the rest of the state through port I/O only.\<close>

lemma pic_ops_tables [simp]:
  "g_isr_handlers (pic_set_mask m s) = g_isr_handlers s" "g_irq_handler (pic_set_mask m s) = g_irq_handler s"
  "g_idt (pic_set_mask m s) = g_idt s" "system_time (pic_set_mask m s) = system_time s"
  "preempt_quantum (pic_set_mask m s) = preempt_quantum s" "interrupts_on (pic_set_mask m s) = interrupts_on s"
  for s :: "'a irq_state_scheme"
  by (simp_all add: pic_set_mask_def Let_def outb_def io_wait_def)

lemma probe_tables [simp]:
  "g_isr_handlers (snd (pic_probe dev s)) = g_isr_handlers s" "g_irq_handler (snd (pic_probe dev s)) = g_irq_handler s"
  "g_idt (snd (pic_probe dev s)) = g_idt s" "system_time (snd (pic_probe dev s)) = system_time s"
  "preempt_quantum (snd (pic_probe dev s)) = preempt_quantum s"
  "interrupts_on (snd (pic_probe dev s)) = interrupts_on s"
  for s :: "'a irq_state_scheme"
  by (simp_all add: pic_probe_def pic_disable_def pic_get_mask_def inb_def Let_def)

lemma configure_tables [simp]:
  "g_isr_handlers (pic_configure a b s) = g_isr_handlers s" "g_irq_handler (pic_configure a b s) = g_irq_handler s"
  "g_idt (pic_configure a b s) = g_idt s" "system_time (pic_configure a b s) = system_time s"
  "preempt_quantum (pic_configure a b s) = preempt_quantum s" "interrupts_on (pic_configure a b s) = interrupts_on s"
  for s :: "'a irq_state_scheme"
  by (simp_all add: pic_configure_def outb_def io_wait_def Let_def)

lemma pit_tables [simp]:
  "g_isr_handlers (pit_init hz s) = g_isr_handlers s" "g_irq_handler (pit_init hz s) = g_irq_handler s"
  "g_idt (pit_init hz s) = g_idt s" "system_time (pit_init hz s) = system_time s"
  "preempt_quantum (pit_init hz s) = preempt_quantum s" "interrupts_on (pit_init hz s) = interrupts_on s"
  for s :: "'a irq_state_scheme"
  by (simp_all add: pit_init_def pic_unmask_def outb_def Let_def)

lemma register_all:
  assumes "List.length (g_isr_handlers s) = 256" and "n \<le> 16" and "v < 256"
  shows "g_isr_handlers (fold (\<lambda>i. isr_register_handler (32 + i) IRQ_HANDLER) [0..<n] s) ! v =
      (if 32 \<le> v \<and> v < 32 + n then Some IRQ_HANDLER else g_isr_handlers s ! v)"
    and "List.length (g_isr_handlers (fold (\<lambda>i. isr_register_handler (32 + i) IRQ_HANDLER) [0..<n] s)) = 256"
    and "g_irq_handler (fold (\<lambda>i. isr_register_handler (32 + i) IRQ_HANDLER) [0..<n] s) = g_irq_handler s"
    and "trace (fold (\<lambda>i. isr_register_handler (32 + i) IRQ_HANDLER) [0..<n] s) = trace s"
    and "g_pic_mask (fold (\<lambda>i. isr_register_handler (32 + i) IRQ_HANDLER) [0..<n] s) = g_pic_mask s"
    and "List.length (g_idt (fold (\<lambda>i. isr_register_handler (32 + i) IRQ_HANDLER) [0..<n] s)) = List.length (g_idt s)"
  using assms(2,1,3)
  by (induction n) (auto simp: isr_register_handler_def Let_def idt_enable_gate_def nth_list_update less_Suc_eq)

lemma irq_init_not_found:
  "\<not> fst (pic_probe dev (disable_interrupts s)) \<Longrightarrow>
   \<not> interrupts_on (irq_init dev s) \<and> g_isr_handlers (irq_init dev s) = g_isr_handlers s \<and>
   g_irq_handler (irq_init dev s) = g_irq_handler s"
  for s :: "'a irq_state_scheme"
  using probe_tables [of dev "disable_interrupts s"]
  by (simp add: irq_init_def Let_def split_beta disable_interrupts_def)

lemma irq_init_found:
  fixes s :: "'a irq_state_scheme"
  assumes "fst (pic_probe dev (disable_interrupts s))" and "tables_ok s"
  defines "t \<equiv> irq_init dev s"
  shows "interrupts_on t" and "tables_ok t"
    and "v < 256 \<Longrightarrow> g_isr_handlers t ! v = (if 32 \<le> v \<and> v < 48 then Some IRQ_HANDLER else g_isr_handlers s ! v)"
    and "g_irq_handler t = (g_irq_handler s)[0 := Some CLKHANDLER]"
    and "in_sync 0x20 0x28 t" and "masked (g_pic_mask t) = {1..<16}"
    and "reload_value (trace t) = 1193"
proof -
  let ?c = "pic_configure 0x20 0x28 (snd (pic_probe dev (disable_interrupts s)))"
  let ?p = "pit_init PIT_1MS ?c"
  define r where "r = irq_register_handler 0 CLKHANDLER ?p"
  have t: "t = enable_interrupts (fold (\<lambda>i. isr_register_handler (32 + i) IRQ_HANDLER) [0..<16] r)"
    using assms(1) by (simp add: t_def irq_init_def Let_def split_beta r_def)
  have r: "g_isr_handlers r = g_isr_handlers s" "g_irq_handler r = (g_irq_handler s)[0 := Some CLKHANDLER]"
    "g_idt r = g_idt s" "trace r = trace ?p" "g_pic_mask r = g_pic_mask ?p"
    by (simp_all add: r_def irq_register_handler_def disable_interrupts_def)
  have l: "List.length (g_isr_handlers r) = 256" using assms(2) by (simp add: r tables_ok_def)
  note f = register_all [OF l order.refl]
  show "interrupts_on t" by (simp add: t enable_interrupts_def)
  show "tables_ok t" using assms(2) f(2,3,6) [of 0] r by (simp add: t enable_interrupts_def tables_ok_def)
  show "g_isr_handlers t ! v = (if 32 \<le> v \<and> v < 48 then Some IRQ_HANDLER else g_isr_handlers s ! v)" if "v < 256"
    using f(1) [OF that] by (simp add: t enable_interrupts_def r)
  show "g_irq_handler t = (g_irq_handler s)[0 := Some CLKHANDLER]"
    using f(3) [of 0] by (simp add: t enable_interrupts_def r)
  have tt: "trace t = trace ?p" "g_pic_mask t = g_pic_mask ?p"
    using f(4,5) [of 0] by (simp_all add: t enable_interrupts_def r)
  have c: "in_sync 0x20 0x28 ?c" using configure_running by (simp add: in_sync_def configure_running)
  define w where "w = ?c\<lparr>trace := [Out8 0x40 4, Out8 0x40 0xA9, Out8 0x43 0x36] @ trace ?c\<rparr>"
  have d: "pit_divisor PIT_1MS = 1193" by (simp add: pit_divisor_def)
  have p: "?p = pic_unmask 0 w"
    by (simp add: pit_init_def Let_def outb_def w_def d PIT_MODE_COMMAND_SET_CHANNEL_def
        PIT_MODE_COMMAND_SET_ACCESS_MODE_def PIT_MODE_COMMAND_SET_OP_MODE_def)
  have w: "in_sync 0x20 0x28 w" "g_pic_mask w = 0xFFFF"
    using c configure_running(3) by (simp_all add: w_def in_sync_def running_def hw_mask_def)
  then show "in_sync 0x20 0x28 t"
    using in_sync_set_mask [OF w(1)] by (simp add: in_sync_def tt p pic_unmask_def)
  show "masked (g_pic_mask t) = {1..<16}"
  proof -
    have "g_pic_mask t = mask 16 AND NOT (push_bit 0 1)"
      by (simp only: tt p pic_unmask_def w(2) pic_set_mask_mask) (simp add: mask_eq_exp_minus_1)
    moreover have "masked (mask 16) = {..<16}" by (auto simp: masked_def bit_simps)
    moreover have "masked (mask 16 AND NOT (push_bit 0 1)) = masked (mask 16) - {0}"
      by (rule masked_unmask) simp
    ultimately have "masked (g_pic_mask t) = {..<16} - {0}" by (simp only:)
    moreover have "{..<16 :: nat} - {0} = {1..<16}" by auto
    ultimately show ?thesis by (rule trans)
  qed
  show "reload_value (trace t) = 1193" unfolding tt pit_init_reload by (simp add: d)
qed

end
