(* ===== verification/Interrupt_Properties.thy ===== *)
theory Interrupt_Properties
  imports Interrupts
begin

text \<open>
  The properties of the descriptor tables, the interrupt controller, the timers and the
  dispatch of interrupts, with a machine on which they apply.
\<close>

section \<open>A concrete machine\<close>


definition fresh_irq :: irq_state where
  "fresh_irq = \<lparr>trace = [], interrupts_on = True, g_pic_mask = 0xFFFF, system_time = 0, preempt_quantum = 5,
     g_idt = replicate 256 zero_gate, idt_loaded = False, g_isr_handlers = replicate 256 None,
     g_irq_handler = replicate 16 None\<rparr>"

text \<open>Hardware that answers with the masks its controllers hold.\<close>

definition pic_hardware :: hardware where
  "pic_hardware t e = (if e = In8 0x21 then ucast (imr (master t)) else if e = In8 0xA1 then ucast (imr (slave t)) else 0)"

lemma byte_through_register [simp]: "ucast (ucast (b :: u8) :: u64) = b"
  by (rule bit_word_eqI) (simp add: bit_simps)

lemma pic_hardware_readable: "masks_readable pic_hardware"
  by (simp add: masks_readable_def pic_hardware_def)

lemma fresh_tables [simp]: "tables_ok fresh_irq"
  by (simp add: tables_ok_def fresh_irq_def)

lemma fresh_probe: "fst (pic_probe pic_hardware (disable_interrupts fresh_irq))"
  by (simp add: pic_probe_def pic_disable_def pic_get_mask_def Let_def inb_def pic_set_mask_def outb_def
      io_wait_def disable_interrupts_def pic_hardware_def chip_data_def reset_chip_def fresh_irq_def)

section \<open>Descriptor tables\<close>



text \<open>
  Splitting an address and a limit over the fields of a descriptor loses nothing that
  the hardware can hold: the processor reads back the low 32 bits of the base, the low 20 of
  the limit, the flag nibble and the access byte.
\<close>

lemma gdt_entry_roundtrip:
  "segment_base (gdt_init_entry base limit acc flags e) = ucast base \<and>
   segment_limit (gdt_init_entry base limit acc flags e) = ucast limit AND mask 20 \<and>
   segment_flags (gdt_init_entry base limit acc flags e) = flags AND 0xF0 \<and>
   access (gdt_init_entry base limit acc flags e) = acc"
  by (simp add: encoded_base encoded_limit encoded_flags)

text \<open>
  C22. After \<^verbatim>\<open>isr_init\<close> every one of the 256 gates leads to its own assembly stub
  through a selector that names, in the table \<^verbatim>\<open>gdt_init\<close> fills, a present ring-0
  long-mode code segment; all gates are interrupt gates and present, but for vector 0x80.
\<close>

theorem isr_gates_correct:
  assumes "List.length (g_idt s) = 256" and "i < 256"
  shows "gate_target (g_idt (isr_init ISR s) ! i) = ISR i \<and>
    segment_view (descriptor_at (gdt_fill g) (segment_selector (g_idt (isr_init ISR s) ! i))) =
      (0, 0xFFFFF, True, 0, True, True) \<and>
    gate_present (g_idt (isr_init ISR s) ! i) = (i \<noteq> 0x80) \<and>
    gate_type (g_idt (isr_init ISR s) ! i) AND 0x7F = 0x0E"
proof -
  note gate = isr_init_gate [OF assms, of ISR]
  have "segment_view (descriptor_at (gdt_fill g) 0x28) = map segment_view (table_entries (gdt_fill g)) ! 5"
    by (simp add: descriptor_at_def table_entries_def)
  then have "segment_view (descriptor_at (gdt_fill g) 0x28) = (0, 0xFFFFF, True, 0, True, True)"
    by (simp add: gdt_fill_view)
  moreover have "gate_present (g_idt (isr_init ISR s) ! i) = (i \<noteq> 0x80)"
    by (simp add: gate_present_def gate(4) bit_iff_odd)
  ultimately show ?thesis using gate by simp
qed

theorem isr_gates_correct_witness:
  "gate_target (g_idt (isr_init (\<lambda>i. 0xFFFFFFFF80000000 + of_nat i * 16) fresh_irq) ! 14) = 0xFFFFFFFF800000E0"
proof -
  have "List.length (g_idt fresh_irq) = 256" by (simp add: fresh_irq_def)
  from isr_gates_correct [OF this, of 14] show ?thesis by simp
qed

section \<open>Interrupt controller and timers\<close>

text \<open>
  C23. Once configured, the two controllers stay in operation at their vectors, with
  automatic end of interrupt, and the mask they hold is the driver's cached one, after any
  sequence of driver calls.
\<close>

theorem pic_mask_in_hardware:
  assumes "masks_readable dev"
  shows "running o1 o2 (trace (fold (pic_do dev o1 o2) ops (pic_configure o1 o2 s))) \<and>
    hw_mask (trace (fold (pic_do dev o1 o2) ops (pic_configure o1 o2 s))) =
      g_pic_mask (fold (pic_do dev o1 o2) ops (pic_configure o1 o2 s))"
proof -
  have "in_sync o1 o2 (pic_configure o1 o2 s)" by (simp add: in_sync_def configure_running)
  from pic_sequence_in_sync [OF assms this] show ?thesis unfolding in_sync_def .
qed

theorem pic_mask_in_hardware_witness:
  "hw_mask (trace (fold (pic_do pic_hardware 0x20 0x28) [Unmask 1, EndOfInterrupt 12, Mask 3, Unmask 0]
      (pic_configure 0x20 0x28 fresh_irq))) = 0xFFFC"
proof -
  let ?ops = "[Unmask 1, EndOfInterrupt 12, Mask 3, Unmask 0]"
  have "g_pic_mask (fold (pic_do pic_hardware 0x20 0x28) ?ops (pic_configure 0x20 0x28 fresh_irq)) = 0xFFFC"
    by (simp add: pic_do_def pic_unmask_def pic_mask_def pic_send_end_of_interrupt_def outb_def
        configure_running Let_def)
  with pic_mask_in_hardware [OF pic_hardware_readable, where s = fresh_irq and ops = ?ops] show ?thesis by simp
qed

text \<open>
  C25. For a frequency the timer can produce, \<^verbatim>\<open>pit_init\<close> programs channel 0 in mode
  3 with a reload value that is the quotient of the base clock or one more, not 0 and at most
  65535; an out-of-range request gives 1193 (about 1 kHz). The lowest frequency the check
  admits, 18 Hz, does not fit the 16-bit counter: it programs 751, about 1589 Hz.
\<close>

theorem pit_init_correct:
  fixes s :: "'a pic_state_scheme"
  shows "last (bytes_to 0x43 (trace (pit_init hertz s))) = 0x36 \<and>
    (19 \<le> unat hertz \<and> unat hertz \<le> 1193182 \<longrightarrow>
       reload_value (trace (pit_init hertz s)) \<in> {1193182 div unat hertz, 1193182 div unat hertz + 1} \<and>
       0 < reload_value (trace (pit_init hertz s))) \<and>
    (unat hertz < 18 \<or> 1193182 < unat hertz \<longrightarrow> reload_value (trace (pit_init hertz s)) = 1193) \<and>
    (unat hertz = 18 \<longrightarrow> reload_value (trace (pit_init hertz s)) = 751)"
proof (intro conjI impI)
  show "last (bytes_to 0x43 (trace (pit_init hertz s))) = 0x36" by (rule pit_init_mode)
next
  assume h: "19 \<le> unat hertz \<and> unat hertz \<le> 1193182"
  let ?q = "1193182 div unat hertz"
  have d: "unat (pit_divisor hertz) \<in> {?q, ?q + 1}" by (rule pit_divisor_bounds) (use h in auto)
  have "?q \<le> 1193182 div 19" using h by (intro div_le_mono2) auto
  then have q: "?q + 1 < 2 ^ 16" by simp
  have pos: "0 < ?q" using h by (simp add: div_greater_zero_iff)
  have "unat (pit_divisor hertz) mod 2 ^ 16 = unat (pit_divisor hertz)" using d q by auto
  then show "reload_value (trace (pit_init hertz s)) \<in> {?q, ?q + 1}"
    and "0 < reload_value (trace (pit_init hertz s))"
    using d pos unfolding pit_init_reload by auto
next
  assume "unat hertz < 18 \<or> 1193182 < unat hertz"
  then show "reload_value (trace (pit_init hertz s)) = 1193"
    unfolding pit_init_reload by (simp add: pit_divisor_default)
next
  assume "unat hertz = 18"
  then have "hertz = 18" by (simp add: word_unat_eq_iff)
  then show "reload_value (trace (pit_init hertz s)) = 751"
    unfolding pit_init_reload by (simp add: pit_divisor_def)
qed

theorem pit_init_correct_witness:
  "reload_value (trace (pit_init 100 fresh_irq)) \<in> {11931, 11932}"
  using pit_init_correct [of 100 fresh_irq] by simp

text \<open>
  C24. \<^verbatim>\<open>system_timer_sleep\<close> returns exactly when some later read of the clock
  reaches the wake-up time, and then at the first such read. With a clock that ticks at every
  read and no wrap-around it returns, after \<open>offset\<close> ticks (one if the offset is 0).
\<close>

theorem sleep_correct:
  "((\<exists>j. system_timer_sleep reads offset = Some j) \<longleftrightarrow> (\<exists>j\<ge>1. reads 0 + offset \<le> reads j)) \<and>
   (\<forall>j. system_timer_sleep reads offset = Some j \<longrightarrow>
      1 \<le> j \<and> reads 0 + offset \<le> reads j \<and> (\<forall>i \<in> {1..<j}. reads i < reads 0 + offset)) \<and>
   ((\<forall>k. reads k = reads 0 + of_nat k) \<and> unat (reads 0) + unat offset < 2 ^ 64 - 1 \<longrightarrow>
      system_timer_sleep reads offset = Some (max 1 (unat offset)))"
proof (intro conjI allI impI)
  show "(\<exists>j. system_timer_sleep reads offset = Some j) \<longleftrightarrow> (\<exists>j\<ge>1. reads 0 + offset \<le> reads j)"
    by (simp only: system_timer_sleep_def Let_def sleep_returns_iff)
next
  fix j assume "system_timer_sleep reads offset = Some j"
  then have "sleep_from reads (reads 0 + offset) 1 = Some j" by (simp add: system_timer_sleep_def Let_def)
  from sleep_from_SomeD [OF this] show "1 \<le> j" "reads 0 + offset \<le> reads j"
    "\<forall>i \<in> {1..<j}. reads i < reads 0 + offset" by blast+
next
  assume a: "(\<forall>k. reads k = reads 0 + of_nat k) \<and> unat (reads 0) + unat offset < 2 ^ 64 - 1"
  then have b: "unat (reads 0) + unat offset < 2 ^ 64 - 1" by (rule conjunct2)
  define n where "n = max 1 (unat offset)"
  have u: "unat (reads k) = unat (reads 0) + k" if "k \<le> n" for k
  proof -
    have "unat (reads 0) + k * 1 < 2 ^ 64" using b that by (auto simp: n_def max_def split: if_splits)
    then have "unat (reads 0 + of_nat k) = unat (reads 0) + k" using unat_step [of "reads 0" k 1] by simp
    with a show ?thesis by metis
  qed
  have w: "unat (reads 0 + offset) = unat (reads 0) + unat offset" using b by (simp add: unat_word_ariths)
  have "sleep_from reads (reads 0 + offset) 1 = Some (1 + (n - 1))"
  proof (rule sleep_from_first)
    show "\<forall>i \<in> {1..<1 + (n - 1)}. reads i < reads 0 + offset"
    proof
      fix i assume "i \<in> {1..<1 + (n - 1)}"
      then have i: "i \<le> n" "i < unat offset" by (auto simp: n_def)
      from i(2) show "reads i < reads 0 + offset" by (simp only: word_less_nat_alt w u [OF i(1)])
    qed
    have n: "1 + (n - 1) = n" by (simp add: n_def)
    show "reads 0 + offset \<le> reads (1 + (n - 1))"
      by (simp only: n word_le_nat_alt w u [OF order.refl]) (simp add: n_def)
  qed
  moreover have "1 + (n - 1) = max 1 (unat offset)" by (simp add: n_def)
  ultimately show "system_timer_sleep reads offset = Some (max 1 (unat offset))"
    by (simp only: system_timer_sleep_def Let_def)
qed

theorem sleep_correct_witness:
  "system_timer_sleep (\<lambda>k. 100 + of_nat k) 3 = Some 3"
  using sleep_correct [of "\<lambda>k. 100 + of_nat k" 3] by simp

section \<open>Dispatch\<close>

text \<open>
  C21. After a successful \<^verbatim>\<open>irq_init\<close> on fresh tables interrupts are on, the
  controllers run at vectors 0x20 and 0x28 with only the timer line open and the timer at
  1193. An interrupt then advances the clock (vector 32), is ignored (vectors 33 to 47, no
  driver registered) or halts the machine (every other vector).
\<close>

theorem irq_dispatch_correct:
  assumes "fst (pic_probe dev (disable_interrupts s))" and "tables_ok s"
    and "\<forall>v < 256. g_isr_handlers s ! v = None" and "\<forall>i < 16. g_irq_handler s ! i = None"
  shows "interrupts_on (irq_init dev s) \<and> in_sync 0x20 0x28 (irq_init dev s) \<and>
    masked (g_pic_mask (irq_init dev s)) = {1..<16} \<and> reload_value (trace (irq_init dev s)) = 1193 \<and>
    isr_handler body other regs (irq_init dev s) =
      (if interrupt regs = 32 then Some (clkhandler (irq_init dev s))
       else if 32 < interrupt regs \<and> interrupt regs < 48 then Some (irq_init dev s) else None)"
proof -
  define t where "t = irq_init dev s"
  define v where "v = unat (interrupt regs)"
  note i = irq_init_found [OF assms(1,2), folded t_def]
  have cond: "interrupt regs = 32 \<longleftrightarrow> v = 32" "32 < interrupt regs \<longleftrightarrow> 32 < v" "interrupt regs < 48 \<longleftrightarrow> v < 48"
    by (auto simp: v_def word_less_nat_alt word_unat_eq_iff)
  have none: "g_irq_handler t ! n = (if n = 0 then Some CLKHANDLER else None)" if "n < 16" for n
    using that assms(2,4) i(4) by (simp add: tables_ok_def nth_list_update)
  have u: "uint (interrupt regs) = int v" by (simp add: v_def)
  have "isr_handler body other regs t =
      (if v = 32 then Some (clkhandler t) else if 32 < v \<and> v < 48 then Some t else None)"
  proof (cases "32 \<le> v \<and> v < 48")
    case True
    then have "isr_handler body other regs t = irq_handler body regs t"
      using i(3) [of v] by (simp add: isr_handler_def call_isr_def v_def [symmetric])
    then show ?thesis using True none [of "v - 32"]
      by (auto simp: irq_handler_def u nat_diff_distrib call_irq_def)
  next
    case False
    then show ?thesis using i(3) [of v] assms(3)
      by (auto simp: isr_handler_def v_def [symmetric] halt_def)
  qed
  then show ?thesis using i(1,5,6,7) cond by (simp add: t_def [symmetric])
qed

theorem irq_dispatch_correct_witness:
  "isr_handler (\<lambda>_ _. None) (\<lambda>_ _ _. None)
     \<lparr>r15 = 0, r14 = 0, r13 = 0, r12 = 0, r11 = 0, r10 = 0, r9 = 0, r8 = 0,
      rsi = 0, rdi = 0, rbp = 0, rdx = 0, rcx = 0, rbx = 0, rax = 0, interrupt = 32, error_code = 0, rip = 0, cs = 0x28, rflags = 0x202, rsp = 0, ss = 0x30\<rparr>
     (irq_init pic_hardware fresh_irq) = Some (clkhandler (irq_init pic_hardware fresh_irq))"
proof -
  have "\<forall>v < 256. g_isr_handlers fresh_irq ! v = None" "\<forall>i < 16. g_irq_handler fresh_irq ! i = None"
    by (simp_all add: fresh_irq_def)
  from irq_dispatch_correct [OF fresh_probe fresh_tables this] show ?thesis by simp
qed

end
