(* ===== verification/Pci.thy ===== *)
theory Pci
  imports Port_IO
begin

text \<open>
  The PCI bus: configuration space access and the table of known devices
  (\<^verbatim>\<open>kernel/include/sys/pci_io.h\<close>, constants in \<^verbatim>\<open>pci.h\<close>), base address
  registers and the bus scan (\<^verbatim>\<open>kernel/src/sys/pci.c\<close>).

  The device list is kept as the list of its elements; that the vector macros maintain such
  a list is the subject of the theory of vectors. The messages of the scan are left out.
\<close>

section \<open>Constants and structures\<close>

abbreviation (input) MAX_BUS_NUM :: nat where "MAX_BUS_NUM \<equiv> 1"
abbreviation (input) MAX_DEVICE_NUM :: nat where "MAX_DEVICE_NUM \<equiv> 32"
abbreviation (input) MAX_FUNCTION_NUM :: nat where "MAX_FUNCTION_NUM \<equiv> 8"
abbreviation (input) PCI_CONFIG_ADDR :: u16 where "PCI_CONFIG_ADDR \<equiv> 0xCF8"
abbreviation (input) PCI_CONFIG_DATA :: u16 where "PCI_CONFIG_DATA \<equiv> 0xCFC"
abbreviation (input) PCI_BAR_MEM_MASK :: u32 where "PCI_BAR_MEM_MASK \<equiv> 0xFFFFFFF0"
abbreviation (input) PCI_BAR_TYPE_64BIT :: u32 where "PCI_BAR_TYPE_64BIT \<equiv> 0x4"
abbreviation (input) PCI_BAR_IO :: u32 where "PCI_BAR_IO \<equiv> 0x1"
abbreviation (input) PCI_CLASS_BRIDGE_DEVICE :: u32 where "PCI_CLASS_BRIDGE_DEVICE \<equiv> 0x06"
abbreviation (input) PCI_CLASS_SYSTEM_PERIPHERAL :: u8 where "PCI_CLASS_SYSTEM_PERIPHERAL \<equiv> 0x08"
abbreviation (input) PCI_CLASS_SERIAL_BUS :: u8 where "PCI_CLASS_SERIAL_BUS \<equiv> 0x0C"
abbreviation (input) NOT_IN_TABLE :: u64 where "NOT_IN_TABLE \<equiv> - 1"

record pci_device_info =
  pi_parent :: u64
  pi_bus :: u8
  pi_func :: u8
  pi_device :: u8

record pci_device =
  info :: pci_device_info
  device_id :: u16
  vendor_id :: u16
  revision_id :: u8
  sub_class :: u8
  device_class :: u8
  program_intf :: u8
  multifunction :: u8
  irq_pin :: u8
  has_prt :: u8
  gsi :: u32
  gsi_flags :: u16

text \<open>A \<^verbatim>\<open>PCI_BAR\<close>: the union of address and port is kept as one 64-bit value.\<close>

record pci_bar =
  bar_address :: u64
  bar_size :: u64
  bar_flags :: u32

record pci_state = io_state +
  device_list :: "pci_device list"

section \<open>Known devices\<close>

definition table :: "(u16 \<times> u16 \<times> string) list" where
  "table =
    [
     (0x1022, 0x2000, ''AMD PCNet Ethernet Controller''),
     (0x1022, 0x1450, ''AMD Starship/Matisse Root Complex''),
     (0x1022, 0x43B9, ''AMD Ryzen PCI Express Root Complex''),
     (0x1022, 0x7814, ''AMD FCH SATA Controller [AHCI mode]''),
     (0x1022, 0x43B1, ''AMD PCI Express Root Complex''),
     (0x1022, 0x15D0, ''AMD 300 Series Chipset SATA Controller''),
     (0x1022, 0x1439, ''AMD Starship USB 3.1 XHCI Controller''),
     (0x1022, 0x1485, ''AMD Starship/Matisse PCIe Dummy Function''),
     (0x1022, 0x145A, ''AMD Zeppelin SATA Controller [AHCI mode]''),
     (0x1002, 0x67DF, ''AMD Radeon RX 580''),
     (0x1002, 0x73BF, ''AMD Radeon RX 6900 XT''),
     (0x1002, 0x6860, ''AMD Radeon Pro WX 9100''),
     (0x1002, 0x67B1, ''AMD Radeon R9 290''),
     (0x1002, 0x6819, ''AMD Radeon HD 7850''),
     (0x1002, 0x6613, ''AMD Radeon R7 240''),
     (0x1002, 0x687F, ''AMD Radeon Vega Frontier Edition''),
     (0x1002, 0x67DF, ''AMD Radeon RX 480''),
     (0x1002, 0x73DF, ''AMD Radeon RX 6700 XT''),
     (0x1002, 0x7310, ''AMD Radeon RX 5700''),
     (0x1002, 0x7340, ''AMD Radeon RX 5500M''),
     (0x1002, 0x7341, ''AMD Radeon RX 5300M''),
     (0x1002, 0x731F, ''AMD Radeon RX 5700 XT''),
     (0x1002, 0x15D8, ''AMD Radeon Vega 8 Mobile''),
     (0x1002, 0x1636, ''AMD Radeon Vega 10 Mobile''),
     (0x1002, 0x15DD, ''AMD Radeon Vega 11 Mobile''),
     (0x1002, 0x1638, ''AMD Radeon RX Vega M GL Graphics''),
     (0x1002, 0x15E7, ''AMD Radeon Vega 6 Mobile''),
     (0x10DE, 0x13C2, ''NVIDIA Quadro K620''),
     (0x10DE, 0x1B80, ''NVIDIA GeForce GTX 1080''),
     (0x10DE, 0x1C03, ''NVIDIA GeForce GTX 1060''),
     (0x10DE, 0x1B06, ''NVIDIA GeForce GTX 1070''),
     (0x10DE, 0x1C82, ''NVIDIA GeForce GTX 1050 Ti''),
     (0x10DE, 0x1E04, ''NVIDIA GeForce RTX 2080''),
     (0x10DE, 0x1F02, ''NVIDIA GeForce RTX 2070 Super''),
     (0x10DE, 0x1F07, ''NVIDIA GeForce RTX 2060 Super''),
     (0x10DE, 0x1E84, ''NVIDIA GeForce RTX 2080 Super''),
     (0x10DE, 0x1F08, ''NVIDIA GeForce RTX 2070''),
     (0x10DE, 0x2484, ''NVIDIA GeForce GTX 1650''),
     (0x10DE, 0x2206, ''NVIDIA GeForce RTX 3080''),
     (0x10DE, 0x2504, ''NVIDIA GeForce RTX 3060 Ti''),
     (0x10DE, 0x2489, ''NVIDIA GeForce RTX 3050''),
     (0x10DE, 0x2610, ''NVIDIA GeForce RTX 4090''),
     (0x10DE, 0x2684, ''NVIDIA GeForce RTX 4080''),
     (0x10DE, 0x26C0, ''NVIDIA GeForce RTX 4070 Ti''),
     (0x10DE, 0x2784, ''NVIDIA GeForce RTX 4060''),
     (0x10DE, 0x1C60, ''NVIDIA GeForce GTX 1050 Mobile''),
     (0x10DE, 0x1C20, ''NVIDIA GeForce GTX 1060 Mobile''),
     (0x10DE, 0x1BA1, ''NVIDIA GeForce GTX 1070 Mobile''),
     (0x10DE, 0x1C81, ''NVIDIA GeForce GTX 1050 Ti Mobile''),
     (0x10DE, 0x1E90, ''NVIDIA GeForce RTX 2060 Mobile''),
     (0x10DE, 0x1F10, ''NVIDIA GeForce RTX 2070 Mobile''),
     (0x10DE, 0x1EAB, ''NVIDIA GeForce RTX 2080 Mobile''),
     (0x10DE, 0x2520, ''NVIDIA GeForce RTX 3060 Mobile''),
     (0x10DE, 0x24DD, ''NVIDIA GeForce RTX 3070 Mobile''),
     (0x10DE, 0x2525, ''NVIDIA GeForce RTX 3080 Mobile''),
     (0x10EC, 0x8139, ''Realtek RTL8139 Fast Ethernet Adapter''),
     (0x10EC, 0x8168, ''Realtek PCIe Gigabit Ethernet Family Controller''),
     (0x10EC, 0x5229, ''Realtek PCIe GBE Family Controller''),
     (0x1106, 0x3044, ''VIA VT6306 Fire II IEEE 1394 Host Controller''),
     (0x1A03, 0x2000, ''ASPEED Graphics Family''),
     (0x1B21, 0x0612, ''ASMedia ASM1062 Serial ATA Controller''),
     (0x14E4, 0x1693, ''Broadcom NetXtreme BCM5751 Gigabit Ethernet''),
     (0x168C, 0x0030, ''Qualcomm Atheros AR93xx Wireless Network Adapter''),
     (0x80EE, 0xBEEF, ''VirtualBox Graphics Adapter''),
     (0x80EE, 0xCAFE, ''VirtualBox Guest Service''),
     (0x80EE, 0xCACA, ''VirtualBox AC97 Audio Controller''),
     (0x80EE, 0xDEAD, ''VirtualBox Ethernet Adapter''),
     (0x80EE, 0xBEEB, ''VirtualBox USB Tablet''),
     (0x1234, 0x1111, ''QEMU Standard VGA Display Adapter''),
     (0x1234, 0x1110, ''QEMU PCIe Root Port''),
     (0x1AF4, 0x1000, ''QEMU Virtio Network Device''),
     (0x1AF4, 0x1001, ''QEMU Virtio Block Device''),
     (0x1AF4, 0x1002, ''QEMU Virtio SCSI Device''),
     (0x1AF4, 0x1003, ''QEMU Virtio Memory Balloon''),
     (0x1AF4, 0x1004, ''QEMU Virtio Console''),
     (0x8086, 0x0154, ''3rd Gen Core processor DRAM Controller''),
     (0x8086, 0x100E, ''Intel PRO/1000 MT Network Connection''),
     (0x8086, 0x1C20, ''Intel 6 Series/C200 Series Chipset Family PCI Express Root Port 1''),
     (0x8086, 0x1D3B, ''Intel C600/X79 Series Chipset PCI Express Root Port 2''),
     (0x8086, 0x24D3, ''Intel 82801EB/ER (ICH5/ICH5R) USB2 Enhanced Host Controller''),
     (0x8086, 0x2918, ''Intel ICH9 Family SMBus Controller''),
     (0x8086, 0x3B42, ''Intel 5 Series/3400 Series Chipset PCI Express Root Port 1''),
     (0x8086, 0x3B64, ''Intel 5 Series/3400 Series Chipset USB2 Enhanced Host Controller''),
     (0x8086, 0x9D14, ''Intel Sunrise Point-LP PCI Express Root Port #1''),
     (0x8086, 0x0C01, ''Intel Xeon E3-1200 v3/4th Gen Core Processor PCI Express Root Port''),
     (0x8086, 0x1503, ''Intel 82579LM Gigabit Network Connection''),
     (0x8086, 0x153A, ''Intel I210 Gigabit Network Connection''),
     (0x8086, 0x10D3, ''Intel 82574L Gigabit Network Connection''),
     (0x8086, 0x0F00, ''Intel Atom Processor Z36xxx/Z37xxx Series PCI Express Root Port''),
     (0x8086, 0x10C9, ''Intel 82576 Gigabit Network Connection''),
     (0x8086, 0x1F3C, ''Intel Atom Processor C2000 PCI Express Root Port''),
     (0x8086, 0x8D02, ''Intel C610/X99 Series Chipset PCI Express Root Port #3''),
     (0x8086, 0x1F40, ''Intel Atom Processor C2000 QuickAssist Technology''),
     (0x8086, 0x8C31, ''Intel 8 Series/C220 Series Chipset Family SATA AHCI Controller''),
     (0x8086, 0x8C22, ''Intel 8 Series/C220 Series Chipset Family USB Enhanced Host Controller''),
     (0x8086, 0x8C10, ''Intel 8 Series/C220 Series Chipset Family PCI Express Root Port #1''),
     (0x8086, 0x8C16, ''Intel 8 Series/C220 Series Chipset Family PCI Express Root Port #5''),
     (0x8086, 0x8C50, ''Intel 8 Series/C220 Series Management Engine Interface''),
     (0x8086, 0x1533, ''Intel I217-V Gigabit Network Connection''),
     (0x8086, 0x0A16, ''Intel HD Graphics 4600''),
     (0x8086, 0x0C04, ''Intel Haswell PCI Express x8 Controller''),
     (0x8086, 0x0F31, ''Intel Atom Processor Z3700 Series PCI Express Root Port''),
     (0x8086, 0x29C0, ''82G33/G31/P35/P31 Express DRAM Controller''),
     (0x8086, 0x2922, ''82801IR/IO/IH (ICH9R/DO/DH) 6 port SATA Controller [AHCI mode]''),
     (0x8086, 0x2930, ''82801I (ICH9 Family) SMBus Controller'')]"

definition find_device_desc :: "pci_device \<Rightarrow> u64" where
  "find_device_desc d =
     (case find (\<lambda>i. fst (table ! i) = vendor_id d \<and> fst (snd (table ! i)) = device_id d) [0..<List.length table] of
        Some i \<Rightarrow> of_nat i
      | None \<Rightarrow> NOT_IN_TABLE)"

section \<open>Configuration space\<close>

definition config_addr :: "u32 \<Rightarrow> u32 \<Rightarrow> u32 \<Rightarrow> u8 \<Rightarrow> u32" where
  "config_addr bus slot func offset =
     push_bit 16 bus OR push_bit 11 slot OR push_bit 8 func OR ucast (offset AND 0xFC) OR 0x80000000"

definition pci_ind :: "hardware \<Rightarrow> u32 \<Rightarrow> u32 \<Rightarrow> u32 \<Rightarrow> u8 \<Rightarrow> 'a io_state_scheme \<Rightarrow> u32 \<times> 'a io_state_scheme" where
  "pci_ind dev bus slot func offset s =
     (let s = outd PCI_CONFIG_ADDR (config_addr bus slot func offset) s in ind dev PCI_CONFIG_DATA s)"

definition pci_outd :: "u32 \<Rightarrow> u32 \<Rightarrow> u32 \<Rightarrow> u8 \<Rightarrow> u32 \<Rightarrow> 'a io_state_scheme \<Rightarrow> 'a io_state_scheme" where
  "pci_outd bus slot func offset v s =
     (let s = outd PCI_CONFIG_ADDR (config_addr bus slot func offset) s in outd PCI_CONFIG_DATA v s)"

definition pci_inw :: "hardware \<Rightarrow> u32 \<Rightarrow> u32 \<Rightarrow> u32 \<Rightarrow> u8 \<Rightarrow> 'a io_state_scheme \<Rightarrow> u16 \<times> 'a io_state_scheme" where
  "pci_inw dev bus slot func offset s =
     (let s = outd PCI_CONFIG_ADDR (config_addr bus slot func offset) s
      in inw dev (PCI_CONFIG_DATA + ucast (offset AND 0x02)) s)"

definition pci_outw :: "u32 \<Rightarrow> u32 \<Rightarrow> u32 \<Rightarrow> u8 \<Rightarrow> u32 \<Rightarrow> 'a io_state_scheme \<Rightarrow> 'a io_state_scheme" where
  "pci_outw bus slot func offset v s =
     (let s = outd PCI_CONFIG_ADDR (config_addr bus slot func offset) s
      in outw (PCI_CONFIG_DATA + ucast (offset AND 0x02)) (ucast v) s)"

definition pci_inb :: "hardware \<Rightarrow> u32 \<Rightarrow> u32 \<Rightarrow> u32 \<Rightarrow> u8 \<Rightarrow> 'a io_state_scheme \<Rightarrow> u8 \<times> 'a io_state_scheme" where
  "pci_inb dev bus slot func offset s =
     (let s = outd PCI_CONFIG_ADDR (config_addr bus slot func offset) s
      in inb dev (PCI_CONFIG_DATA + ucast (offset AND 0x03)) s)"

definition pci_outb :: "u32 \<Rightarrow> u32 \<Rightarrow> u32 \<Rightarrow> u8 \<Rightarrow> u32 \<Rightarrow> 'a io_state_scheme \<Rightarrow> 'a io_state_scheme" where
  "pci_outb bus slot func offset v s =
     (let s = outd PCI_CONFIG_ADDR (config_addr bus slot func offset) s
      in outb (PCI_CONFIG_DATA + ucast (offset AND 0x03)) (ucast v) s)"

definition PCI_FUNCTION_EXISTS :: "hardware \<Rightarrow> u8 \<Rightarrow> u8 \<Rightarrow> u8 \<Rightarrow> 'a io_state_scheme \<Rightarrow> bool \<times> 'a io_state_scheme" where
  "PCI_FUNCTION_EXISTS dev bus slot func s =
     (let (v, s) = pci_ind dev (ucast bus) (ucast slot) (ucast func) 0 s in ((ucast (v AND 0xFFFF) :: u16) \<noteq> 0xFFFF, s))"

definition PCI_READ_VENDOR_ID :: "hardware \<Rightarrow> u8 \<Rightarrow> u8 \<Rightarrow> u8 \<Rightarrow> 'a io_state_scheme \<Rightarrow> u32 \<times> 'a io_state_scheme" where
  "PCI_READ_VENDOR_ID dev bus slot func s =
     (let (v, s) = pci_ind dev (ucast bus) (ucast slot) (ucast func) 0 s in (v AND 0xFFFF, s))"

definition PCI_READ_DEVICE_ID :: "hardware \<Rightarrow> u8 \<Rightarrow> u8 \<Rightarrow> u8 \<Rightarrow> 'a io_state_scheme \<Rightarrow> u32 \<times> 'a io_state_scheme" where
  "PCI_READ_DEVICE_ID dev bus slot func s =
     (let (v, s) = pci_ind dev (ucast bus) (ucast slot) (ucast func) 0 s in (drop_bit 16 v AND 0xFFFF, s))"

definition PCI_READ_HEADER :: "hardware \<Rightarrow> u8 \<Rightarrow> u8 \<Rightarrow> u8 \<Rightarrow> 'a io_state_scheme \<Rightarrow> u32 \<times> 'a io_state_scheme" where
  "PCI_READ_HEADER dev bus slot func s =
     (let (v, s) = pci_ind dev (ucast bus) (ucast slot) (ucast func) PCI_CLASS_SERIAL_BUS s in (drop_bit 16 v AND 0xFF, s))"

text \<open>The class is compared as read: all sixteen upper bits, class and subclass.\<close>

definition PCI_READ_CLASS :: "hardware \<Rightarrow> u8 \<Rightarrow> u8 \<Rightarrow> u8 \<Rightarrow> 'a io_state_scheme \<Rightarrow> u32 \<times> 'a io_state_scheme" where
  "PCI_READ_CLASS dev bus slot func s =
     (let (v, s) = pci_ind dev (ucast bus) (ucast slot) (ucast func) PCI_CLASS_SYSTEM_PERIPHERAL s in (drop_bit 16 v, s))"

definition PCI_DEV_IS_BRIDGE :: "hardware \<Rightarrow> u8 \<Rightarrow> u8 \<Rightarrow> u8 \<Rightarrow> 'a io_state_scheme \<Rightarrow> bool \<times> 'a io_state_scheme" where
  "PCI_DEV_IS_BRIDGE dev bus slot func s =
     (let (h, s) = PCI_READ_HEADER dev bus slot func s
      in if h \<noteq> 0x1 then (False, s)
         else let (c, s) = PCI_READ_CLASS dev bus slot func s in (c = PCI_CLASS_BRIDGE_DEVICE, s))"

text \<open>The subordinate bus number goes through a logical \<^verbatim>\<open>&&\<close>: the value is 0 or 1.\<close>

definition PCI_READ_SUBBUS_ID :: "hardware \<Rightarrow> u8 \<Rightarrow> u8 \<Rightarrow> u8 \<Rightarrow> 'a io_state_scheme \<Rightarrow> u8 \<times> 'a io_state_scheme" where
  "PCI_READ_SUBBUS_ID dev bus slot func s =
     (let (v, s) = pci_ind dev (ucast bus) (ucast slot) (ucast func) 0x18 s
      in (if drop_bit 24 v \<noteq> 0 then 1 else 0, s))"

definition PCI_IS_DEV_MULTIFUNCTION :: "hardware \<Rightarrow> u8 \<Rightarrow> u8 \<Rightarrow> u8 \<Rightarrow> 'a io_state_scheme \<Rightarrow> u8 \<times> 'a io_state_scheme" where
  "PCI_IS_DEV_MULTIFUNCTION dev bus slot func s =
     (let (v, s) = pci_ind dev (ucast bus) (ucast slot) (ucast func) PCI_CLASS_SERIAL_BUS s
      in (ucast (drop_bit 16 v AND 0x80), s))"

section \<open>Base address registers\<close>

definition read_bar :: "hardware \<Rightarrow> u32 \<Rightarrow> u32 \<Rightarrow> u32 \<Rightarrow> u8 \<Rightarrow> 'a io_state_scheme \<Rightarrow> (u32 \<times> u32) \<times> 'a io_state_scheme" where
  "read_bar dev bus slot func bar s =
     (let (address, s) = pci_ind dev bus slot func bar s;
          s = pci_outd bus slot func bar 0xFFFFFFFF s;
          (mask, s) = pci_ind dev bus slot func bar s;
          s = pci_outd bus slot func bar address s
      in ((address, mask), s))"

definition find_bar :: "hardware \<Rightarrow> u32 \<Rightarrow> u32 \<Rightarrow> u32 \<Rightarrow> u8 \<Rightarrow> 'a io_state_scheme \<Rightarrow> pci_bar \<times> 'a io_state_scheme" where
  "find_bar dev bus slot func bar s =
     (let ((addr_low, mask_low), s) = read_bar dev bus slot func bar s
      in if addr_low AND PCI_BAR_TYPE_64BIT \<noteq> 0
         then let ((addr_high, mask_high), s) = read_bar dev bus slot func bar s
              in (\<lparr>bar_address = push_bit 32 (ucast addr_high) OR ucast (addr_low AND PCI_BAR_MEM_MASK),
                   bar_size = (push_bit 32 (ucast mask_high) OR ucast (mask_low AND PCI_BAR_MEM_MASK)) + 1,
                   bar_flags = addr_low AND 0xF\<rparr>, s)
         else if addr_low AND PCI_BAR_IO \<noteq> 0
         then (\<lparr>bar_address = ucast (ucast (addr_low AND (PCI_BAR_MEM_MASK OR 0xC)) :: u16),
                bar_size = ucast (ucast (NOT (mask_low AND (PCI_BAR_MEM_MASK OR 0xC)) + 1) :: u16),
                bar_flags = addr_low AND 0x3\<rparr>, s)
         else (\<lparr>bar_address = ucast (addr_low AND PCI_BAR_MEM_MASK),
                bar_size = ucast (NOT (mask_low AND PCI_BAR_MEM_MASK) + 1),
                bar_flags = addr_low AND 0xF\<rparr>, s))"

section \<open>The scan\<close>

definition new_device :: "u8 \<Rightarrow> u8 \<Rightarrow> u8 \<Rightarrow> pci_device" where
  "new_device b f d = \<lparr>info = \<lparr>pi_parent = 0, pi_bus = b, pi_func = f, pi_device = d\<rparr>, device_id = 0, vendor_id = 0,
     revision_id = 0, sub_class = 0, device_class = 0, program_intf = 0, multifunction = 0, irq_pin = 0,
     has_prt = 0, gsi = 0, gsi_flags = 0\<rparr>"

definition append_device :: "pci_device \<Rightarrow> pci_state \<Rightarrow> pci_state" where
  "append_device d s = s\<lparr>device_list := device_list s @ [d]\<rparr>"

definition read_ids :: "hardware \<Rightarrow> u8 \<Rightarrow> u8 \<Rightarrow> u8 \<Rightarrow> pci_device \<Rightarrow> pci_state \<Rightarrow> pci_device \<times> pci_state" where
  "read_ids dev b d f e s =
     (let (i, s) = PCI_READ_DEVICE_ID dev b d f s; (v, s) = PCI_READ_VENDOR_ID dev b d f s
      in (e\<lparr>device_id := ucast i, vendor_id := ucast v\<rparr>, s))"

definition scan_function :: "hardware \<Rightarrow> u8 \<Rightarrow> u8 \<Rightarrow> u8 \<Rightarrow> pci_state \<Rightarrow> pci_state" where
  "scan_function dev b d i s =
     (let (ex, s) = PCI_FUNCTION_EXISTS dev b d i s
      in if ex then let (e, s) = read_ids dev b d i (new_device b i d) s in append_device e s else s)"

definition scan_device :: "(u8 \<Rightarrow> pci_state \<Rightarrow> pci_state option) \<Rightarrow> hardware \<Rightarrow> u8 \<Rightarrow> u8 \<Rightarrow> pci_state \<Rightarrow> pci_state option" where
  "scan_device scan_bus dev b d s =
     (let (function_exists, s) = PCI_FUNCTION_EXISTS dev b d 0 s;
          (is_bridge, s) = PCI_DEV_IS_BRIDGE dev b d 0 s;
          (has_multi_function, s) = PCI_IS_DEV_MULTIFUNCTION dev b d 0 s
      in if \<not> function_exists then Some s
         else do {
           s \<leftarrow> (if is_bridge
                 then let (sub_bus_id, s) = PCI_READ_SUBBUS_ID dev b d 0 s
                      in if sub_bus_id \<noteq> b
                         then let (sub, s) = PCI_READ_SUBBUS_ID dev b d 0 s in scan_bus sub s
                         else Some s
                 else Some s);
           let (e, s) = read_ids dev b d 0 ((new_device b 0 d)\<lparr>multifunction := has_multi_function\<rparr>) s;
           let s = append_device e s;
           Some (if multifunction e \<noteq> 0
                 then fold (\<lambda>i. scan_function dev b d (of_nat i)) [1..<MAX_FUNCTION_NUM] s else s)
         })"

lemma scan_device_mono [partial_function_mono]:
  assumes "\<And>b s. mono_option (\<lambda>f. scan f b s)"
  shows "mono_option (\<lambda>f. scan_device (scan f) dev b d s)"
  unfolding scan_device_def Let_def split_beta
  by (intro partial_function_mono assms)

text \<open>\<open>pci_scan_from dev bus i\<close> is the loop of \<^verbatim>\<open>pci_scan_bus\<close> from device \<open>i\<close> on.\<close>

partial_function (option) pci_scan_from :: "hardware \<Rightarrow> u8 \<Rightarrow> nat \<Rightarrow> pci_state \<Rightarrow> pci_state option" where
  "pci_scan_from dev b i s =
     (if i < MAX_DEVICE_NUM
      then Option.bind (scan_device (\<lambda>c. pci_scan_from dev c 0) dev b (of_nat i) s) (pci_scan_from dev b (i + 1))
      else Some s)"

definition pci_scan_bus :: "hardware \<Rightarrow> u8 \<Rightarrow> pci_state \<Rightarrow> pci_state option" where
  "pci_scan_bus dev b s = pci_scan_from dev b 0 s"

primrec pci_scan_devices :: "hardware \<Rightarrow> u8 \<Rightarrow> nat list \<Rightarrow> pci_state \<Rightarrow> pci_state option" where
  "pci_scan_devices dev b [] s = Some s"
| "pci_scan_devices dev b (d # ds) s =
     Option.bind (scan_device (pci_scan_bus dev) dev b (of_nat d) s) (pci_scan_devices dev b ds)"

primrec pci_scan_buses :: "hardware \<Rightarrow> nat list \<Rightarrow> pci_state \<Rightarrow> pci_state option" where
  "pci_scan_buses dev [] s = Some s"
| "pci_scan_buses dev (b # bs) s =
     Option.bind (pci_scan_devices dev (of_nat b) [0..<MAX_DEVICE_NUM] s) (pci_scan_buses dev bs)"

definition pci_init :: "hardware \<Rightarrow> pci_state \<Rightarrow> pci_state option" where
  "pci_init dev s = pci_scan_buses dev [0..<MAX_BUS_NUM] s"

end
