(* ===== verification/Pci_Scan.thy ===== *)
theory Pci_Scan
  imports Pci
begin

text \<open>
  What the PCI code finds: the fields of a configuration address, the sizing of a base
  address register and the list a scan builds, for hardware that behaves as the PCI
  specification says.
\<close>

section \<open>Configuration addresses\<close>

definition cfg_bus :: "u32 \<Rightarrow> u8" where "cfg_bus a = ucast (drop_bit 16 a)"
definition cfg_slot :: "u32 \<Rightarrow> u8" where "cfg_slot a = ucast (drop_bit 11 a AND mask 5)"
definition cfg_func :: "u32 \<Rightarrow> u8" where "cfg_func a = ucast (drop_bit 8 a AND mask 3)"
definition cfg_reg :: "u32 \<Rightarrow> u8" where "cfg_reg a = ucast (a AND 0xFC)"

lemma small_take_bit: "unat v < 2 ^ k \<Longrightarrow> take_bit k v = v" for v :: "'a::len word"
  by (simp only: word_unat_eq_iff unsigned_take_bit_eq take_bit_nat_eq_self)

lemma config_addr_bit:
  "bit (config_addr (ucast b) (ucast (take_bit 5 d)) (ucast (take_bit 3 f)) off) n \<longleftrightarrow>
     (if n < 8 then 2 \<le> n \<and> bit off n else if n < 11 then bit f (n - 8) else if n < 16 then bit d (n - 11)
      else if n < 31 then bit b (n - 16) else n = 31)" for b d f off :: u8
proof -
  have c: "(0xFC :: u8) = push_bit 2 (mask 6)" by (simp add: mask_eq_exp_minus_1 push_bit_eq_mult)
  define w :: u32 where "w = 0x80000000"
  have "w = 2 ^ 31" by (simp add: w_def)
  then have top: "bit w n \<longleftrightarrow> n = 31" by (simp only: bit_exp_iff) auto
  have high: "\<not> bit b (n - 16)" if "24 \<le> n" using that bit_imp_le_length [of b "n - 16"] by auto
  show ?thesis unfolding config_addr_def c w_def [symmetric] using high by (auto simp: bit_simps top)
qed

lemma config_addr_fields:
  fixes b d f off :: u8
  assumes d: "unat d < 32" and f: "unat f < 8"
  defines "a \<equiv> config_addr (ucast b) (ucast d) (ucast f) off"
  shows "cfg_bus a = b" and "cfg_slot a = d" and "cfg_func a = f" and "cfg_reg a = off AND 0xFC" and "bit a 31"
proof -
  have d': "take_bit 5 d = d" and f': "take_bit 3 f = f" using d f by (simp_all add: small_take_bit)
  note bits = config_addr_bit [of b d f off, unfolded d' f', folded a_def]
  have c: "(0xFC :: u8) = push_bit 2 (mask 6)" "(0xFC :: u32) = push_bit 2 (mask 6)"
    by (simp_all add: mask_eq_exp_minus_1 push_bit_eq_mult)
  have d5: "bit d n \<longleftrightarrow> n < 5 \<and> bit d n" for n by (metis d' bit_take_bit_iff)
  have f3: "bit f n \<longleftrightarrow> n < 3 \<and> bit f n" for n by (metis f' bit_take_bit_iff)
  show "cfg_bus a = b"
    by (rule bit_word_eqI) (simp add: cfg_bus_def bit_simps bits)
  show "cfg_slot a = d"
    by (rule bit_word_eqI) (subst d5, simp add: cfg_slot_def bit_simps bits, linarith?)
  show "cfg_func a = f"
    by (rule bit_word_eqI) (subst f3, simp add: cfg_func_def bit_simps bits)
  show "cfg_reg a = off AND 0xFC"
    unfolding cfg_reg_def c by (rule bit_word_eqI) (auto simp: bit_simps bits)
  show "bit a 31" by (simp add: bits)
qed

section \<open>Sizing a base address register\<close>

text \<open>
  A register at configuration address \<open>a\<close> whose bits \<open>w\<close> can be written and whose
  other bits are those of \<open>v\<close>: its content after the accesses of a trace.
\<close>

fun reg_value :: "u32 \<Rightarrow> u32 \<Rightarrow> u32 \<Rightarrow> io list \<Rightarrow> u32" where
  "reg_value a w v (Out32 p x # Out32 q y # t) =
     (if p = 0xCFC \<and> q = 0xCF8 \<and> y = a then (x AND w) OR (v AND NOT w) else reg_value a w v (Out32 q y # t))"
| "reg_value a w v (_ # t) = reg_value a w v t"
| "reg_value a w v [] = v"

definition register_at :: "hardware \<Rightarrow> u32 \<Rightarrow> u32 \<Rightarrow> u32 \<Rightarrow> bool" where
  "register_at dev a w v \<longleftrightarrow>
     (\<forall>t. (ucast (dev (Out32 0xCF8 a # t) (In32 0xCFC)) :: u32) = reg_value a w v (Out32 0xCF8 a # t))"

lemma reg_value_latch [simp]: "reg_value a w v (Out32 0xCF8 b # t) = reg_value a w v t"
  by (cases "(a, w, v, Out32 0xCF8 b # t)" rule: reg_value.cases) auto

lemma reg_value_readonly: "reg_value a w v t AND NOT w = v AND NOT w"
proof (induction a w v t rule: reg_value.induct)
  case (1 a w v p x q y t)
  have "((x AND w) OR (v AND NOT w)) AND NOT w = v AND NOT w"
    by (rule bit_word_eqI) (auto simp: bit_simps)
  then show ?case using 1 by simp
qed simp_all

lemma read_bar_register:
  fixes s :: "'a io_state_scheme" and b d f w v :: u32 and bar :: u8
  assumes dev: "register_at dev (config_addr b d f bar) w v"
  defines "c \<equiv> reg_value (config_addr b d f bar) w v (trace s)"
  obtains s' where "read_bar dev b d f bar s = ((c, w OR (v AND NOT w)), s')"
    and "reg_value (config_addr b d f bar) w v (trace s') = c"
proof -
  let ?a = "config_addr b d f bar"
  define s' where "s' = snd (read_bar dev b d f bar s)"
  have r: "(ucast (dev (Out32 0xCF8 ?a # t) (In32 0xCFC)) :: u32) = reg_value ?a w v t" for t
    using dev unfolding register_at_def by simp
  have "(c AND w) OR (v AND NOT w) = c"
  proof -
    have "(c AND w) OR (c AND NOT w) = c" by (rule bit_word_eqI) (auto simp: bit_simps)
    then show ?thesis using reg_value_readonly [of ?a w v "trace s"] by (simp only: c_def)
  qed
  moreover have "(0xFFFFFFFF :: u32) AND w = w"
  proof -
    have "(0xFFFFFFFF :: u32) = - 1" by simp
    then show ?thesis by (simp only: and.left_neutral)
  qed
  ultimately have "reg_value ?a w v (trace s') = c" and "read_bar dev b d f bar s = ((c, w OR (v AND NOT w)), s')"
    by (simp_all add: s'_def read_bar_def pci_ind_def pci_outd_def ind_def outd_def Let_def r c_def)
  then show ?thesis using that by blast
qed

lemma bar_masks: "(0xFFFFFFF0 :: u32) = NOT (mask 4)" "(0xF :: u32) = mask 4"
  by (simp_all add: mask_eq_exp_minus_1 mask_eq_decr_exp)

lemma find_bar_memory:
  fixes s :: "'a io_state_scheme" and b d f v :: u32 and bar :: u8
  assumes dev: "register_at dev (config_addr b d f bar) (NOT (mask k)) v"
    and k: "4 \<le> k" "k < 32"
    and ty: "v AND mask k = v AND mask 4" "v AND 4 = 0" "v AND 1 = 0"
  defines "c \<equiv> reg_value (config_addr b d f bar) (NOT (mask k)) v (trace s)"
  obtains s' where "find_bar dev b d f bar s =
      (\<lparr>bar_address = ucast (c AND NOT (mask 4)), bar_size = 2 ^ k, bar_flags = c AND mask 4\<rparr>, s')"
    and "reg_value (config_addr b d f bar) (NOT (mask k)) v (trace s') = c"
proof -
  let ?w = "NOT (mask k) :: u32"
  obtain s' where r: "read_bar dev b d f bar s = ((c, ?w OR (v AND NOT ?w)), s')"
    and c': "reg_value (config_addr b d f bar) ?w v (trace s') = c"
    using read_bar_register [OF dev] unfolding c_def by blast
  have ro: "c AND mask k = v AND mask k"
    using reg_value_readonly [of "config_addr b d f bar" ?w v "trace s"] by (simp add: c_def)
  have sub: "(x AND mask k) AND mask 4 = x AND mask 4" for x :: u32
    using k by (intro bit_word_eqI) (auto simp: bit_simps)
  have low: "c AND mask 4 = v AND mask 4" using arg_cong [OF ro, of "\<lambda>x. x AND mask 4"] by (simp only: sub)
  have part: "x AND 4 = (x AND mask 4) AND 4" "x AND 1 = (x AND mask 4) AND 1" for x :: u32
    by (simp_all add: mask_eq_exp_minus_1 and.assoc)
  have t: "c AND 4 = 0" "c AND 1 = 0"
    using ty(2,3) part [of c] part [of v] by (simp_all only: low)
  have m: "(?w OR (v AND NOT ?w)) AND NOT (mask 4) = ?w"
  proof -
    have "v AND NOT ?w = v AND mask 4" using ty(1) by simp
    then show ?thesis using k by (intro bit_word_eqI) (auto simp: bit_simps)
  qed
  have "NOT ?w + 1 = (2 ^ k :: u32)" by (simp add: mask_eq_exp_minus_1)
  moreover have "ucast (2 ^ k :: u32) = (2 ^ k :: u64)" using k(2) by (intro bit_word_eqI) (auto simp: bit_simps)
  ultimately have "find_bar dev b d f bar s =
      (\<lparr>bar_address = ucast (c AND NOT (mask 4)), bar_size = 2 ^ k, bar_flags = c AND mask 4\<rparr>, s')"
    by (simp only: find_bar_def r Let_def split_conv t bar_masks m simp_thms if_False)
  then show ?thesis using that c' by blast
qed

section \<open>The list a scan builds\<close>

text \<open>
  Hardware whose identification registers do not change: a read returns the register the
  address latch names. \<open>devices_of\<close> is what such a machine has in one slot.
\<close>

definition config_space :: "hardware \<Rightarrow> (u32 \<Rightarrow> u32) \<Rightarrow> bool" where
  "config_space dev reg \<longleftrightarrow> (\<forall>a t. (ucast (dev (Out32 0xCF8 a # t) (In32 0xCFC)) :: u32) = reg a)"

definition cfg :: "(u32 \<Rightarrow> u32) \<Rightarrow> u8 \<Rightarrow> u8 \<Rightarrow> u8 \<Rightarrow> u8 \<Rightarrow> u32" where
  "cfg reg b d f off = reg (config_addr (ucast b) (ucast d) (ucast f) off)"

definition function_present :: "(u32 \<Rightarrow> u32) \<Rightarrow> u8 \<Rightarrow> u8 \<Rightarrow> u8 \<Rightarrow> bool" where
  "function_present reg b d f \<longleftrightarrow> (ucast (cfg reg b d f 0) :: u16) \<noteq> 0xFFFF"

definition header_type :: "(u32 \<Rightarrow> u32) \<Rightarrow> u8 \<Rightarrow> u8 \<Rightarrow> u8" where
  "header_type reg b d = ucast (drop_bit 16 (cfg reg b d 0 0x0C))"

definition class_of :: "(u32 \<Rightarrow> u32) \<Rightarrow> u8 \<Rightarrow> u8 \<Rightarrow> u8" where
  "class_of reg b d = ucast (drop_bit 24 (cfg reg b d 0 0x08))"

definition found_function :: "(u32 \<Rightarrow> u32) \<Rightarrow> u8 \<Rightarrow> u8 \<Rightarrow> u8 \<Rightarrow> pci_device" where
  "found_function reg b d f = (new_device b f d)
     \<lparr>vendor_id := ucast (cfg reg b d f 0), device_id := ucast (drop_bit 16 (cfg reg b d f 0))\<rparr>"

definition devices_of :: "(u32 \<Rightarrow> u32) \<Rightarrow> u8 \<Rightarrow> u8 \<Rightarrow> pci_device list" where
  "devices_of reg b d =
     (if function_present reg b d 0
      then (found_function reg b d 0)\<lparr>multifunction := header_type reg b d AND 0x80\<rparr> #
        (if bit (header_type reg b d) 7
         then map (\<lambda>f. found_function reg b d (of_nat f)) (filter (\<lambda>f. function_present reg b d (of_nat f)) [1..<8])
         else [])
      else [])"

lemma pci_ind_value:
  "config_space dev reg \<Longrightarrow>
   pci_ind dev b d f off s = (reg (config_addr b d f off),
     s\<lparr>trace := In32 0xCFC # Out32 0xCF8 (config_addr b d f off) # trace s\<rparr>)"
  by (simp add: config_space_def pci_ind_def ind_def outd_def)

lemma low_words:
  "(ucast (v AND 0xFFFF :: u32) :: u16) = ucast v" "(ucast (drop_bit 16 v AND 0xFFFF :: u32) :: u16) = ucast (drop_bit 16 v)"
  "(ucast (drop_bit 16 v AND 0x80 :: u32) :: u8) = ucast (drop_bit 16 v) AND 0x80"
proof -
  have c: "(0xFFFF :: u32) = mask 16" "(0x80 :: u32) = ucast (0x80 :: u8)" by (simp_all add: mask_eq_exp_minus_1)
  show "(ucast (v AND 0xFFFF :: u32) :: u16) = ucast v" "(ucast (drop_bit 16 v AND 0xFFFF :: u32) :: u16) = ucast (drop_bit 16 v)"
    unfolding c by (rule bit_word_eqI, simp add: bit_simps)+
  define w :: u8 where "w = 0x80"
  show "(ucast (drop_bit 16 v AND 0x80 :: u32) :: u8) = ucast (drop_bit 16 v) AND 0x80"
    unfolding c w_def [symmetric] by (rule bit_word_eqI) (auto simp: bit_simps)
qed

lemma pci_reads:
  assumes dev: "config_space dev reg"
  shows "fst (PCI_FUNCTION_EXISTS dev b d f s) = function_present reg b d f"
    and "fst (PCI_READ_VENDOR_ID dev b d f s) = cfg reg b d f 0 AND 0xFFFF"
    and "fst (PCI_READ_DEVICE_ID dev b d f s) = drop_bit 16 (cfg reg b d f 0) AND 0xFFFF"
    and "fst (PCI_IS_DEV_MULTIFUNCTION dev b d 0 s) = header_type reg b d AND 0x80"
    and "fst (PCI_DEV_IS_BRIDGE dev b d 0 s) \<Longrightarrow> drop_bit 16 (cfg reg b d 0 0x08) = 6"
  by (simp_all add: PCI_FUNCTION_EXISTS_def PCI_READ_VENDOR_ID_def PCI_READ_DEVICE_ID_def
      PCI_IS_DEV_MULTIFUNCTION_def PCI_DEV_IS_BRIDGE_def PCI_READ_HEADER_def PCI_READ_CLASS_def
      pci_ind_value [OF dev] low_words function_present_def header_type_def cfg_def split: if_splits)

lemma pci_reads_list [simp]:
  "device_list (snd (PCI_FUNCTION_EXISTS dev b d f s)) = device_list s"
  "device_list (snd (PCI_READ_VENDOR_ID dev b d f s)) = device_list s"
  "device_list (snd (PCI_READ_DEVICE_ID dev b d f s)) = device_list s"
  "device_list (snd (PCI_IS_DEV_MULTIFUNCTION dev b d f s)) = device_list s"
  "device_list (snd (PCI_DEV_IS_BRIDGE dev b d f s)) = device_list s"
  by (simp_all add: PCI_FUNCTION_EXISTS_def PCI_READ_VENDOR_ID_def PCI_READ_DEVICE_ID_def
      PCI_IS_DEV_MULTIFUNCTION_def PCI_DEV_IS_BRIDGE_def PCI_READ_HEADER_def PCI_READ_CLASS_def
      pci_ind_def ind_def outd_def Let_def split_beta)

lemma read_ids_result:
  assumes dev: "config_space dev reg"
  shows "fst (read_ids dev b d f e s) =
      e\<lparr>device_id := ucast (drop_bit 16 (cfg reg b d f 0)), vendor_id := ucast (cfg reg b d f 0)\<rparr>"
    and "device_list (snd (read_ids dev b d f e s)) = device_list s"
  by (simp_all add: read_ids_def Let_def split_beta pci_reads [OF dev] low_words)

lemma scan_function_result:
  assumes dev: "config_space dev reg"
  shows "device_list (scan_function dev b d f s) =
     device_list s @ (if function_present reg b d f then [found_function reg b d f] else [])"
  by (simp add: scan_function_def Let_def split_beta pci_reads [OF dev] read_ids_result [OF dev]
      append_device_def found_function_def)

lemma scan_functions_result:
  assumes dev: "config_space dev reg"
  shows "device_list (fold (\<lambda>i. scan_function dev b d (of_nat i)) fs s) = device_list s @
     map (\<lambda>f. found_function reg b d (of_nat f)) (filter (\<lambda>f. function_present reg b d (of_nat f)) fs)"
  by (induction fs arbitrary: s) (simp_all add: scan_function_result [OF dev])

text \<open>The class byte of a bridge is 6; the code's test compares class and subclass with 6.\<close>

lemma class_read: "drop_bit 16 (cfg reg b d 0 0x08) = 6 \<Longrightarrow> class_of reg b d = 0"
proof -
  assume a: "drop_bit 16 (cfg reg b d 0 0x08) = 6"
  have "drop_bit 24 (cfg reg b d 0 0x08) = drop_bit 8 (drop_bit 16 (cfg reg b d 0 0x08))"
    by (simp only: drop_bit_drop_bit) simp
  also have "\<dots> = 0" unfolding a by simp
  finally show ?thesis by (simp only: class_of_def) simp
qed

lemma bit7: "v AND 0x80 \<noteq> 0 \<longleftrightarrow> bit v 7" for v :: u8
proof -
  have c: "(0x80 :: u8) = push_bit 7 1" by simp
  have "(v AND push_bit 7 1 \<noteq> 0) = bit v 7" by (simp only: and_exp_eq_0_iff_not_bit push_bit_of_1 not_not)
  then show ?thesis by (simp only: c)
qed

lemma scan_device_result:
  assumes dev: "config_space dev reg" and cls: "function_present reg b d 0 \<Longrightarrow> class_of reg b d \<noteq> 0"
  shows "\<exists>s'. scan_device scan dev b d s = Some s' \<and> device_list s' = device_list s @ devices_of reg b d"
proof -
  obtain u where ex: "PCI_FUNCTION_EXISTS dev b d 0 s = (function_present reg b d 0, u)" "device_list u = device_list s"
    using pci_reads(1) [OF dev, of b d 0 s] pci_reads_list(1) [of dev b d 0 s]
    by (cases "PCI_FUNCTION_EXISTS dev b d 0 s") auto
  obtain br v where br: "PCI_DEV_IS_BRIDGE dev b d 0 u = (br, v)" "device_list v = device_list s"
    using pci_reads_list(5) [of dev b d 0 u] ex(2)
    by (cases "PCI_DEV_IS_BRIDGE dev b d 0 u") auto
  obtain w where mf: "PCI_IS_DEV_MULTIFUNCTION dev b d 0 v = (header_type reg b d AND 0x80, w)" "device_list w = device_list s"
    using pci_reads(4) [OF dev, of b d v] pci_reads_list(4) [of dev b d 0 v] br(2)
    by (cases "PCI_IS_DEV_MULTIFUNCTION dev b d 0 v") auto
  show ?thesis
  proof (cases "function_present reg b d 0")
    case False
    then show ?thesis by (simp add: scan_device_def ex br mf devices_of_def)
  next
    case True
    then have "\<not> br" using pci_reads(5) [OF dev, of b d u] br class_read cls by auto
    moreover obtain e x where "read_ids dev b d 0 ((new_device b 0 d)\<lparr>multifunction := header_type reg b d AND 0x80\<rparr>) w = (e, x)"
      and "e = (found_function reg b d 0)\<lparr>multifunction := header_type reg b d AND 0x80\<rparr>" "device_list x = device_list s"
      using read_ids_result [OF dev, of b d 0 "(new_device b 0 d)\<lparr>multifunction := header_type reg b d AND 0x80\<rparr>" w] mf(2)
      by (auto simp: found_function_def prod_eq_iff)
    ultimately show ?thesis using True
      by (simp add: scan_device_def ex br mf devices_of_def append_device_def Let_def bit7
          scan_functions_result [OF dev] del: upt_Suc One_nat_def)
  qed
qed

lemma scan_devices_result:
  assumes dev: "config_space dev reg"
    and "\<forall>d \<in> set ds. function_present reg b (of_nat d) 0 \<longrightarrow> class_of reg b (of_nat d) \<noteq> 0"
  shows "\<exists>s'. pci_scan_devices dev b ds s = Some s' \<and>
     device_list s' = device_list s @ concat (map (\<lambda>d. devices_of reg b (of_nat d)) ds)"
  using assms(2)
proof (induction ds arbitrary: s)
  case (Cons d ds)
  then obtain t where t: "scan_device (pci_scan_bus dev) dev b (of_nat d) s = Some t"
    "device_list t = device_list s @ devices_of reg b (of_nat d)"
    using scan_device_result [OF dev, of b "of_nat d" "pci_scan_bus dev" s] by auto
  with Cons.IH [of t] Cons.prems show ?case by simp
qed simp

lemma pci_init_result:
  assumes dev: "config_space dev reg"
    and "\<forall>d < 32. function_present reg 0 (of_nat d) 0 \<longrightarrow> class_of reg 0 (of_nat d) \<noteq> 0"
  shows "\<exists>s'. pci_init dev s = Some s' \<and>
     device_list s' = device_list s @ concat (map (\<lambda>d. devices_of reg 0 (of_nat d)) [0..<32])"
proof -
  have "\<forall>d \<in> set [0..<32]. function_present reg 0 (of_nat d) 0 \<longrightarrow> class_of reg 0 (of_nat d) \<noteq> 0"
    using assms(2) by (simp only: set_upt Ball_def atLeastLessThan_iff) simp
  from scan_devices_result [OF dev this, of s] obtain s' where r: "pci_scan_devices dev 0 [0..<32] s = Some s'"
    and l: "device_list s' = device_list s @ concat (map (\<lambda>d. devices_of reg 0 (of_nat d)) [0..<32])" by blast
  have "[0..<MAX_BUS_NUM] = [0]" by simp
  then have "pci_init dev s = Some s'"
    unfolding pci_init_def by (simp add: r del: upt_rec_numeral)
  with l show ?thesis by blast
qed

end
