(* ===== verification/Console.thy ===== *)
theory Console
  imports Port_IO
begin

text \<open>
  Text output: the debug console of \<^verbatim>\<open>kernel/src/common/kprint.c\<close> and the serial
  port of \<^verbatim>\<open>kernel/src/dev/serial.c\<close>.

  A C string is the list of its bytes before the terminator. A \<^verbatim>\<open>char\<close> buffer is
  a list; what an uninitialised one holds is the parameter \<open>junk\<close>. The variable arguments
  are a list of numbers and strings; fetching one that is missing or of the other kind, and
  reading past the terminator of the format, are undefined behaviour and have no value.
\<close>

section \<open>Numbers\<close>

definition CONVERSION_TABLE :: "u8 list" where
  "CONVERSION_TABLE = map of_char ''0123456789ABCDEF''"

text \<open>
  The loop that fills the buffer from index \<open>i\<close> down; \<open>lo\<close> is the lower bound on
  \<open>i\<close>. The loops without a bound get 0: a 64-bit number runs out of digits first. The
  base is 10 or 16; the test on it only makes the recursion total.
\<close>

function fill_digits :: "u64 \<Rightarrow> (u64 \<Rightarrow> u8) \<Rightarrow> int \<Rightarrow> u64 \<Rightarrow> int \<Rightarrow> u8 list \<Rightarrow> int \<times> u8 list" where
  "fill_digits base conv lo num i buf =
     (if num = 0 \<or> base \<le> 1 \<or> i < lo then (i, buf)
      else fill_digits base conv lo (num div base) (i - 1) (buf[nat i := conv (num mod base)]))"
  by auto

termination
proof (relation "measure (\<lambda>(base, conv, lo, num, i, buf). unat num)")
  fix base num :: u64 and conv :: "u64 \<Rightarrow> u8" and lo i :: int and buf :: "u8 list"
  assume a: "\<not> (num = 0 \<or> base \<le> 1 \<or> i < lo)"
  then have "1 < unat base" by (simp add: word_le_nat_alt not_le)
  moreover have "0 < unat num" using a by (simp add: unat_gt_0)
  ultimately show "((base, conv, lo, num div base, i - 1, buf[nat i := conv (num mod base)]), base, conv, lo, num, i, buf)
      \<in> measure (\<lambda>(base, conv, lo, num, i, buf). unat num)"
    by (simp add: unat_div)
qed simp

declare fill_digits.simps [simp del]

definition c_string :: "u8 list \<Rightarrow> nat \<Rightarrow> u8 list" where
  "c_string buf i = takeWhile (\<lambda>c. c \<noteq> 0) (drop i buf)"

definition hex_digit :: "u64 \<Rightarrow> u8" where
  "hex_digit d = CONVERSION_TABLE ! unat d"

definition dec_digit :: "u64 \<Rightarrow> u8" where
  "dec_digit d = ucast d + 0x30"

text \<open>
  The comparison \<^verbatim>\<open>i >= (16 - width)\<close> is unsigned; \<open>kprintf\<close> reads one digit, so the
  width is at most 9 and the bound is not negative. A negative bound has no counterpart here.
\<close>

definition hex_text :: "u8 list \<Rightarrow> u64 \<Rightarrow> u32 \<Rightarrow> u8 list" where
  "hex_text junk num width =
     (if num = 0 then map of_char ''0x0''
      else let buf = junk[16 := 0];
               (i, buf) = fill_digits 16 hex_digit (if width \<noteq> 0 then 16 - uint width else 0) num 15 buf
           in map of_char ''0x'' @ c_string buf (nat (i + 1)))"

definition dec_text :: "u64 \<Rightarrow> u8 list" where
  "dec_text num =
     (if num = 0 then [0x30]
      else let (i, buf) = fill_digits 10 dec_digit 0 num 19 (replicate 21 0) in c_string buf (nat (i + 1)))"

section \<open>kprint.c\<close>

abbreviation (input) DEBUG_PORT :: u16 where "DEBUG_PORT \<equiv> 0xE9"

definition kputc :: "u8 \<Rightarrow> 'a io_state_scheme \<Rightarrow> 'a io_state_scheme" where
  "kputc c s = outb DEBUG_PORT c s"

definition kprint :: "u8 list \<Rightarrow> 'a io_state_scheme \<Rightarrow> 'a io_state_scheme" where
  "kprint msg s = fold kputc msg s"

definition kputs :: "u8 list \<Rightarrow> 'a io_state_scheme \<Rightarrow> 'a io_state_scheme" where
  "kputs msg s = kputc 0x0A (kprint msg s)"

definition kprint_hex :: "u8 list \<Rightarrow> u64 \<Rightarrow> u32 \<Rightarrow> 'a io_state_scheme \<Rightarrow> 'a io_state_scheme" where
  "kprint_hex junk num width s = kprint (hex_text junk num width) s"

definition kprint_dec :: "u64 \<Rightarrow> 'a io_state_scheme \<Rightarrow> 'a io_state_scheme" where
  "kprint_dec num s = kprint (dec_text num) s"

datatype arg = Num u64 | Str "u8 list"

definition take_width :: "u8 list \<Rightarrow> u32 \<times> u8 list" where
  "take_width format =
     (case format of
        c # rest \<Rightarrow> if 0x30 \<le> c \<and> c \<le> 0x39 then (ucast (c - 0x30), rest) else (0, format)
      | [] \<Rightarrow> (0, []))"

lemma take_width_shorter: "snd (take_width f) = c # rest \<Longrightarrow> List.length rest < List.length f"
  by (auto simp: take_width_def split: list.splits if_splits)

function kprintf :: "u8 list \<Rightarrow> u8 list \<Rightarrow> arg list \<Rightarrow> 'a io_state_scheme \<Rightarrow> 'a io_state_scheme option" where
  "kprintf junk [] args s = Some s"
| "kprintf junk (c # format) args s =
     (if c \<noteq> 0x25 then kprintf junk format args (kputc c s)
      else case take_width format of
             (width, []) \<Rightarrow> None
           | (width, d # rest) \<Rightarrow>
               if d = 0x78 then (case args of Num n # args \<Rightarrow> kprintf junk rest args (kprint_hex junk n width s) | _ \<Rightarrow> None)
               else if d = 0x64 then (case args of Num n # args \<Rightarrow> kprintf junk rest args (kprint_dec n s) | _ \<Rightarrow> None)
               else if d = 0x73 then (case args of Str m # args \<Rightarrow> kprintf junk rest args (kprint m s) | _ \<Rightarrow> None)
               else if d = 0x63 then (case args of Num n # args \<Rightarrow> kprintf junk rest args (kputc (ucast n) s) | _ \<Rightarrow> None)
               else kprintf junk rest args s)"
  by pat_completeness auto

termination
  by (relation "measure (\<lambda>(junk, format, args, s). List.length format)")
    (auto dest!: arg_cong [where f = snd] sym [of "_ # _"] take_width_shorter simp: less_SucI)

datatype log_level = LEVEL_LOG | LEVEL_ERROR | LEVEL_DEBUG

definition level_tag :: "log_level \<Rightarrow> u8 list" where
  "level_tag l = (case l of
     LEVEL_LOG \<Rightarrow> 0x1B # map of_char ''[32m[INFO] '' @ 0x1B # map of_char ''[0m ''
   | LEVEL_ERROR \<Rightarrow> 0x1B # map of_char ''[31m[ERROR]'' @ 0x1B # map of_char ''[0m ''
   | LEVEL_DEBUG \<Rightarrow> 0x1B # map of_char ''[34m[DEBUG]'' @ 0x1B # map of_char ''[0m '')"

text \<open>
  \<^verbatim>\<open>klog_implementation\<close> hands its \<^verbatim>\<open>va_list\<close> on as the one variable argument of
  \<^verbatim>\<open>kprintf\<close>: the format consumes the word that represents the list, then whatever
  follows it, never the caller's arguments. \<open>ap\<close> is that word and what follows.
\<close>

definition klog_implementation :: "u8 list \<Rightarrow> log_level \<Rightarrow> u8 list \<Rightarrow> arg list \<Rightarrow> 'a io_state_scheme \<Rightarrow> 'a io_state_scheme option" where
  "klog_implementation junk level format ap s = do {
     s \<leftarrow> kprintf junk (level_tag level) [] s;
     kprintf junk format ap s
   }"

section \<open>serial.c\<close>

abbreviation (input) COM1 :: u16 where "COM1 \<equiv> 0x3F8"
abbreviation (input) BAUD_RATE :: u32 where "BAUD_RATE \<equiv> 38400"
abbreviation (input) MAX_RATE :: u32 where "MAX_RATE \<equiv> 115200"

record serial_state = io_state +
  serial_faulty :: bool

definition serial_init :: "hardware \<Rightarrow> 'a serial_state_scheme \<Rightarrow> status \<times> 'a serial_state_scheme" where
  "serial_init dev s =
     (let s = outb (COM1 + 1) 0x00 s;
          s = outb (COM1 + 3) 0x80 s;
          divisor = (ucast (MAX_RATE div BAUD_RATE) :: u16);
          s = outb (COM1 + 0) (ucast (drop_bit 0 divisor AND 0xFF)) s;
          s = outb (COM1 + 1) (ucast (drop_bit 8 divisor AND 0xFF)) s;
          s = outb (COM1 + 3) 0x03 s;
          s = outb (COM1 + 2) 0xC7 s;
          s = outb (COM1 + 4) 0x0B s;
          s = outb (COM1 + 4) 0xAE s;
          s = outb (COM1 + 0) 0xAE s;
          (v, s) = inb dev (COM1 + 0) s
      in if v \<noteq> 0xAE then (SYS_ERR, s\<lparr>serial_faulty := True\<rparr>)
         else (SYS_OK, outb (COM1 + 4) 0x0F s))"

definition serial_recieved :: "hardware \<Rightarrow> 'a serial_state_scheme \<Rightarrow> bool \<times> 'a serial_state_scheme" where
  "serial_recieved dev s = (let (v, s) = inb dev (COM1 + 5) s in (v AND 0x01 \<noteq> 0, s))"

definition is_transmit_empty :: "hardware \<Rightarrow> 'a serial_state_scheme \<Rightarrow> bool \<times> 'a serial_state_scheme" where
  "is_transmit_empty dev s = (let (v, s) = inb dev (COM1 + 5) s in (v AND 0x20 \<noteq> 0, s))"

definition serial_write :: "hardware \<Rightarrow> u8 \<Rightarrow> 'a serial_state_scheme \<Rightarrow> (status \<times> 'a serial_state_scheme) option" where
  "serial_write dev c s =
     (if serial_faulty s then Some (SYS_ERR, s)
      else do {
        s \<leftarrow> poll (is_transmit_empty dev) s;
        Some (SYS_OK, outb COM1 c s)
      })"

definition serial_read :: "hardware \<Rightarrow> 'a serial_state_scheme \<Rightarrow> (u8 \<times> 'a serial_state_scheme) option" where
  "serial_read dev s = do {
     s \<leftarrow> poll (serial_recieved dev) s;
     Some (inb dev COM1 s)
   }"

fun serial_puts :: "hardware \<Rightarrow> u8 list \<Rightarrow> 'a serial_state_scheme \<Rightarrow> (status \<times> 'a serial_state_scheme) option" where
  "serial_puts dev [] s = Some (SYS_OK, s)"
| "serial_puts dev (c # cs) s = do {
     (st, s) \<leftarrow> serial_write dev c s;
     if st = SYS_ERR then Some (SYS_ERR, s) else serial_puts dev cs s
   }"

end
