(* ===== verification/Console_Text.thy ===== *)
theory Console_Text
  imports Console
begin

text \<open>
  What the console prints: the digits of a number and their value, and the bytes the port
  receives.
\<close>

section \<open>Digits\<close>

function ndigits :: "nat \<Rightarrow> nat \<Rightarrow> nat" where
  "ndigits b n = (if n = 0 \<or> b \<le> 1 then 0 else Suc (ndigits b (n div b)))"
  by auto

termination
  by (relation "measure snd") auto

declare ndigits.simps [simp del]

fun low_digits :: "nat \<Rightarrow> nat \<Rightarrow> nat \<Rightarrow> nat list" where
  "low_digits b 0 n = []"
| "low_digits b (Suc k) n = low_digits b k (n div b) @ [n mod b]"

definition value_of :: "nat \<Rightarrow> nat list \<Rightarrow> nat" where
  "value_of b = foldl (\<lambda>v d. v * b + d) 0"

lemma value_of_snoc [simp]: "value_of b (ds @ [d]) = value_of b ds * b + d"
  by (simp add: value_of_def)

lemma value_of_low_digits: "value_of b (low_digits b k n) = n mod b ^ k"
proof (induction k arbitrary: n)
  case 0
  then show ?case by (simp add: value_of_def)
next
  case (Suc k)
  then show ?case using mod_mult2_eq [of n b "b ^ k"] by (simp add: mult.commute)
qed

lemma length_low_digits [simp]: "List.length (low_digits b k n) = k"
  by (induction k arbitrary: n) simp_all

lemma low_digits_less: "1 < b \<Longrightarrow> d \<in> set (low_digits b k n) \<Longrightarrow> d < b"
  by (induction k arbitrary: n) auto

lemma less_power_ndigits: "1 < b \<Longrightarrow> n < b ^ ndigits b n"
proof (induction n rule: less_induct)
  case (less n)
  show ?case
  proof (cases "n = 0")
    case False
    then have "n div b < b ^ ndigits b (n div b)" using less by simp
    then have "n < b ^ ndigits b (n div b) * b"
      using less.prems by (simp add: div_less_iff_less_mult)
    then show ?thesis using False less.prems ndigits.simps [of b n] by (simp add: mult.commute)
  qed (use less.prems in \<open>simp add: ndigits.simps\<close>)
qed

lemma ndigits_le: "1 < b \<Longrightarrow> n < b ^ k \<Longrightarrow> ndigits b n \<le> k"
proof (induction k arbitrary: n)
  case 0
  then show ?case by (simp add: ndigits.simps)
next
  case (Suc k)
  then have "n div b < b ^ k" by (simp add: div_less_iff_less_mult mult.commute)
  from Suc.IH [OF Suc.prems(1) this] show ?case using ndigits.simps [of b n] by simp
qed

section \<open>The filling loop\<close>

lemma fill_digits_spec:
  fixes base num :: u64 and lo i :: int and buf :: "u8 list"
  assumes "1 < unat base" and "0 \<le> lo" and "lo \<le> i + 1" and "i < int (List.length buf)"
    and conv: "\<And>d. d < base \<Longrightarrow> conv d = digit (unat d)"
  defines "k \<equiv> min (ndigits (unat base) (unat num)) (nat (i + 1 - lo))"
  shows "fst (fill_digits base conv lo num i buf) = i - int k \<and>
    List.length (snd (fill_digits base conv lo num i buf)) = List.length buf \<and>
    drop (nat (i - int k + 1)) (snd (fill_digits base conv lo num i buf)) =
      map digit (low_digits (unat base) k (unat num)) @ drop (nat (i + 1)) buf"
  using assms(1-4) conv unfolding k_def
proof (induction base conv lo num i buf rule: fill_digits.induct)
  case (1 base conv lo num i buf)
  show ?case
  proof (cases "num = 0 \<or> base \<le> 1 \<or> i < lo")
    case True
    have "\<not> base \<le> 1" using 1(2) by (simp add: word_le_nat_alt)
    then have "min (ndigits (unat base) (unat num)) (nat (i + 1 - lo)) = 0"
      using True ndigits.simps [of "unat base" 0] by (elim disjE) simp_all
    then show ?thesis using True by (simp add: fill_digits.simps)
  next
    case False
    let ?b = "unat base" and ?n = "unat num"
    let ?buf = "buf[nat i := conv (num mod base)]"
    let ?k = "min (ndigits ?b (?n div ?b)) (nat (i - lo))"
    have i: "0 \<le> i" "lo \<le> i" using False 1(3) by auto
    have n: "?n \<noteq> 0" using False by (simp add: unat_eq_zero)
    have k: "min (ndigits ?b ?n) (nat (i + 1 - lo)) = Suc ?k"
      using ndigits.simps [of ?b ?n] n 1(2) i by (simp add: nat_diff_distrib' Suc_diff_le nat_add_distrib)
    have eq: "fill_digits base conv lo num i buf = fill_digits base conv lo (num div base) (i - 1) ?buf"
      using False by (subst fill_digits.simps) simp
    have IH: "fst (fill_digits base conv lo (num div base) (i - 1) ?buf) = i - 1 - int ?k \<and>
      List.length (snd (fill_digits base conv lo (num div base) (i - 1) ?buf)) = List.length ?buf \<and>
      drop (nat (i - 1 - int ?k + 1)) (snd (fill_digits base conv lo (num div base) (i - 1) ?buf)) =
        map digit (low_digits ?b ?k (?n div ?b)) @ drop (nat (i - 1 + 1)) ?buf"
      using 1(1) [OF False] 1(2-6) i by (simp add: unat_div)
    have "drop (nat i) ?buf = conv (num mod base) # drop (Suc (nat i)) buf"
      using i 1(5) by (simp add: Cons_nth_drop_Suc [symmetric] drop_update_cancel)
    moreover have "num mod base < base" using 1(2) by (intro word_mod_less_divisor) (simp add: word_less_nat_alt)
    then have "conv (num mod base) = digit (?n mod ?b)" using 1(6) by (simp add: unat_mod)
    ultimately show ?thesis using IH i unfolding eq k by (simp add: nat_add_distrib)
  qed
qed

section \<open>The printed text\<close>

definition hex_char :: "nat \<Rightarrow> u8" where
  "hex_char d = (if d < 10 then 0x30 + of_nat d else 0x37 + of_nat d)"

definition dec_char :: "nat \<Rightarrow> u8" where
  "dec_char d = 0x30 + of_nat d"

lemma less_16: "d < 16 \<Longrightarrow> d \<in> {0, 1, 2, 3, 4, 5, 6, 7, 8, 9, 10, 11, 12, 13, 14, 15 :: nat}"
  by (simp add: less_Suc_eq numeral_eq_Suc)

lemma conversion_table: "n < 16 \<Longrightarrow> CONVERSION_TABLE ! n = hex_char n"
  by (drule less_16) (auto simp: hex_char_def CONVERSION_TABLE_def)

lemma hex_digit_char: "d < 16 \<Longrightarrow> hex_digit d = hex_char (unat d)"
  unfolding hex_digit_def by (rule conversion_table) (simp add: word_less_nat_alt)

lemma dec_digit_char:
  assumes "d < 10"
  shows "dec_digit d = dec_char (unat d)"
proof -
  have "ucast d = (of_nat (unat d) :: u8)" by simp
  then show ?thesis by (simp only: dec_digit_def dec_char_def add.commute)
qed

lemma hex_char_nonzero: "d < 16 \<Longrightarrow> hex_char d \<noteq> 0"
  by (drule less_16) (auto simp: hex_char_def)

lemma dec_char_nonzero: "d < 10 \<Longrightarrow> dec_char d \<noteq> 0"
  using less_16 [of d] by (auto simp: dec_char_def)

lemma c_string_digits:
  "\<forall>d \<in> set ds. f d \<noteq> (0 :: u8) \<Longrightarrow> drop i buf = map f ds @ 0 # rest \<Longrightarrow> c_string buf i = map f ds"
  by (simp add: c_string_def takeWhile_append)

text \<open>How many digits are printed: all of them, or the low ones the width asks for.\<close>

definition hex_count :: "u64 \<Rightarrow> u32 \<Rightarrow> nat" where
  "hex_count num width =
     (if num = 0 then 1 else if width = 0 then ndigits 16 (unat num) else min (ndigits 16 (unat num)) (unat width))"

lemma hex_text_digits:
  assumes "List.length junk = 17" and "width \<le> 16"
  shows "hex_text junk num width = map of_char ''0x'' @ map hex_char (low_digits 16 (hex_count num width) (unat num))"
proof (cases "num = 0")
  case True
  then show ?thesis by (simp add: hex_text_def hex_count_def hex_char_def)
next
  case False
  define lo where "lo = (if width \<noteq> 0 then 16 - uint width else 0)"
  have "uint width \<le> uint (16 :: u32)" using assms(2) by (simp only: word_le_def)
  then have w: "uint width \<le> 16" by simp
  have nd: "ndigits 16 (unat num) \<le> 16"
    by (rule ndigits_le) (use unat_lt64 [of num] in simp_all)
  have lo: "0 \<le> lo" "lo \<le> 15 + 1" using w by (auto simp: lo_def)
  have "nat (15 + 1 - lo) = (if width \<noteq> 0 then unat width else 16)" by (simp add: lo_def nat_uint_eq)
  then have k: "min (ndigits (unat (16 :: u64)) (unat num)) (nat (15 + 1 - lo)) = hex_count num width"
    using False nd by (auto simp: hex_count_def min_def)
  obtain i buf where f: "fill_digits 16 hex_digit lo num 15 (junk[16 := 0]) = (i, buf)" by fastforce
  have "drop 16 (junk[16 := 0]) = [0]" using assms(1) by (simp add: drop_update_cancel list_eq_iff_nth_eq)
  with fill_digits_spec [of 16 lo 15 "junk[16 := 0]" hex_digit hex_char num, OF _ lo] hex_digit_char assms(1)
  have "i = 15 - int (hex_count num width)"
    and "drop (nat (i + 1)) buf = map hex_char (low_digits 16 (hex_count num width) (unat num)) @ [0]"
    unfolding k f by auto
  then have "c_string buf (nat (i + 1)) = map hex_char (low_digits 16 (hex_count num width) (unat num))"
    using low_digits_less [of 16] hex_char_nonzero by (intro c_string_digits) auto
  then show ?thesis using False f by (simp add: hex_text_def lo_def)
qed

lemma dec_text_digits:
  "dec_text num = map dec_char (low_digits 10 (max 1 (ndigits 10 (unat num))) (unat num))"
proof (cases "num = 0")
  case True
  then show ?thesis using ndigits.simps [of 10 0] by (simp add: dec_text_def dec_char_def)
next
  case False
  let ?k = "ndigits 10 (unat num)"
  have nd: "?k \<le> 20" by (rule ndigits_le) (use unat_lt64 [of num] in simp_all)
  have k: "min (ndigits (unat (10 :: u64)) (unat num)) (nat (19 + 1 - 0)) = ?k" using nd by simp
  obtain i buf where f: "fill_digits 10 dec_digit 0 num 19 (replicate 21 0) = (i, buf)" by fastforce
  have "drop 20 (replicate 21 (0 :: u8)) = [0]" by simp
  with fill_digits_spec [of 10 0 19 "replicate 21 0" dec_digit dec_char num] dec_digit_char
  have "i = 19 - int ?k" and "drop (nat (i + 1)) buf = map dec_char (low_digits 10 ?k (unat num)) @ [0]"
    unfolding k f by auto
  then have "c_string buf (nat (i + 1)) = map dec_char (low_digits 10 ?k (unat num))"
    using low_digits_less [of 10] dec_char_nonzero by (intro c_string_digits) auto
  moreover have "max 1 ?k = ?k" using False ndigits.simps [of 10 "unat num"] by (simp add: unat_eq_zero)
  ultimately show ?thesis using False f by (simp add: dec_text_def)
qed

section \<open>Reading a number back\<close>

definition char_value :: "u8 \<Rightarrow> nat" where
  "char_value c = (if c \<le> 0x39 then unat (c - 0x30) else unat (c - 0x37))"

definition read_number :: "nat \<Rightarrow> u8 list \<Rightarrow> nat" where
  "read_number b cs = value_of b (map char_value cs)"

lemma read_hex_char: "d < 16 \<Longrightarrow> char_value (hex_char d) = d"
  by (drule less_16) (auto simp: char_value_def hex_char_def)

lemma read_dec_char: "d < 10 \<Longrightarrow> char_value (dec_char d) = d"
  using less_16 [of d] by (auto simp: char_value_def dec_char_def)

lemma read_hex_digits: "read_number 16 (map hex_char (low_digits 16 k n)) = n mod 16 ^ k"
proof -
  have "map (char_value \<circ> hex_char) (low_digits 16 k n) = map id (low_digits 16 k n)"
    by (rule map_cong) (auto simp: read_hex_char low_digits_less)
  then show ?thesis by (simp add: read_number_def value_of_low_digits)
qed

lemma read_dec_digits: "read_number 10 (map dec_char (low_digits 10 k n)) = n mod 10 ^ k"
proof -
  have "map (char_value \<circ> dec_char) (low_digits 10 k n) = map id (low_digits 10 k n)"
    by (rule map_cong) (auto simp: read_dec_char low_digits_less)
  then show ?thesis by (simp add: read_number_def value_of_low_digits)
qed

section \<open>Ports\<close>

lemma kprint_bytes: "bytes_to 0xE9 (trace (kprint msg s)) = bytes_to 0xE9 (trace s) @ msg"
  unfolding kprint_def by (induction msg arbitrary: s) (simp_all add: kputc_def outb_def)

lemma printed_dec:
  "\<exists>cs. bytes_to 0xE9 (trace (kprint_dec n s)) = bytes_to 0xE9 (trace s) @ cs \<and> cs \<noteq> [] \<and> read_number 10 cs = unat n"
proof -
  let ?k = "max 1 (ndigits 10 (unat n))"
  have "unat n < 10 ^ ndigits 10 (unat n)" by (rule less_power_ndigits) simp
  also have "\<dots> \<le> 10 ^ ?k" by (intro power_increasing) simp_all
  finally have "read_number 10 (dec_text n) = unat n" by (simp only: dec_text_digits read_dec_digits mod_less)
  moreover have "List.length (dec_text n) = ?k" by (simp only: dec_text_digits length_map length_low_digits)
  then have "dec_text n \<noteq> []" by auto
  ultimately show ?thesis by (auto simp: kprint_dec_def kprint_bytes)
qed

lemma printed_hex:
  assumes "List.length junk = 17" and "width \<le> 16"
  shows "\<exists>cs. bytes_to 0xE9 (trace (kprint_hex junk n width s)) = bytes_to 0xE9 (trace s) @ map of_char ''0x'' @ cs \<and>
    cs \<noteq> [] \<and> read_number 16 cs = (if width = 0 then unat n else unat n mod 16 ^ unat width)"
proof -
  let ?nd = "ndigits 16 (unat n)" and ?cs = "map hex_char (low_digits 16 (hex_count n width) (unat n))"
  have lt: "unat n < 16 ^ ?nd" by (rule less_power_ndigits) simp
  have "?nd \<noteq> 0 \<or> n = 0" using ndigits.simps [of 16 "unat n"] by (auto simp: unat_eq_zero)
  then have "hex_count n width \<noteq> 0" by (auto simp: hex_count_def min_def unat_eq_zero unat_gt_0)
  moreover have "unat n mod 16 ^ hex_count n width = (if width = 0 then unat n else unat n mod 16 ^ unat width)"
  proof (cases "n = 0 \<or> width = 0 \<or> unat width \<le> ?nd")
    case True
    then show ?thesis using lt by (auto simp: hex_count_def min_def unat_gt_0)
  next
    case False
    then have "(16 :: nat) ^ ?nd \<le> 16 ^ unat width" by (intro power_increasing) simp_all
    with lt have "unat n < 16 ^ unat width" by (rule less_le_trans)
    then show ?thesis using False lt by (simp add: hex_count_def min_def)
  qed
  moreover have "low_digits 16 k (unat n) = [] \<longleftrightarrow> k = 0" for k
    using length_low_digits [of 16 k "unat n"] by (cases k) auto
  ultimately show ?thesis
    by (intro exI [of _ ?cs]) (auto simp: kprint_hex_def kprint_bytes hex_text_digits [OF assms] read_hex_digits)
qed

lemma kprintf_plain:
  "0x25 \<notin> set format \<Longrightarrow> kprintf junk (format @ rest) args s = kprintf junk rest args (kprint format s)"
  by (induction format arbitrary: s) (auto simp: kprint_def)

text \<open>The serial port: a write waits for the transmitter, then sends exactly one byte.\<close>

lemma rounds_transmit:
  "trace (rounds (is_transmit_empty dev) n s) = replicate n (In8 (COM1 + 5)) @ trace s \<and>
   serial_faulty (rounds (is_transmit_empty dev) n s) = serial_faulty s"
proof (induction n arbitrary: s)
  case (Suc n)
  then show ?case by (simp add: is_transmit_empty_def inb_def replicate_append_same flip: append_Cons)
qed simp

lemma poll_transmit_trace:
  assumes "poll (is_transmit_empty dev) s = Some t"
  shows "\<exists>n. trace t = replicate n (In8 (COM1 + 5)) @ trace s \<and> serial_faulty t = serial_faulty s"
proof -
  from poll_SomeD [OF assms] obtain n where
    t: "t = snd (is_transmit_empty dev (rounds (is_transmit_empty dev) n s))" by blast
  have "trace t = replicate (Suc n) (In8 (COM1 + 5)) @ trace s \<and> serial_faulty t = serial_faulty s"
    by (simp add: t is_transmit_empty_def inb_def rounds_transmit)
  then show ?thesis by blast
qed

lemma bytes_to_reads [simp]: "bytes_to p (replicate n (In8 q)) = []"
  by (induction n) simp_all

lemma serial_puts_bytes:
  "serial_puts dev str s = Some (st, t) \<Longrightarrow>
   (if serial_faulty s \<and> str \<noteq> [] then st = SYS_ERR \<and> t = s
    else st = SYS_OK \<and> bytes_to COM1 (trace t) = bytes_to COM1 (trace s) @ str)"
proof (induction str arbitrary: s)
  case (Cons c str)
  show ?case
  proof (cases "serial_faulty s")
    case True
    then show ?thesis using Cons.prems by (auto simp: serial_write_def)
  next
    case False
    then obtain u where p: "poll (is_transmit_empty dev) s = Some u"
      and r: "serial_puts dev str (outb COM1 c u) = Some (st, t)"
      using Cons.prems by (auto simp: serial_write_def bind_eq_Some_conv)
    from poll_transmit_trace [OF p] False
    have "\<not> serial_faulty (outb COM1 c u)" "bytes_to COM1 (trace (outb COM1 c u)) = bytes_to COM1 (trace s) @ [c]"
      by (auto simp: outb_def)
    with Cons.IH [OF r] False show ?thesis by simp
  qed
qed simp

text \<open>A transmitter that empties after some number of polls, whatever happened before.\<close>

definition transmitter_drains :: "hardware \<Rightarrow> bool" where
  "transmitter_drains dev \<longleftrightarrow>
     (\<forall>t. \<exists>n. (ucast (dev (replicate n (In8 (COM1 + 5)) @ t) (In8 (COM1 + 5))) :: u8) AND 0x20 \<noteq> 0)"

lemma serial_puts_returns:
  assumes dev: "transmitter_drains dev"
  shows "\<exists>r. serial_puts dev str s = Some r"
proof (induction str arbitrary: s)
  case (Cons c str)
  show ?case
  proof (cases "serial_faulty s")
    case False
    have "\<exists>n. fst (is_transmit_empty dev (rounds (is_transmit_empty dev) n s))"
      using dev unfolding transmitter_drains_def
      by (simp add: is_transmit_empty_def inb_def rounds_transmit)
    then obtain u where "poll (is_transmit_empty dev) s = Some u" using poll_Some_iff by metis
    then have "serial_puts dev (c # str) s = serial_puts dev str (outb COM1 c u)"
      using False by (simp add: serial_write_def)
    then show ?thesis using Cons.IH by simp
  qed (simp add: serial_write_def)
qed simp

end
