(* ===== verification/Rtc.thy ===== *)
theory Rtc
  imports Port_IO
begin

text \<open>
  The real-time clock: \<^verbatim>\<open>kernel/src/sys/cmos.c\<close> and the macros of \<^verbatim>\<open>cmos.h\<close>.
\<close>

section \<open>Reading the registers\<close>

record cmos =
  seconds :: u8
  minutes :: u8
  hours :: u8
  weekdays :: u8
  day :: u8
  month :: u8
  year :: u16
  century :: u8

abbreviation (input) CURRENT_YEAR :: u16 where "CURRENT_YEAR \<equiv> 2024"
abbreviation (input) CMOS_CMD_PORT :: u16 where "CMOS_CMD_PORT \<equiv> 0x70"
abbreviation (input) CMOS_DATA_PORT :: u16 where "CMOS_DATA_PORT \<equiv> 0x71"
abbreviation (input) CMOS_REG_SEC :: u8 where "CMOS_REG_SEC \<equiv> 0x00"
abbreviation (input) CMOS_REG_MIN :: u8 where "CMOS_REG_MIN \<equiv> 0x02"
abbreviation (input) CMOS_REG_HRS :: u8 where "CMOS_REG_HRS \<equiv> 0x04"
abbreviation (input) CMOS_REG_WKD :: u8 where "CMOS_REG_WKD \<equiv> 0x06"
abbreviation (input) CMOS_REG_DAY :: u8 where "CMOS_REG_DAY \<equiv> 0x07"
abbreviation (input) CMOS_REG_MTH :: u8 where "CMOS_REG_MTH \<equiv> 0x08"
abbreviation (input) CMOS_REG_YEAR :: u8 where "CMOS_REG_YEAR \<equiv> 0x09"
abbreviation (input) CMOS_REG_CEN :: u8 where "CMOS_REG_CEN \<equiv> 0x32"
abbreviation (input) CMOS_REG_STA :: u8 where "CMOS_REG_STA \<equiv> 0x0A"
abbreviation (input) CMOS_REG_STB :: u8 where "CMOS_REG_STB \<equiv> 0x0B"

definition get_reg_value :: "hardware \<Rightarrow> u8 \<Rightarrow> 'a io_state_scheme \<Rightarrow> u8 \<times> 'a io_state_scheme" where
  "get_reg_value dev reg s =
     (let s = outb CMOS_CMD_PORT (reg OR push_bit 7 1) s; s = io_wait s in inb dev CMOS_DATA_PORT s)"

text \<open>\<^verbatim>\<open>wait\<close> answers whether an update is in progress; the loops end when it is not.\<close>

definition rtc_wait :: "hardware \<Rightarrow> 'a io_state_scheme \<Rightarrow> u8 \<times> 'a io_state_scheme" where
  "rtc_wait dev s =
     (let s = outb CMOS_CMD_PORT CMOS_REG_STA s; (v, s) = inb dev CMOS_DATA_PORT s in (v AND 0x80, s))"

definition rtc_idle :: "hardware \<Rightarrow> 'a io_state_scheme \<Rightarrow> bool \<times> 'a io_state_scheme" where
  "rtc_idle dev s = (let (v, s) = rtc_wait dev s in (v = 0, s))"

definition GET_TIME :: "hardware \<Rightarrow> 'a io_state_scheme \<Rightarrow> cmos \<times> 'a io_state_scheme" where
  "GET_TIME dev s =
     (let (sec, s) = get_reg_value dev CMOS_REG_SEC s;
          (mi, s) = get_reg_value dev CMOS_REG_MIN s;
          (ho, s) = get_reg_value dev CMOS_REG_HRS s;
          (wk, s) = get_reg_value dev CMOS_REG_WKD s;
          (da, s) = get_reg_value dev CMOS_REG_DAY s;
          (mo, s) = get_reg_value dev CMOS_REG_MTH s;
          (ye, s) = get_reg_value dev CMOS_REG_YEAR s;
          (ce, s) = get_reg_value dev CMOS_REG_CEN s
      in (\<lparr>seconds = sec, minutes = mi, hours = ho, weekdays = wk, day = da, month = mo,
           year = ucast ye, century = ce\<rparr>, s))"

text \<open>
  The loop condition is \<^verbatim>\<open>!CHECK_TIME_EQ(cur, prev)\<close>; the macro has no parentheses
  around its body, so the negation applies to its first comparison only.
\<close>

definition not_CHECK_TIME_EQ :: "cmos \<Rightarrow> cmos \<Rightarrow> bool" where
  "not_CHECK_TIME_EQ one two \<longleftrightarrow>
     \<not> (seconds one = seconds two) \<and> minutes one = minutes two \<and> hours one = hours two \<and>
     weekdays one = weekdays two \<and> day one = day two \<and> month one = month two \<and>
     year one = year two \<and> century one = century two"

partial_function (option) read_stable :: "hardware \<Rightarrow> cmos \<Rightarrow> 'a io_state_scheme \<Rightarrow> (cmos \<times> 'a io_state_scheme) option" where
  "read_stable dev cur s =
     Option.bind (poll (rtc_idle dev) s) (\<lambda>s.
       let prev = cur; (cur, s) = GET_TIME dev s
       in if not_CHECK_TIME_EQ cur prev then read_stable dev cur s else Some (cur, s))"

section \<open>Conversion\<close>

definition TO_BINARY :: "u8 \<Rightarrow> u8" where
  "TO_BINARY v = (v AND 0xF) + (v div 16) * 10"

definition TO_BINARY16 :: "u16 \<Rightarrow> u16" where
  "TO_BINARY16 v = (v AND 0xF) + (v div 16) * 10"

definition from_bcd :: "cmos \<Rightarrow> cmos" where
  "from_bcd cur = cur\<lparr>seconds := TO_BINARY (seconds cur), minutes := TO_BINARY (minutes cur),
     hours := TO_BINARY (hours cur), weekdays := TO_BINARY (weekdays cur), day := TO_BINARY (day cur),
     month := TO_BINARY (month cur), year := TO_BINARY16 (year cur), century := TO_BINARY (century cur)\<rparr>"

definition to_24_hours :: "u8 \<Rightarrow> cmos \<Rightarrow> cmos" where
  "to_24_hours b cur =
     (if b AND 0x02 = 0 \<and> hours cur AND 0x80 \<noteq> 0
      then cur\<lparr>hours := ((hours cur AND 0x7F) + 12) mod 24\<rparr> else cur)"

definition full_year :: "bool \<Rightarrow> cmos \<Rightarrow> cmos" where
  "full_year century_register cur =
     (if year cur < 100
      then if century_register then cur\<lparr>year := year cur + ucast (century cur) * 100\<rparr>
           else let y = year cur + (CURRENT_YEAR div 100) * 100
                in cur\<lparr>year := (if y < CURRENT_YEAR then y + 100 else y)\<rparr>
      else cur)"

definition convert_time :: "bool \<Rightarrow> u8 \<Rightarrow> cmos \<Rightarrow> cmos" where
  "convert_time century_register b cur =
     (let cur = (if b AND 0x04 = 0 then from_bcd cur else cur);
          cur = to_24_hours b cur
      in full_year century_register cur)"

text \<open>The variable \<^verbatim>\<open>century_register\<close> is 0 and nothing sets it.\<close>

definition read_time :: "hardware \<Rightarrow> 'a io_state_scheme \<Rightarrow> (cmos \<times> 'a io_state_scheme) option" where
  "read_time dev s = do {
     s \<leftarrow> poll (rtc_idle dev) s;
     let (cur, s) = GET_TIME dev s;
     (cur, s) \<leftarrow> read_stable dev cur s;
     let (b, s) = get_reg_value dev CMOS_REG_STB s;
     Some (convert_time False b cur, s)
   }"

record rtc_state = io_state +
  boot_time :: cmos

definition cmos_init :: "hardware \<Rightarrow> rtc_state \<Rightarrow> rtc_state option" where
  "cmos_init dev s = do {
     (t, s) \<leftarrow> read_time dev s;
     Some (s\<lparr>boot_time := t\<rparr>)
   }"

section \<open>What the conversion does\<close>

definition bcd :: "nat \<Rightarrow> u8" where
  "bcd n = of_nat (n div 10 * 16 + n mod 10)"

definition all_below :: "nat \<Rightarrow> (nat \<Rightarrow> bool) \<Rightarrow> bool" where
  "all_below k P = list_all P [0..<k]"

lemma all_belowD: "all_below k P \<Longrightarrow> n < k \<Longrightarrow> P n"
  by (simp add: all_below_def list_all_iff)

lemma unat_bcd: "n < 100 \<Longrightarrow> unat (bcd n) = n div 10 * 16 + n mod 10"
proof -
  assume "n < 100"
  then have "n div 10 \<le> 9" by simp
  moreover have "n mod 10 \<le> 9" using mod_less_divisor [of 10 n] by linarith
  ultimately have "n div 10 * 16 + n mod 10 < 2 ^ 8" by simp
  then show ?thesis unfolding bcd_def unat_of_nat by simp
qed

lemma TO_BINARY_unat: "unat (TO_BINARY v) = (unat v mod 16 + unat v div 16 * 10) mod 256"
proof -
  have "unat (v AND 0xF) = unat (take_bit 4 v)" by (simp add: take_bit_eq_mask mask_eq_exp_minus_1)
  also have "\<dots> = unat v mod 16" by (simp only: unsigned_take_bit_eq take_bit_eq_mod [where 'a = nat]) simp
  finally show ?thesis by (simp add: TO_BINARY_def unat_word_ariths unat_div mod_simps)
qed

lemma TO_BINARY_bcd: "n < 100 \<Longrightarrow> TO_BINARY (bcd n) = of_nat n"
proof -
  assume n: "n < 100"
  have "unat (TO_BINARY (bcd n)) = n" using n by (simp add: TO_BINARY_unat unat_bcd)
  then have "of_nat (unat (TO_BINARY (bcd n))) = (of_nat n :: u8)" by (rule arg_cong)
  then show ?thesis by simp
qed

text \<open>A clock in BCD mode holds the two digits of each field.\<close>

lemma TO_BINARY16_ucast: "n < 100 \<Longrightarrow> TO_BINARY16 (ucast (bcd n)) = of_nat n"
proof -
  assume n: "n < 100"
  let ?v = "ucast (bcd n) :: u16"
  have v: "unat ?v = n div 10 * 16 + n mod 10"
  proof -
    have "unat (bcd n) < 2 ^ LENGTH(8)" by (rule unsigned_less)
    then have "unat (bcd n) < 2 ^ LENGTH(16)" by simp
    then show ?thesis by (simp only: unsigned_ucast_eq take_bit_nat_eq_self unat_bcd [OF n])
  qed
  have "unat (?v AND 0xF) = unat (take_bit 4 ?v)" by (simp add: take_bit_eq_mask mask_eq_exp_minus_1)
  also have "\<dots> = unat ?v mod 16" by (simp only: unsigned_take_bit_eq take_bit_eq_mod [where 'a = nat]) simp
  finally have "unat (TO_BINARY16 ?v) = (unat ?v mod 16 + unat ?v div 16 * 10) mod 65536"
    by (simp add: TO_BINARY16_def unat_word_ariths unat_div mod_simps)
  also have "\<dots> = n" unfolding v using n by simp
  finally have "of_nat (unat (TO_BINARY16 ?v)) = (of_nat n :: u16)" by (rule arg_cong)
  then show ?thesis by simp
qed

lemma mod_add_self2_2000: "k < 100 \<Longrightarrow> (k + 2000) mod 100 = k" for k :: nat
  using mod_mult_self1 [of k 20 100] by simp

lemma mod_add_self2_2100: "k < 100 \<Longrightarrow> (k + 2100) mod 100 = k" for k :: nat
  using mod_mult_self1 [of k 21 100] by simp

lemma full_year_window:
  assumes "unat (year c) < 100"
  shows "unat (year (full_year False c)) \<in> {2024..2123} \<and> unat (year (full_year False c)) mod 100 = unat (year c)"
proof -
  have lt: "year c < 100" using assms by (simp add: word_less_nat_alt)
  have y: "unat (year c + 2000) = unat (year c) + 2000" using assms by (simp add: unat_word_ariths)
  have z: "unat (year c + 2000 + 100) = unat (year c) + 2100" using assms by (simp add: unat_word_ariths)
  show ?thesis
  proof (cases "year c + 2000 < 2024")
    case True
    then have "unat (year c) + 2000 < 2024" using y by (simp add: word_less_nat_alt)
    moreover have "year (full_year False c) = year c + 2000 + 100"
      using True lt by (simp add: full_year_def Let_def)
    moreover have "(unat (year c) + 2100) mod 100 = unat (year c)"
      using mod_add_self2_2100 [OF assms] .
    ultimately show ?thesis using z assms by simp
  next
    case False
    then have "2024 \<le> unat (year c) + 2000" using y by (simp add: word_less_nat_alt not_less)
    moreover have "year (full_year False c) = year c + 2000" using False lt by (simp add: full_year_def Let_def)
    moreover have "(unat (year c) + 2000) mod 100 = unat (year c)"
      using mod_add_self2_2000 [OF assms] .
    ultimately show ?thesis using y assms by simp
  qed
qed

lemma full_year_others:
  "\<exists>y. full_year False c = c\<lparr>year := y\<rparr>"
proof (cases "year c < 100")
  case False
  then have "full_year False c = c\<lparr>year := year c\<rparr>" by (simp add: full_year_def)
  then show ?thesis ..
qed (auto simp: full_year_def Let_def)

lemma convert_bcd_time:
  assumes b: "b AND 0x04 = 0" "b AND 0x02 \<noteq> 0"
    and "sec < 100" and "mi < 100" and "ho < 100" and "wk < 100" and "da < 100" and "mo < 100" and y: "ye < 100" and "ce < 100"
  shows "\<exists>y \<in> {2024..2123}. y mod 100 = ye \<and>
    convert_time False b \<lparr>seconds = bcd sec, minutes = bcd mi, hours = bcd ho, weekdays = bcd wk,
        day = bcd da, month = bcd mo, year = ucast (bcd ye), century = bcd ce\<rparr> =
      \<lparr>seconds = of_nat sec, minutes = of_nat mi, hours = of_nat ho, weekdays = of_nat wk,
        day = of_nat da, month = of_nat mo, year = of_nat y, century = of_nat ce\<rparr>"
    (is "\<exists>y \<in> _. _ \<and> convert_time False b ?raw = ?out y")
proof -
  let ?c = "\<lparr>seconds = of_nat sec, minutes = of_nat mi, hours = of_nat ho, weekdays = of_nat wk,
        day = of_nat da, month = of_nat mo, year = of_nat ye, century = of_nat ce\<rparr> :: cmos"
  have c: "convert_time False b ?raw = full_year False ?c"
    using assms by (simp add: convert_time_def from_bcd_def to_24_hours_def TO_BINARY_bcd TO_BINARY16_ucast)
  have u: "unat (year ?c) = ye" using y by (simp add: unat_of_nat)
  obtain w where w: "full_year False ?c = ?c\<lparr>year := w\<rparr>" using full_year_others by blast
  have "unat w \<in> {2024..2123} \<and> unat w mod 100 = ye"
    using full_year_window [of ?c] y by (simp only: u w) simp
  moreover have "convert_time False b ?raw = ?out (unat w)" by (simp add: c w)
  ultimately show ?thesis by blast
qed

text \<open>
  Afternoon hours of a 12-hour clock. In binary mode the hour is right but for noon, which
  becomes 0; in BCD mode the flag is converted as part of the tens digit and is lost.
\<close>

lemma pm_binary:
  "h \<le> 12 \<Longrightarrow> unat (hours (to_24_hours 0x04 (c\<lparr>hours := of_nat h + 0x80\<rparr>))) = (h + 12) mod 24"
proof -
  assume "h \<le> 12"
  then have "h \<in> {0, 1, 2, 3, 4, 5, 6, 7, 8, 9, 10, 11, 12}" by (simp add: le_Suc_eq numeral_eq_Suc)
  then show ?thesis by (auto simp: to_24_hours_def)
qed

lemma pm_bcd:
  "h \<le> 12 \<Longrightarrow> unat (hours (to_24_hours 0 (from_bcd (c\<lparr>hours := bcd h + 0x80\<rparr>)))) = h + 80"
proof -
  assume "h \<le> 12"
  then have "h \<in> {0, 1, 2, 3, 4, 5, 6, 7, 8, 9, 10, 11, 12}" by (simp add: le_Suc_eq numeral_eq_Suc)
  then show ?thesis by (auto simp: to_24_hours_def from_bcd_def TO_BINARY_def bcd_def)
qed

section \<open>The reading loop\<close>

lemma read_stable_accepts:
  assumes "poll (rtc_idle dev) s = Some t" and "GET_TIME dev t = (cur, u)"
    and "seconds cur = seconds prev \<or> minutes cur \<noteq> minutes prev \<or> hours cur \<noteq> hours prev \<or>
      weekdays cur \<noteq> weekdays prev \<or> day cur \<noteq> day prev \<or> month cur \<noteq> month prev \<or>
      year cur \<noteq> year prev \<or> century cur \<noteq> century prev"
  shows "read_stable dev prev s = Some (cur, u)"
  using assms by (subst read_stable.simps) (auto simp: not_CHECK_TIME_EQ_def Let_def)

end
