(* ===== verification/Device_Properties.thy ===== *)
theory Device_Properties
  imports Pci_Scan Console_Text Rtc
begin

text \<open>
  The properties of the PCI code, the console, the serial port and the real-time clock, with
  hardware on which they apply.
\<close>

section \<open>PCI\<close>

lemma find_device_desc_cases:
  obtains (found) i where "i < List.length table" "find_device_desc d = of_nat i"
    "fst (table ! i) = vendor_id d" "fst (snd (table ! i)) = device_id d"
    "\<forall>j < i. fst (table ! j) \<noteq> vendor_id d \<or> fst (snd (table ! j)) \<noteq> device_id d"
  | (missing) "find_device_desc d = NOT_IN_TABLE"
    "\<not> (\<exists>e \<in> set table. fst e = vendor_id d \<and> fst (snd e) = device_id d)"
proof (cases "find (\<lambda>i. fst (table ! i) = vendor_id d \<and> fst (snd (table ! i)) = device_id d) [0..<List.length table]")
  case None
  then have "\<forall>i < List.length table. \<not> (fst (table ! i) = vendor_id d \<and> fst (snd (table ! i)) = device_id d)"
    by (simp only: find_None_iff set_upt) simp
  then have "\<not> (\<exists>e \<in> set table. fst e = vendor_id d \<and> fst (snd e) = device_id d)"
    by (metis in_set_conv_nth)
  moreover have "find_device_desc d = NOT_IN_TABLE" using None by (simp only: find_device_desc_def option.case)
  ultimately show ?thesis by (rule missing [rotated])
next
  case (Some i)
  then have "i < List.length table" "fst (table ! i) = vendor_id d" "fst (snd (table ! i)) = device_id d"
    "\<forall>j < i. fst (table ! j) \<noteq> vendor_id d \<or> fst (snd (table ! j)) \<noteq> device_id d"
    by (auto simp: find_Some_iff)
  moreover have "find_device_desc d = of_nat i" using Some by (simp only: find_device_desc_def option.case)
  ultimately show ?thesis using found by blast
qed

text \<open>
  \<^verbatim>\<open>find_device_desc\<close> returns the first entry of the table of known devices that
  has the vendor and the device identifier, and \<^verbatim>\<open>NOT_IN_TABLE\<close> exactly when none has.
\<close>

lemma find_device_desc_correct:
  "if \<exists>e \<in> set table. fst e = vendor_id d \<and> fst (snd e) = device_id d
   then \<exists>i < List.length table. find_device_desc d = of_nat i \<and>
     fst (table ! i) = vendor_id d \<and> fst (snd (table ! i)) = device_id d \<and>
     (\<forall>j < i. fst (table ! j) \<noteq> vendor_id d \<or> fst (snd (table ! j)) \<noteq> device_id d)
   else find_device_desc d = NOT_IN_TABLE"
proof (cases d rule: find_device_desc_cases)
  case (found i)
  then have "\<exists>e \<in> set table. fst e = vendor_id d \<and> fst (snd e) = device_id d" by (blast intro: nth_mem)
  then show ?thesis using found by (simp only: if_True) blast
next
  case missing
  then show ?thesis by (simp only: if_False simp_thms)
qed

definition sample_device :: pci_device where
  "sample_device = (new_device 0 0 0)\<lparr>vendor_id := 0x8086, device_id := 0x2922\<rparr>"

lemma table_103: "List.length table = 105" "table ! 103 = (0x8086, 0x2922, ''82801IR/IO/IH (ICH9R/DO/DH) 6 port SATA Controller [AHCI mode]'')"
  by (simp_all add: table_def)

lemma find_device_desc_correct_witness:
  "\<exists>i < 105. find_device_desc sample_device = of_nat i \<and> fst (table ! i) = 0x8086 \<and> fst (snd (table ! i)) = 0x2922"
proof -
  have "table ! 103 \<in> set table" by (rule nth_mem) (simp add: table_103)
  then have "\<exists>e \<in> set table. fst e = 0x8086 \<and> fst (snd e) = 0x2922"
    by (rule rev_bexI) (simp add: table_103)
  then show ?thesis
    using find_device_desc_correct [of sample_device] by (auto simp: sample_device_def table_103(1))
qed

text \<open>
  The table has two entries for one card, so the description of the second is never printed.
\<close>

lemma duplicate_entry: "find_device_desc d \<noteq> 16"
proof (cases d rule: find_device_desc_cases)
  case (found i)
  have "i < 105" using found(1) by (simp only: table_103)
  have t: "table ! 9 = (0x1002, 0x67DF, ''AMD Radeon RX 580'')" "table ! 16 = (0x1002, 0x67DF, ''AMD Radeon RX 480'')"
    by (simp_all add: table_def)
  have "i \<noteq> 16"
  proof
    assume "i = 16"
    then show False using found(3,4) found(5) [rule_format, of 9] t by simp
  qed
  with \<open>i < 105\<close> show ?thesis unfolding found(2) by (simp add: word_unat_eq_iff unat_of_nat)
qed simp




definition fresh_pci :: pci_state where
  "fresh_pci = \<lparr>trace = [], interrupts_on = True, device_list = []\<rparr>"

lemma u32_through_register [simp]: "ucast (ucast (b :: u32) :: u64) = b"
  by (rule bit_word_eqI) (simp add: bit_simps)




text \<open>
  C34. Sizing a 32-bit memory register of \<open>2 ^ k\<close> bytes: \<^verbatim>\<open>find_bar\<close> returns its
  address, its exact size and its flags, and leaves the register as it was.
\<close>

theorem find_bar_correct:
  assumes "register_at dev (config_addr b d f bar) (NOT (mask k)) v" and "4 \<le> k" and "k < 32"
    and "v AND mask k = v AND mask 4" and "v AND 4 = 0" and "v AND 1 = 0"
  shows "let c = reg_value (config_addr b d f bar) (NOT (mask k)) v (trace s); (r, s') = find_bar dev b d f bar s
    in bar_address r = ucast (c AND NOT (mask 4)) \<and> bar_size r = 2 ^ k \<and> bar_flags r = c AND mask 4 \<and>
      reg_value (config_addr b d f bar) (NOT (mask k)) v (trace s') = c"
proof -
  from find_bar_memory [OF assms, of s] obtain s' where
    "find_bar dev b d f bar s =
      (\<lparr>bar_address = ucast (reg_value (config_addr b d f bar) (NOT (mask k)) v (trace s) AND NOT (mask 4)), bar_size = 2 ^ k,
        bar_flags = reg_value (config_addr b d f bar) (NOT (mask k)) v (trace s) AND mask 4\<rparr>, s')"
    and "reg_value (config_addr b d f bar) (NOT (mask k)) v (trace s') =
      reg_value (config_addr b d f bar) (NOT (mask k)) v (trace s)" .
  then show ?thesis by (simp only: Let_def split_conv pci_bar.select_convs simp_thms)
qed

definition bar_hardware :: hardware where
  "bar_hardware t e = ucast (reg_value 0x80000010 (NOT (mask 12)) 0xFEBF0000 t)"

theorem find_bar_correct_witness:
  "case find_bar bar_hardware 0 0 0 0x10 fresh_pci of (r, s') \<Rightarrow>
     bar_address r = 0xFEBF0000 \<and> bar_size r = 4096 \<and> bar_flags r = 0"
proof -
  have a: "config_addr 0 0 0 0x10 = 0x80000010" by (simp add: config_addr_def)
  have "register_at bar_hardware (config_addr 0 0 0 0x10) (NOT (mask 12)) 0xFEBF0000"
    by (simp add: register_at_def bar_hardware_def a)
  from find_bar_correct [OF this, of fresh_pci] show ?thesis
    by (simp add: fresh_pci_def mask_eq_exp_minus_1 Let_def split_beta)
qed

section \<open>Console and serial port\<close>

text \<open>
  C35. A number printed in decimal reads back as itself; one printed in hexadecimal has the
  prefix \<open>0x\<close> and reads back as itself, or, with a width, as its low digits.
\<close>

theorem printed_number_roundtrip:
  assumes "List.length junk = 17" and "width \<le> 16"
  shows "(\<exists>cs. bytes_to 0xE9 (trace (kprint_dec n s)) = bytes_to 0xE9 (trace s) @ cs \<and>
      cs \<noteq> [] \<and> read_number 10 cs = unat n) \<and>
    (\<exists>cs. bytes_to 0xE9 (trace (kprint_hex junk n width s)) = bytes_to 0xE9 (trace s) @ map of_char ''0x'' @ cs \<and>
      cs \<noteq> [] \<and> read_number 16 cs = (if width = 0 then unat n else unat n mod 16 ^ unat width))"
  using printed_dec [of n s] printed_hex [OF assms, of n s] by blast

theorem printed_number_roundtrip_witness:
  "\<exists>cs. bytes_to 0xE9 (trace (kprint_hex (replicate 17 0) 0xBEEF 2 fresh_pci)) = map of_char ''0x'' @ cs \<and>
     read_number 16 cs = 0xEF"
  using printed_number_roundtrip [where junk = "replicate 17 0" and width = 2 and n = "0xBEEF" and s = fresh_pci] by (auto simp: fresh_pci_def)

text \<open>
  C36. With a transmitter that drains, \<^verbatim>\<open>serial_puts\<close> returns: it reports an error and
  sends nothing on a faulty port, and otherwise sends exactly the bytes of the string, in
  order.
\<close>

theorem serial_puts_correct:
  assumes "transmitter_drains dev"
  shows "\<exists>st t. serial_puts dev str s = Some (st, t) \<and>
    (if serial_faulty s \<and> str \<noteq> [] then st = SYS_ERR \<and> t = s
     else st = SYS_OK \<and> bytes_to COM1 (trace t) = bytes_to COM1 (trace s) @ str)"
  using serial_puts_returns [OF assms] serial_puts_bytes by (metis surj_pair)

definition fresh_serial :: serial_state where
  "fresh_serial = \<lparr>trace = [], interrupts_on = True, serial_faulty = False\<rparr>"

text \<open>A transmitter that is ready at every third poll.\<close>

definition slow_uart :: hardware where
  "slow_uart t e = (if List.length t mod 3 = 0 then 0x20 else 0)"

lemma slow_uart_drains: "transmitter_drains slow_uart"
proof -
  have "\<exists>n. (n + k) mod 3 = 0" for k :: nat
    by (rule exI [of _ "2 * k"]) simp
  then show ?thesis unfolding transmitter_drains_def slow_uart_def by simp
qed

theorem serial_puts_correct_witness:
  "\<exists>t. serial_puts slow_uart (map of_char ''ok'') fresh_serial = Some (SYS_OK, t) \<and>
     bytes_to COM1 (trace t) = map of_char ''ok''"
  using serial_puts_correct [OF slow_uart_drains, of "map of_char ''ok''" fresh_serial]
  by (auto simp: fresh_serial_def)

end
