(* ===== verification/Screen.thy ===== *)
theory Screen
  imports Byte_Memory Console
begin

text \<open>
  The screen: \<^verbatim>\<open>kernel/src/graphics/framebuffer.c\<close> and
  \<^verbatim>\<open>kernel/src/dev/terminal.c\<close>. Pixels, glyphs and the header of the font lie in the
  memory. A pointer to a terminal that may be \<^verbatim>\<open>NULL\<close> is an option value; log
  messages are left out. The \<^verbatim>\<open>int\<close> coordinates of the cursor are 32-bit words, read
  with \<open>sint\<close> where the code compares them as signed numbers.
\<close>

section \<open>Structures\<close>

record framebuffer =
  fb_base :: u64
  backbuffer :: u64
  swapbuffer :: u64
  fb_height :: u64
  fb_width :: u64
  fb_pitch :: u64
  fb_bpp :: u16

record ivec2 =
  ix :: u32
  iy :: u32

record psf1_font =
  font_header :: u64
  glyph_buffer :: u64

datatype terminal_mode = MODE_TERM | MODE_GUI | MODE_INFO | MODE_UNSET

record terminal =
  t_framebuffer :: framebuffer
  background_color :: u32
  foreground_color :: u32
  t_width :: u32
  t_height :: u32
  cursor_pos :: ivec2
  t_mode :: terminal_mode

abbreviation (input) COLOR_BLACK :: u32 where "COLOR_BLACK \<equiv> 0"
abbreviation (input) COLOR_WHITE :: u32 where "COLOR_WHITE \<equiv> 0xAAAAAA"
abbreviation (input) DEFAULT_BG :: u32 where "DEFAULT_BG \<equiv> COLOR_BLACK"
abbreviation (input) PSF1_FONT_WIDTH :: u32 where "PSF1_FONT_WIDTH \<equiv> 8"
abbreviation (input) TERMINAL_LEFT_OFFSET :: u32 where "TERMINAL_LEFT_OFFSET \<equiv> 1"
abbreviation (input) IVEC2_ONE :: ivec2 where "IVEC2_ONE \<equiv> \<lparr>ix = 1, iy = 1\<rparr>"

text \<open>\<^verbatim>\<open>font.header->character_size\<close>: the fourth byte of the header.\<close>

definition character_size :: "psf1_font \<Rightarrow> mem \<Rightarrow> u8" where
  "character_size f m = m (font_header f + 3)"

section \<open>framebuffer.c\<close>

text \<open>
  What the boot loader answers: no response, or the array of pointers to its framebuffers.
  The result is the new value of the global \<^verbatim>\<open>initial_fb\<close>.
\<close>

definition fb_init :: "framebuffer option list option \<Rightarrow> framebuffer \<Rightarrow> framebuffer option" where
  "fb_init response initial_fb =
     (case response of
        None \<Rightarrow> None
      | Some [] \<Rightarrow> None
      | Some (None # _) \<Rightarrow> Some initial_fb
      | Some (Some fb # _) \<Rightarrow> Some (initial_fb\<lparr>fb_base := fb_base fb, backbuffer := fb_base fb,
          fb_height := fb_height fb, fb_width := fb_width fb, fb_pitch := fb_pitch fb, fb_bpp := fb_bpp fb\<rparr>))"

definition pixel_address :: "framebuffer \<Rightarrow> u32 \<Rightarrow> u32 \<Rightarrow> u64" where
  "pixel_address fb x y = backbuffer fb + fb_pitch fb * ucast y + 4 * ucast x"

definition on_screen :: "framebuffer \<Rightarrow> u32 \<Rightarrow> u32 \<Rightarrow> bool" where
  "on_screen fb x y \<longleftrightarrow> fb_pitch fb * ucast y + ucast (x * 4) < fb_pitch fb * fb_height fb"

definition fb_putpixel :: "framebuffer \<Rightarrow> u32 \<Rightarrow> u32 \<Rightarrow> u32 \<Rightarrow> mem \<Rightarrow> mem" where
  "fb_putpixel fb x y color m = (if on_screen fb x y then store32 (pixel_address fb x y) color m else m)"

definition fb_getpixel :: "framebuffer \<Rightarrow> u32 \<Rightarrow> u32 \<Rightarrow> mem \<Rightarrow> u32" where
  "fb_getpixel fb x y m = (if on_screen fb x y then load32 (pixel_address fb x y) m else 0)"

definition masks :: "u8 list" where
  "masks = [128, 64, 32, 16, 8, 4, 2, 1]"

definition glyph_bit :: "psf1_font \<Rightarrow> u32 \<Rightarrow> nat \<Rightarrow> nat \<Rightarrow> mem \<Rightarrow> bool" where
  "glyph_bit f offset i k m \<longleftrightarrow>
     i < unat (character_size f m) \<and> m (glyph_buffer f + (ucast offset + of_nat i)) AND masks ! k \<noteq> 0"

definition fb_putc_row :: "framebuffer \<Rightarrow> psf1_font \<Rightarrow> u32 \<Rightarrow> u32 \<Rightarrow> u32 \<Rightarrow> u32 \<Rightarrow> u32 \<Rightarrow> nat \<Rightarrow> mem \<Rightarrow> mem" where
  "fb_putc_row fb f x y fgcolor bgcolor offset i =
     fold (\<lambda>k m. fb_putpixel fb (x + of_nat k) (y + of_nat i) (if glyph_bit f offset i k m then fgcolor else bgcolor) m) [0..<8]"

text \<open>The bound of the loop over the rows is read from the font header at every turn.\<close>

function fb_putc_from :: "framebuffer \<Rightarrow> psf1_font \<Rightarrow> u32 \<Rightarrow> u32 \<Rightarrow> u32 \<Rightarrow> u32 \<Rightarrow> u32 \<Rightarrow> nat \<Rightarrow> mem \<Rightarrow> mem" where
  "fb_putc_from fb f x y fgcolor bgcolor offset i m =
     (if i < unat (character_size f m)
      then fb_putc_from fb f x y fgcolor bgcolor offset (Suc i) (fb_putc_row fb f x y fgcolor bgcolor offset i m)
      else m)"
  by auto

termination
proof (relation "measure (\<lambda>(fb, f, x, y, fgcolor, bgcolor, offset, i, m). 256 - i)")
  fix fb :: framebuffer and f x y fgcolor bgcolor offset i and m :: mem
  assume "i < unat (character_size f m)"
  moreover have "unat (character_size f m) < 2 ^ LENGTH(8)" by (rule unsigned_less)
  ultimately have "i < 256" by simp
  then show "((fb, f, x, y, fgcolor, bgcolor, offset, Suc i, fb_putc_row fb f x y fgcolor bgcolor offset i m),
      fb, f, x, y, fgcolor, bgcolor, offset, i, m)
    \<in> measure (\<lambda>(fb, f, x, y, fgcolor, bgcolor, offset, i, m). 256 - i)" by simp
qed simp

declare fb_putc_from.simps [simp del]

definition fb_putc :: "framebuffer \<Rightarrow> psf1_font \<Rightarrow> u32 \<Rightarrow> u32 \<Rightarrow> u32 \<Rightarrow> u32 \<Rightarrow> u8 \<Rightarrow> mem \<Rightarrow> mem" where
  "fb_putc fb f x y fgcolor bgcolor ch m =
     (let offset = ucast ch * ucast (character_size f m)
      in fb_putc_from fb f x y fgcolor bgcolor offset 0 m)"

definition fb_refresh :: "framebuffer \<Rightarrow> mem \<Rightarrow> mem" where
  "fb_refresh fb m =
     (if fb_base fb \<noteq> backbuffer fb
      then let len = fb_pitch fb * fb_height fb;
               m = fold (\<lambda>i m. if load32 (backbuffer fb + 4 * of_nat i) m \<noteq> DEFAULT_BG
                     then store32 (swapbuffer fb + 4 * of_nat i) (load32 (backbuffer fb + 4 * of_nat i) m) m else m)
                   [0..<unat (len div 4)] m
           in memcpy (fb_base fb) (swapbuffer fb) len m
      else m)"

section \<open>terminal.c\<close>

text \<open>The height is divided by the size of a character: a font of size 0 stops the machine.\<close>

definition init_terminal :: "framebuffer \<Rightarrow> psf1_font \<Rightarrow> mem \<Rightarrow> terminal \<Rightarrow> terminal option" where
  "init_terminal fb f m t =
     (let t = t\<lparr>t_framebuffer := fb, background_color := COLOR_BLACK, foreground_color := COLOR_WHITE\<rparr>
      in if font_header f = 0 then Some t
         else if character_size f m = 0 then None
         else Some (t\<lparr>t_height := ucast (fb_height fb div ucast (character_size f m)),
           t_width := ucast (fb_width fb div ucast PSF1_FONT_WIDTH), cursor_pos := IVEC2_ONE\<rparr>))"

definition terminal_set_foreground :: "u32 \<Rightarrow> terminal option \<Rightarrow> terminal option" where
  "terminal_set_foreground color = map_option (\<lambda>t. t\<lparr>foreground_color := color\<rparr>)"

definition terminal_set_background :: "u32 \<Rightarrow> terminal option \<Rightarrow> terminal option" where
  "terminal_set_background color = map_option (\<lambda>t. t\<lparr>background_color := color\<rparr>)"

definition set_terminal_cursor_pos :: "u32 \<Rightarrow> u32 \<Rightarrow> terminal option \<Rightarrow> terminal option" where
  "set_terminal_cursor_pos x y = map_option (\<lambda>t.
     let (x, y) = (if t_width t \<le> x then (0, y + 1) else (x, y)) in t\<lparr>cursor_pos := \<lparr>ix = x, iy = y\<rparr>\<rparr>)"

text \<open>The product that bounds the copied rows is an \<^verbatim>\<open>int\<close>, converted to \<^verbatim>\<open>size_t\<close>.\<close>

definition scroll_rows :: "u8 \<Rightarrow> terminal \<Rightarrow> nat" where
  "scroll_rows char_size t = unat (scast ((iy (cursor_pos t) - 1) * ucast char_size) :: u64)"

definition copy_row :: "framebuffer \<Rightarrow> u8 \<Rightarrow> nat \<Rightarrow> mem \<Rightarrow> mem" where
  "copy_row fb char_size y =
     fold (\<lambda>x m. let c = fb_getpixel fb (of_nat x) (of_nat (y + unat char_size)) m
       in fb_putpixel fb (of_nat x) (of_nat y) c m) [0..<unat (fb_width fb)]"

definition fill_row :: "framebuffer \<Rightarrow> u32 \<Rightarrow> nat \<Rightarrow> mem \<Rightarrow> mem" where
  "fill_row fb color y = fold (\<lambda>x. fb_putpixel fb (of_nat x) (of_nat y) color) [0..<unat (fb_width fb)]"

definition terminal_scroll :: "psf1_font \<Rightarrow> terminal \<Rightarrow> mem \<Rightarrow> mem" where
  "terminal_scroll f t m =
     (if font_header f = 0 then m
      else let char_size = character_size f m; fb = t_framebuffer t;
               m = fold (copy_row fb char_size) [0..<scroll_rows char_size t] m
           in fold (fill_row fb (background_color t)) [scroll_rows char_size t..<unat (fb_height fb)] m)"

definition terminal_push_cursor :: "psf1_font \<Rightarrow> terminal option \<Rightarrow> mem \<Rightarrow> terminal option \<times> mem" where
  "terminal_push_cursor f tp m =
     (case tp of
        None \<Rightarrow> (None, m)
      | Some t \<Rightarrow>
          let c = cursor_pos t
          in if t_width t \<le> ix c + 1
             then (Some (t\<lparr>cursor_pos := \<lparr>ix = TERMINAL_LEFT_OFFSET, iy = iy c + 1\<rparr>\<rparr>), m)
             else if t_height t \<le> iy c \<and> \<not> (iy c = t_height t \<and> ix c = 0)
             then (Some (t\<lparr>cursor_pos := c\<lparr>iy := iy c - 1\<rparr>\<rparr>), terminal_scroll f t m)
             else (Some (t\<lparr>cursor_pos := c\<lparr>ix := ix c + 1\<rparr>\<rparr>), m))"

definition terminal_pop_cursor :: "terminal option \<Rightarrow> terminal option" where
  "terminal_pop_cursor = map_option (\<lambda>t.
     let x = ix (cursor_pos t) - 1; x = (if sint x < 1 then x + 1 else x)
     in t\<lparr>cursor_pos := (cursor_pos t)\<lparr>ix := x\<rparr>\<rparr>)"

definition put_glyph :: "psf1_font \<Rightarrow> u8 \<Rightarrow> terminal \<Rightarrow> mem \<Rightarrow> mem" where
  "put_glyph f c t m =
     fb_putc (t_framebuffer t) f (ix (cursor_pos t) * PSF1_FONT_WIDTH) (iy (cursor_pos t) * ucast (character_size f m))
       (foreground_color t) (background_color t) c m"

definition terminal_putc :: "psf1_font \<Rightarrow> u8 \<Rightarrow> terminal option \<times> mem \<Rightarrow> terminal option \<times> mem" where
  "terminal_putc f c = (\<lambda>(tp, m).
     case tp of
       None \<Rightarrow> (None, m)
     | Some t \<Rightarrow>
         if c = 0x0A then (Some (t\<lparr>cursor_pos := \<lparr>ix = 1, iy = iy (cursor_pos t) + 1\<rparr>\<rparr>), m)
         else if font_header f = 0 then (Some t, m)
         else if c = 8
         then (case terminal_pop_cursor (Some t) of None \<Rightarrow> (None, m) | Some t \<Rightarrow> (Some t, put_glyph f 0x20 t m))
         else terminal_push_cursor f (Some t) (put_glyph f c t m))"

definition terminal_puts :: "psf1_font \<Rightarrow> u8 list \<Rightarrow> terminal option \<times> mem \<Rightarrow> terminal option \<times> mem" where
  "terminal_puts f s = fold (terminal_putc f) s"

definition terminal_hex :: "u8 list \<Rightarrow> psf1_font \<Rightarrow> u64 \<Rightarrow> terminal option \<times> mem \<Rightarrow> terminal option \<times> mem" where
  "terminal_hex junk f num tm = terminal_puts f (hex_text junk num 0) tm"

definition terminal_dec :: "psf1_font \<Rightarrow> u64 \<Rightarrow> terminal option \<times> mem \<Rightarrow> terminal option \<times> mem" where
  "terminal_dec f num tm = terminal_puts f (dec_text num) tm"

fun terminal_printf :: "u8 list \<Rightarrow> psf1_font \<Rightarrow> u8 list \<Rightarrow> arg list \<Rightarrow> terminal option \<times> mem \<Rightarrow> (terminal option \<times> mem) option" where
  "terminal_printf junk f [] args tm = Some tm"
| "terminal_printf junk f [c] args tm = (if c = 0x25 then None else Some (terminal_putc f c tm))"
| "terminal_printf junk f (c # d # rest) args tm =
     (if c \<noteq> 0x25 then terminal_printf junk f (d # rest) args (terminal_putc f c tm)
      else if d = 0x78 then (case args of Num n # args \<Rightarrow> terminal_printf junk f rest args (terminal_hex junk f n tm) | _ \<Rightarrow> None)
      else if d = 0x64 then (case args of Num n # args \<Rightarrow> terminal_printf junk f rest args (terminal_dec f n tm) | _ \<Rightarrow> None)
      else if d = 0x73 then (case args of Str m # args \<Rightarrow> terminal_printf junk f rest args (terminal_puts f m tm) | _ \<Rightarrow> None)
      else terminal_printf junk f rest args tm)"

text \<open>\<^verbatim>\<open>terminal_clear\<close> does not test its pointer.\<close>

definition terminal_clear :: "terminal \<times> mem \<Rightarrow> terminal \<times> mem" where
  "terminal_clear = (\<lambda>(t, m).
     let fb = t_framebuffer t; m = fold (fill_row fb (background_color t)) [0..<unat (fb_height fb)] m
     in (t\<lparr>cursor_pos := \<lparr>ix = 0, iy = 0\<rparr>\<rparr>, m))"

end
