(* ===== verification/Keyboard.thy ===== *)
theory Keyboard
  imports Interrupts Screen
begin

text \<open>
  The keyboard: \<^verbatim>\<open>kernel/src/dev/keyboard/keyboard.c\<close> and
  \<^verbatim>\<open>kernel/src/dev/keyboard/scancodes.c\<close>. Its interrupt handler prints to the terminal
  \<^verbatim>\<open>term\<close>, so the state has the terminal and the memory next to the interrupt tables.
\<close>

section \<open>scancodes.c\<close>

abbreviation (input) LEFT_SHIFT :: nat where "LEFT_SHIFT \<equiv> 0x2A"
abbreviation (input) RIGHT_SHIFT :: nat where "RIGHT_SHIFT \<equiv> 0x36"
abbreviation (input) CAPS_LOCK :: nat where "CAPS_LOCK \<equiv> 0x3A"

definition scancodes :: "(u8 \<times> u8) list" where
  "scancodes = map (\<lambda>(c, d). (of_char c, of_char d))
    ([(CHR 0x00, CHR 0x00), (CHR 0x1B, CHR 0x00), (CHR ''1'', CHR ''!''), (CHR ''2'', CHR ''@''), (CHR ''3'', CHR ''#''), (CHR ''4'', CHR ''$''),
      (CHR ''5'', CHR ''%''), (CHR ''6'', CHR ''^''), (CHR ''7'', CHR ''&''), (CHR ''8'', CHR ''*''), (CHR ''9'', CHR ''(''), (CHR ''0'', CHR '')''),
      (CHR ''-'', CHR ''_''), (CHR ''='', CHR ''+''), (CHR 0x08, CHR 0x00), (CHR 0x09, CHR 0x00), (CHR ''q'', CHR ''Q''), (CHR ''w'', CHR ''W''),
      (CHR ''e'', CHR ''E''), (CHR ''r'', CHR ''R''), (CHR ''t'', CHR ''T''), (CHR ''y'', CHR ''Y''), (CHR ''u'', CHR ''U''), (CHR ''i'', CHR ''I''),
      (CHR ''o'', CHR ''O''), (CHR ''p'', CHR ''P''), (CHR ''['', CHR ''{''), (CHR '']'', CHR ''}''), (CHR 0x0A, CHR 0x00), (CHR 0x00, CHR 0x00),
      (CHR ''a'', CHR ''A''), (CHR ''s'', CHR ''S''), (CHR ''d'', CHR ''D''), (CHR ''f'', CHR ''F''), (CHR ''g'', CHR ''G''), (CHR ''h'', CHR ''H''),
      (CHR ''j'', CHR ''J''), (CHR ''k'', CHR ''K''), (CHR ''l'', CHR ''L''), (CHR '';'', CHR '':''), (CHR 0x27, CHR 0x22), (CHR 0x60, CHR ''~''),
      (CHR 0x00, CHR 0x00), (CHR 0x5C, CHR ''|''), (CHR ''z'', CHR ''Z''), (CHR ''x'', CHR ''X''), (CHR ''c'', CHR ''C''), (CHR ''v'', CHR ''V''),
      (CHR ''b'', CHR ''B''), (CHR ''n'', CHR ''N''), (CHR ''m'', CHR ''M''), (CHR '','', CHR ''<''), (CHR ''.'', CHR ''>''), (CHR ''/'', CHR ''?''),
      (CHR 0x00, CHR 0x00), (CHR ''*'', CHR 0x00), (CHR 0x00, CHR 0x00), (CHR '' '', CHR 0x00)] @
     replicate 16 (CHR 0x00, CHR 0x00) @ [(CHR ''-'', CHR 0x00)] @ replicate 3 (CHR 0x00, CHR 0x00) @
     [(CHR ''+'', CHR 0x00)] @ replicate 49 (CHR 0x00, CHR 0x00))"

text \<open>A scan code of 128 or more is outside the table; the callers clear the top bit.\<close>

definition get_character_from_scancode :: "u8 \<Rightarrow> u8 \<Rightarrow> u8 \<Rightarrow> u8" where
  "get_character_from_scancode scancode shift caps_lock =
     (let (lower, upper) = scancodes ! unat scancode
      in if (caps_lock \<noteq> 0 \<or> shift \<noteq> 0) \<and> upper \<noteq> 0 then upper else lower)"

section \<open>keyboard.c\<close>

abbreviation (input) PS2_DATA_PORT :: u16 where "PS2_DATA_PORT \<equiv> 0x60"
abbreviation (input) PS2_STATUS_REGISTER :: u16 where "PS2_STATUS_REGISTER \<equiv> 0x64"
abbreviation (input) PS2_COMMAND_REGISTER :: u16 where "PS2_COMMAND_REGISTER \<equiv> 0x64"
abbreviation (input) COMMAND_DISABLE_FIRST_PS2_PORT :: u8 where "COMMAND_DISABLE_FIRST_PS2_PORT \<equiv> 0xAD"
abbreviation (input) COMMAND_ENABLE_FIRST_PS2_PORT :: u8 where "COMMAND_ENABLE_FIRST_PS2_PORT \<equiv> 0xAE"
abbreviation (input) COMMAND_DISABLE_SECOND_PS2_PORT :: u8 where "COMMAND_DISABLE_SECOND_PS2_PORT \<equiv> 0xA7"
abbreviation (input) COMMAND_ENABLE_SECOND_PS2_PORT :: u8 where "COMMAND_ENABLE_SECOND_PS2_PORT \<equiv> 0xA8"

record keyboard_mouse =
  mouse_offset :: ivec2
  mouse :: ivec2
  mouse_cycle :: u8
  last_keystroke :: u8
  key_pressed :: "u32 list"
  ptr_to_update :: u64

record console_state = irq_state +
  keyboard :: keyboard_mouse
  the_term :: terminal
  font :: psf1_font
  con_mem :: mem

definition keyboard_set_key :: "u8 \<Rightarrow> u8 \<Rightarrow> 'a console_state_scheme \<Rightarrow> 'a console_state_scheme option" where
  "keyboard_set_key state scancode s =
     (if 128 \<le> scancode then None
      else let k = keyboard s;
               k = k\<lparr>key_pressed := (key_pressed k)[unat scancode := ucast state]\<rparr>;
               k = k\<lparr>last_keystroke := if state \<noteq> 0 then scancode else 0\<rparr>;
               m = (if ptr_to_update k \<noteq> 0 then (con_mem s)(ptr_to_update k + ucast scancode := state) else con_mem s)
           in Some (s\<lparr>keyboard := k, con_mem := m\<rparr>))"

definition put_term :: "u8 \<Rightarrow> 'a console_state_scheme \<Rightarrow> 'a console_state_scheme" where
  "put_term c s =
     (case terminal_putc (font s) c (Some (the_term s), con_mem s) of
        (Some t, m) \<Rightarrow> s\<lparr>the_term := t, con_mem := m\<rparr>
      | (None, m) \<Rightarrow> s)"

text \<open>
  The characters of the table are at most 126, so the signed comparisons of the code are
  those of bytes.
\<close>

definition kbhandler :: "hardware \<Rightarrow> 'a console_state_scheme \<Rightarrow> 'a console_state_scheme option" where
  "kbhandler dev s =
     (let (keycode, s) = inb dev PS2_DATA_PORT s;
          scancode = keycode AND 0x7F;
          key_state = (if keycode AND 0x80 = 0 then 1 else 0 :: u8);
          pressed = key_pressed (keyboard s);
          c = get_character_from_scancode scancode (ucast (pressed ! LEFT_SHIFT OR pressed ! RIGHT_SHIFT))
                (ucast (pressed ! CAPS_LOCK))
      in do {
        s \<leftarrow> keyboard_set_key key_state scancode s;
        Some (if key_state \<noteq> 0 \<and> (32 \<le> c \<and> c \<le> 126 \<or> c = 8) then put_term c s else s)
      })"

text \<open>One turn of the loop that empties the controller; it reads the status register, not the data.\<close>

definition flush_device :: "hardware \<Rightarrow> 'a console_state_scheme \<Rightarrow> bool \<times> 'a console_state_scheme" where
  "flush_device dev s =
     (let (v, s) = inb dev PS2_COMMAND_REGISTER s
      in if v AND 0x01 = 0 then (True, s) else (False, snd (inb dev PS2_STATUS_REGISTER s)))"

definition keyboard_init :: "hardware \<Rightarrow> 'a console_state_scheme \<Rightarrow> 'a console_state_scheme option" where
  "keyboard_init dev s = do {
     let s = disable_interrupts s;
     let s = outb PS2_COMMAND_REGISTER COMMAND_DISABLE_FIRST_PS2_PORT s;
     let s = outb PS2_COMMAND_REGISTER COMMAND_DISABLE_SECOND_PS2_PORT s;
     s \<leftarrow> poll (flush_device dev) s;
     let s = outb PS2_COMMAND_REGISTER COMMAND_ENABLE_FIRST_PS2_PORT s;
     let s = outb PS2_COMMAND_REGISTER COMMAND_ENABLE_SECOND_PS2_PORT s;
     let s = irq_register_handler 1 KBHANDLER s;
     let s = pic_unmask 1 s;
     Some (enable_interrupts s)
   }"

section \<open>A reference decoder\<close>

text \<open>
  The keys held down, as a set, and the text the key events type. The caps lock key acts
  as a shift key while it is held.
\<close>

definition key_char :: "nat set \<Rightarrow> nat \<Rightarrow> u8" where
  "key_char held j = (let (lower, upper) = scancodes ! j
     in if held \<inter> {LEFT_SHIFT, RIGHT_SHIFT, CAPS_LOCK} \<noteq> {} \<and> upper \<noteq> 0 then upper else lower)"

fun held_after :: "nat set \<Rightarrow> u8 list \<Rightarrow> nat set" where
  "held_after held [] = held"
| "held_after held (k # ks) =
     held_after (if unat k < 128 then insert (unat k) held else held - {unat k - 128}) ks"

fun typed :: "nat set \<Rightarrow> u8 list \<Rightarrow> u8 list" where
  "typed held [] = []"
| "typed held (k # ks) =
     (if unat k < 128
      then (let c = key_char held (unat k) in if 32 \<le> c \<and> c \<le> 126 \<or> c = 8 then [c] else []) @ typed (insert (unat k) held) ks
      else typed (held - {unat k - 128}) ks)"

text \<open>The handler runs once for each key code the controller delivers.\<close>

definition key_events :: "u8 list \<Rightarrow> console_state \<Rightarrow> console_state option" where
  "key_events ks s = fold (\<lambda>k s. Option.bind s (kbhandler (\<lambda>_ _. ucast k))) ks (Some s)"

definition tracks :: "nat set \<Rightarrow> keyboard_mouse \<Rightarrow> bool" where
  "tracks held k \<longleftrightarrow> List.length (key_pressed k) = 128 \<and> ptr_to_update k = 0 \<and>
     (\<forall>j < 128. key_pressed k ! j = (if j \<in> held then 1 else 0))"

section \<open>The handler follows the decoder\<close>

lemma low_seven: "unat (k AND 0x7F :: u8) = unat k mod 128"
proof -
  have "k AND 0x7F = take_bit 7 k" by (simp add: take_bit_eq_mask mask_eq_exp_minus_1)
  then show ?thesis by (simp only: unsigned_take_bit_eq take_bit_eq_mod [where 'a = nat]) simp
qed

lemma top_bit: "k AND 0x80 = 0 \<longleftrightarrow> unat (k :: u8) < 128"
proof -
  have "unat k < 2 ^ LENGTH(8)" by (rule unsigned_less)
  then have q: "unat k div 128 < 2" by simp
  have "(0x80 :: u8) = push_bit 7 1" by simp
  then have "k AND 0x80 = 0 \<longleftrightarrow> \<not> bit k 7" by (simp only: and_exp_eq_0_iff_not_bit push_bit_of_1)
  also have "bit k 7 \<longleftrightarrow> bit (unat k) 7" by (simp add: bit_unsigned_iff)
  also have "\<dots> \<longleftrightarrow> odd (unat k div 128)" by (simp add: bit_iff_odd)
  also have "(\<not> odd (unat k div 128)) \<longleftrightarrow> unat k div 128 = 0" using q by (auto simp: less_2_cases_iff)
  finally show ?thesis by (simp add: div_eq_0_iff)
qed

lemma putc_Some: "\<exists>t' m'. terminal_putc f c (Some t, m) = (Some t', m')"
  by (auto simp: terminal_putc_def terminal_pop_cursor_def terminal_push_cursor_def Let_def)

lemma put_term_state:
  "(Some (the_term (put_term c s)), con_mem (put_term c s)) = terminal_putc (font s) c (Some (the_term s), con_mem s)"
  "keyboard (put_term c s) = keyboard s" "font (put_term c s) = font s"
  using putc_Some [of "font s" c "the_term s" "con_mem s"] by (auto simp: put_term_def)

lemma tracks_shift:
  assumes "tracks held k"
  shows "(ucast (key_pressed k ! LEFT_SHIFT OR key_pressed k ! RIGHT_SHIFT) :: u8) \<noteq> 0 \<longleftrightarrow> LEFT_SHIFT \<in> held \<or> RIGHT_SHIFT \<in> held"
    and "(ucast (key_pressed k ! CAPS_LOCK) :: u8) \<noteq> 0 \<longleftrightarrow> CAPS_LOCK \<in> held"
  using assms by (simp_all add: tracks_def)

lemma key_event:
  assumes t: "tracks held (keyboard s)"
  shows "\<exists>s'. kbhandler (\<lambda>_ _. ucast k) s = Some s' \<and> font s' = font s \<and>
    (Some (the_term s'), con_mem s') = terminal_puts (font s) (typed held [k]) (Some (the_term s), con_mem s) \<and>
    tracks (held_after held [k]) (keyboard s')"
proof -
  let ?j = "unat k mod 128"
  let ?k = "keyboard s"
  let ?st = "if unat k < 128 then 1 else 0 :: u8"
  let ?k' = "?k\<lparr>key_pressed := (key_pressed ?k)[?j := ucast ?st], last_keystroke := if ?st \<noteq> 0 then k AND 0x7F else 0\<rparr>"
  define u where "u = s\<lparr>trace := In8 PS2_DATA_PORT # trace s, keyboard := ?k'\<rparr>"
  have byte: "(ucast (ucast k :: u64) :: u8) = k" by (rule bit_word_eqI) (simp add: bit_simps)
  have small: "\<not> 128 \<le> k AND 0x7F" by (simp add: word_le_nat_alt low_seven)
  have c: "get_character_from_scancode (k AND 0x7F) (ucast (key_pressed ?k ! LEFT_SHIFT OR key_pressed ?k ! RIGHT_SHIFT))
      (ucast (key_pressed ?k ! CAPS_LOCK)) = key_char held ?j"
    using tracks_shift [OF t] by (auto simp: get_character_from_scancode_def key_char_def low_seven Let_def split_beta)
  have set: "keyboard_set_key ?st (k AND 0x7F) (s\<lparr>trace := In8 PS2_DATA_PORT # trace s\<rparr>) = Some u"
    using t small by (simp add: keyboard_set_key_def Let_def low_seven u_def tracks_def)
  have run: "kbhandler (\<lambda>_ _. ucast k) s = Some (if unat k < 128 \<and>
      (32 \<le> key_char held ?j \<and> key_char held ?j \<le> 126 \<or> key_char held ?j = 8) then put_term (key_char held ?j) u else u)"
    by (simp add: kbhandler_def inb_def byte Let_def top_bit c [simplified] set [simplified])
  have tr: "tracks (held_after held [k]) ?k'"
  proof (cases "unat k < 128")
    case True
    then show ?thesis using t by (auto simp: tracks_def nth_list_update)
  next
    case False
    have "unat k < 2 ^ LENGTH(8)" by (rule unsigned_less)
    then have "?j = unat k - 128" using False by (simp add: le_mod_geq)
    then show ?thesis using False t by (auto simp: tracks_def nth_list_update)
  qed
  show ?thesis using run tr put_term_state [of _ u]
    by (auto simp: u_def terminal_puts_def Let_def)
qed

lemma key_events_Cons:
  "key_events (k # ks) s = Option.bind (kbhandler (\<lambda>_ _. ucast k) s) (key_events ks)"
proof -
  have none: "fold (\<lambda>k s. Option.bind s (kbhandler (\<lambda>_ _. ucast k))) ks None = None" for ks :: "u8 list"
    by (induction ks) simp_all
  show ?thesis by (cases "kbhandler (\<lambda>_ _. ucast k) s") (simp_all add: key_events_def none)
qed

lemma typed_Cons: "typed held (k # ks) = typed held [k] @ typed (held_after held [k]) ks"
  by (simp add: Let_def)

lemma key_events_typed:
  "tracks held (keyboard s) \<Longrightarrow> \<exists>s'. key_events ks s = Some s' \<and> font s' = font s \<and>
    (Some (the_term s'), con_mem s') = terminal_puts (font s) (typed held ks) (Some (the_term s), con_mem s) \<and>
    tracks (held_after held ks) (keyboard s')"
proof (induction ks arbitrary: held s)
  case Nil
  then show ?case by (simp add: key_events_def terminal_puts_def)
next
  case (Cons k ks)
  from key_event [OF Cons.prems, of k] obtain u where u: "kbhandler (\<lambda>_ _. ucast k) s = Some u" "font u = font s"
    "(Some (the_term u), con_mem u) = terminal_puts (font s) (typed held [k]) (Some (the_term s), con_mem s)"
    "tracks (held_after held [k]) (keyboard u)" by blast
  from Cons.IH [OF u(4)] obtain s' where s': "key_events ks u = Some s'" "font s' = font u"
    "(Some (the_term s'), con_mem s') = terminal_puts (font u) (typed (held_after held [k]) ks) (Some (the_term u), con_mem u)"
    "tracks (held_after (held_after held [k]) ks) (keyboard s')" by blast
  have "(Some (the_term s'), con_mem s') = terminal_puts (font s) (typed held (k # ks)) (Some (the_term s), con_mem s)"
    unfolding typed_Cons [of held k ks] s'(3) u(2) u(3) by (simp only: terminal_puts_def fold_append comp_apply)
  then show ?case using u s' by (simp add: key_events_Cons)
qed

text \<open>
  The loop that empties the controller reads port 0x64 only, and the status bit it waits for
  is cleared by reading port 0x60. With a byte pending it never ends.
\<close>

lemma keyboard_init_hangs:
  assumes pending: "\<forall>t. (ucast (dev t (In8 PS2_COMMAND_REGISTER)) :: u8) AND 0x01 \<noteq> 0"
  shows "keyboard_init dev s = None"
proof -
  have "\<not> fst (flush_device dev u)" for u :: "'a console_state_scheme"
    using pending by (simp add: flush_device_def inb_def)
  then have "\<not> (\<exists>t. poll (flush_device dev) u = Some t)" for u :: "'a console_state_scheme"
    by (simp only: poll_Some_iff) simp
  then have "poll (flush_device dev) u = None" for u :: "'a console_state_scheme"
    by (metis not_None_eq)
  then show ?thesis by (simp add: keyboard_init_def)
qed

end
