(* ===== verification/Screen_Image.thy ===== *)
theory Screen_Image
  imports Screen
begin

text \<open>
  The screen as an image: a framebuffer in memory is a function from coordinates to colours,
  and every drawing routine is an update of this function.
\<close>

section \<open>Pixels\<close>

text \<open>
  A framebuffer a boot loader hands over: a line has room for its pixels, and the 32-bit
  coordinates reach every line with a margin for one glyph.
\<close>

definition fb_ok :: "framebuffer \<Rightarrow> bool" where
  "fb_ok fb \<longleftrightarrow> 4 * unat (fb_width fb) \<le> unat (fb_pitch fb) \<and> unat (fb_pitch fb) < 2 ^ 32 \<and>
     unat (fb_height fb) < 2 ^ 31"

definition picture :: "framebuffer \<Rightarrow> mem \<Rightarrow> nat \<times> nat \<Rightarrow> u32" where
  "picture fb m = (\<lambda>(x, y). if x < unat (fb_width fb) \<and> y < unat (fb_height fb)
     then fb_getpixel fb (of_nat x) (of_nat y) m else 0)"

lemma image_outside: "\<not> (px < unat (fb_width fb) \<and> py < unat (fb_height fb)) \<Longrightarrow> picture fb m (px, py) = 0"
  by (auto simp: picture_def)

definition fb_bytes :: "framebuffer \<Rightarrow> nat" where
  "fb_bytes fb = unat (fb_pitch fb) * unat (fb_height fb)"

lemma unat_ucast_of_nat32: "n < 2 ^ 32 \<Longrightarrow> unat (ucast (of_nat n :: u32) :: u64) = n"
  by (simp add: unsigned_ucast_eq unat_of_nat take_bit_nat_eq_self)

lemma ucast_of_nat32: "n < 2 ^ 32 \<Longrightarrow> (ucast (of_nat n :: u32) :: u64) = of_nat n"
  by (drule arg_cong [where f = "of_nat :: nat \<Rightarrow> u64", OF unat_ucast_of_nat32]) simp

lemma offset_bound:
  assumes fb: "fb_ok fb" and x: "x < unat (fb_width fb)" and y: "y < 2 ^ 32"
  shows "unat (fb_pitch fb) * y + 4 * x + 4 \<le> unat (fb_pitch fb) * Suc y"
    and "unat (fb_pitch fb) * y + 4 * x < 2 ^ 64" and "4 * x < 2 ^ 32"
proof -
  have w: "4 * x + 4 \<le> unat (fb_pitch fb)" using fb x by (simp add: fb_ok_def)
  then show "unat (fb_pitch fb) * y + 4 * x + 4 \<le> unat (fb_pitch fb) * Suc y" by simp
  show "4 * x < 2 ^ 32" using fb x by (simp add: fb_ok_def)
  have "unat (fb_pitch fb) * Suc y \<le> (2 ^ 32 - 1) * 2 ^ 32" using fb y by (intro mult_le_mono) (simp_all add: fb_ok_def)
  then show "unat (fb_pitch fb) * y + 4 * x < 2 ^ 64" using w by simp
qed

lemma pixel_offset:
  assumes fb: "fb_ok fb" and x: "x < unat (fb_width fb)" and y: "y < 2 ^ 32"
  shows "on_screen fb (of_nat x) (of_nat y) \<longleftrightarrow> y < unat (fb_height fb)"
    and "pixel_address fb (of_nat x) (of_nat y) = backbuffer fb + of_nat (unat (fb_pitch fb) * y + 4 * x)"
proof -
  note b = offset_bound [OF assms]
  have x32: "x < 2 ^ 32" using b(3) by simp
  have "unat ((of_nat x :: u32) * 4) = 4 * x"
    using b(3) x32 by (simp add: unat_word_ariths unat_of_nat take_bit_nat_eq_self)
  then have x4: "unat (ucast (of_nat x * 4 :: u32) :: u64) = 4 * x"
    using b(3) by (simp add: unsigned_ucast_eq take_bit_nat_eq_self)
  have m: "unat (fb_pitch fb * ucast (of_nat y :: u32)) = unat (fb_pitch fb) * y"
    using b(2) by (simp add: unat_word_ariths unat_ucast_of_nat32 [OF y])
  have "unat (fb_pitch fb * ucast (of_nat y :: u32) + ucast (of_nat x * 4 :: u32)) = unat (fb_pitch fb) * y + 4 * x"
    using b(2) by (simp only: unat_word_ariths(1) m x4) simp
  moreover have "unat (fb_pitch fb * fb_height fb) = fb_bytes fb"
  proof -
    have "unat (fb_pitch fb) * unat (fb_height fb) \<le> 2 ^ 32 * 2 ^ 31" using fb by (intro mult_le_mono) (simp_all add: fb_ok_def)
    then show ?thesis by (simp add: unat_word_ariths fb_bytes_def)
  qed
  ultimately have o: "on_screen fb (of_nat x) (of_nat y) \<longleftrightarrow> unat (fb_pitch fb) * y + 4 * x < fb_bytes fb"
    by (simp only: on_screen_def word_less_nat_alt)
  show "on_screen fb (of_nat x) (of_nat y) \<longleftrightarrow> y < unat (fb_height fb)"
  proof
    assume "y < unat (fb_height fb)"
    then have "unat (fb_pitch fb) * Suc y \<le> fb_bytes fb" unfolding fb_bytes_def by (intro mult_le_mono) simp_all
    then show "on_screen fb (of_nat x) (of_nat y)" using b(1) by (simp add: o)
  next
    assume "on_screen fb (of_nat x) (of_nat y)"
    then have "unat (fb_pitch fb) * y + 4 * x < unat (fb_pitch fb) * unat (fb_height fb)" by (simp only: o fb_bytes_def)
    then have "unat (fb_pitch fb) * y < unat (fb_pitch fb) * unat (fb_height fb)" by (rule le_less_trans [OF le_add1])
    then show "y < unat (fb_height fb)" by simp
  qed
  show "pixel_address fb (of_nat x) (of_nat y) = backbuffer fb + of_nat (unat (fb_pitch fb) * y + 4 * x)"
    by (simp add: pixel_address_def ucast_of_nat32 [OF x32] ucast_of_nat32 [OF y])
qed

lemma load_store32 [simp]: "load32 a (store32 a v m) = v"
  by (simp add: load32_def store32_def load_store_le) (rule bit_word_eqI, simp add: bit_simps)

lemma load_store32_apart:
  assumes "i + 4 \<le> j \<or> j + 4 \<le> i" and "i < 2 ^ 63" and "j < 2 ^ 63"
  shows "load32 (p + of_nat i) (store32 (p + of_nat j) v m) = load32 (p + of_nat i) m"
proof -
  have "disjoint_ranges (p + of_nat i) 4 (p + of_nat j) 4" if "i + 4 \<le> j \<or> j + 4 \<le> i" "i < 2 ^ 63" "j < 2 ^ 63" for i j
  proof -
    have d: "unat (of_nat b - of_nat a :: u64) = b - a" "unat (of_nat a - of_nat b :: u64) = 2 ^ 64 - (b - a)"
      if "a < b" "b < 2 ^ 63" for a b :: nat
    proof -
      have "(of_nat b - of_nat a :: u64) = of_nat (b - a)" using that by (simp add: of_nat_diff)
      then show "unat (of_nat b - of_nat a :: u64) = b - a"
        using that unat_of_nat64 [of "b - a"] by (simp only:) simp
      have "(of_nat a - of_nat b :: u64) = of_nat (2 ^ 64 - (b - a))" using that by (simp add: of_nat_diff)
      then show "unat (of_nat a - of_nat b :: u64) = 2 ^ 64 - (b - a)"
        using that unat_of_nat64 [of "2 ^ 64 - (b - a)"] by (simp only:) simp
    qed
    show ?thesis using that d [of i j] d [of j i] by (auto simp: disjoint_ranges_def)
  qed
  then show ?thesis using assms by (simp add: load32_def store32_def load_store_disjoint)
qed

text \<open>Writing a pixel of a line updates the image there; below the last line nothing happens.\<close>

lemma get_image:
  assumes "fb_ok fb" and "x < unat (fb_width fb)" and "y < 2 ^ 32"
  shows "fb_getpixel fb (of_nat x) (of_nat y) m = picture fb m (x, y)"
  using assms pixel_offset(1) [OF assms] by (simp add: picture_def fb_getpixel_def)

lemma put_image:
  assumes fb: "fb_ok fb" and x: "x < unat (fb_width fb)" and y: "y < 2 ^ 32"
  shows "picture fb (fb_putpixel fb (of_nat x) (of_nat y) c m) =
    (if y < unat (fb_height fb) then (picture fb m)((x, y) := c) else picture fb m)"
proof (rule ext)
  fix p :: "nat \<times> nat"
  obtain px py where p: "p = (px, py)" by fastforce
  have h: "unat (fb_height fb) < 2 ^ 31" using fb by (simp add: fb_ok_def)
  consider "\<not> y < unat (fb_height fb)" | "y < unat (fb_height fb)" "px < unat (fb_width fb)" "py < unat (fb_height fb)"
    | "y < unat (fb_height fb)" "\<not> (px < unat (fb_width fb) \<and> py < unat (fb_height fb))" by blast
  then show "picture fb (fb_putpixel fb (of_nat x) (of_nat y) c m) p =
    (if y < unat (fb_height fb) then (picture fb m)((x, y) := c) else picture fb m) p"
  proof cases
    case 2
    let ?o = "\<lambda>x y. unat (fb_pitch fb) * y + 4 * x"
    have py: "py < 2 ^ 32" and y': "y < 2 ^ 32" using 2 h y by simp_all
    note a = pixel_offset [OF fb x y'] and b = pixel_offset [OF fb 2(2) py]
    have lt: "?o x y < 2 ^ 63" "?o px py < 2 ^ 63"
    proof -
      have "unat (fb_pitch fb) * Suc z \<le> 2 ^ 32 * 2 ^ 31" if "z < unat (fb_height fb)" for z
        using that h fb by (intro mult_le_mono) (simp_all add: fb_ok_def)
      from this [OF 2(1)] this [OF 2(3)] show "?o x y < 2 ^ 63" "?o px py < 2 ^ 63"
        using offset_bound(1) [OF fb x y'] offset_bound(1) [OF fb 2(2) py] by simp_all
    qed
    have apart: "?o px py + 4 \<le> ?o x y \<or> ?o x y + 4 \<le> ?o px py" if "px \<noteq> x \<or> py \<noteq> y"
    proof (cases py y rule: linorder_cases)
      case less
      then have "unat (fb_pitch fb) * Suc py \<le> unat (fb_pitch fb) * y" by (intro mult_le_mono) simp_all
      then show ?thesis using offset_bound(1) [OF fb 2(2) py] by linarith
    next
      case equal
      then show ?thesis using that by auto
    next
      case greater
      then have "unat (fb_pitch fb) * Suc y \<le> unat (fb_pitch fb) * py" by (intro mult_le_mono) simp_all
      then show ?thesis using offset_bound(1) [OF fb x y'] by linarith
    qed
    have "fb_getpixel fb (of_nat px) (of_nat py) (fb_putpixel fb (of_nat x) (of_nat y) c m) =
        (if px = x \<and> py = y then c else fb_getpixel fb (of_nat px) (of_nat py) m)"
      using load_store32_apart [OF apart lt(2) lt(1), of "backbuffer fb" c m] 2
      by (simp add: fb_getpixel_def fb_putpixel_def a b)
    then show ?thesis using 2 x by (auto simp: picture_def p)
  qed (auto simp: fb_putpixel_def pixel_offset [OF fb x y] picture_def x p)
qed

text \<open>No byte outside the framebuffer changes.\<close>

lemma put_outside:
  assumes fb: "fb_ok fb" and x: "x < unat (fb_width fb)" and y: "y < 2 ^ 32"
    and a: "\<not> in_range (backbuffer fb) (fb_bytes fb) a"
  shows "fb_putpixel fb (of_nat x) (of_nat y) c m a = m a"
proof (cases "y < unat (fb_height fb)")
  case True
  let ?o = "unat (fb_pitch fb) * y + 4 * x"
  have "unat (fb_pitch fb) * Suc y \<le> fb_bytes fb" using True unfolding fb_bytes_def by (intro mult_le_mono) simp_all
  then have le: "?o + 4 \<le> fb_bytes fb" using offset_bound(1) [OF fb x y] by simp
  have "\<not> in_range (backbuffer fb + of_nat ?o) 4 a"
  proof
    assume "in_range (backbuffer fb + of_nat ?o) 4 a"
    then obtain i where i: "i < 4" "a = backbuffer fb + of_nat (?o + i)"
      by (elim in_rangeE) (simp add: add.assoc)
    moreover have "fb_bytes fb \<le> 2 ^ 32 * 2 ^ 31" unfolding fb_bytes_def
      using fb by (intro mult_le_mono) (simp_all add: fb_ok_def)
    then have "?o + i < 2 ^ 64" "?o + i < fb_bytes fb" using le i(1) by simp_all
    ultimately show False using a in_range_offset [of "?o + i" "backbuffer fb" "fb_bytes fb"] by blast
  qed
  then show ?thesis using True by (simp add: fb_putpixel_def pixel_offset [OF fb x y] store32_def store_le_apply)
qed (simp add: fb_putpixel_def pixel_offset [OF fb x y])

section \<open>Lines\<close>

lemma fold_row_image:
  assumes fb: "fb_ok fb" and y: "y < 2 ^ 32" and n: "n \<le> unat (fb_width fb)"
    and col: "\<And>x m'. x < n \<Longrightarrow> picture fb m' = (\<lambda>(px, py). if py = y \<and> px < x \<and> y < unat (fb_height fb) then c px else picture fb m (px, py)) \<Longrightarrow>
      \<exists>v. body x m' = fb_putpixel fb (of_nat x) (of_nat y) v m' \<and> v = c x"
  shows "picture fb (fold body [0..<n] m) =
    (\<lambda>(px, py). if py = y \<and> px < n \<and> y < unat (fb_height fb) then c px else picture fb m (px, py))"
  using n col
proof (induction n)
  case 0
  then show ?case by (simp add: fun_eq_iff)
next
  case (Suc n)
  let ?m = "fold body [0..<n] m"
  have IH: "picture fb ?m = (\<lambda>(px, py). if py = y \<and> px < n \<and> y < unat (fb_height fb) then c px else picture fb m (px, py))"
    by (rule Suc.IH) (use Suc.prems in \<open>simp_all\<close>)
  from Suc.prems(2) [OF _ this] have "body n ?m = fb_putpixel fb (of_nat n) (of_nat y) (c n) ?m" by auto
  then have "picture fb (fold body [0..<Suc n] m) = picture fb (fb_putpixel fb (of_nat n) (of_nat y) (c n) ?m)" by simp
  also have "\<dots> = (if y < unat (fb_height fb) then (picture fb ?m)((n, y) := c n) else picture fb ?m)"
    by (rule put_image [OF fb _ y]) (use Suc.prems(1) in simp)
  finally show ?case unfolding IH by (auto simp: fun_eq_iff less_Suc_eq)
qed

lemma fill_row_image:
  assumes "fb_ok fb" and "y < unat (fb_height fb)"
  shows "picture fb (fill_row fb c y m) = (\<lambda>(px, py). if py = y \<and> px < unat (fb_width fb) then c else picture fb m (px, py))"
proof -
  have y: "y < 2 ^ 32" using assms by (simp add: fb_ok_def)
  show ?thesis
    using fold_row_image [OF assms(1) y order_refl, where c = "\<lambda>_. c" and body = "\<lambda>x. fb_putpixel fb (of_nat x) (of_nat y) c" and m = m] assms(2)
    by (simp add: fill_row_def)
qed

lemma copy_row_image:
  assumes fb: "fb_ok fb" and y: "y < unat (fb_height fb)"
  shows "picture fb (copy_row fb cs y m) =
    (\<lambda>(px, py). if py = y \<and> px < unat (fb_width fb) then picture fb m (px, y + unat cs) else picture fb m (px, py))"
proof -
  have "unat cs < 2 ^ LENGTH(8)" by (rule unsigned_less)
  then have y': "y < 2 ^ 32" "y + unat cs < 2 ^ 32" using y fb by (simp_all add: fb_ok_def)
  show ?thesis
  proof (subst copy_row_def, rule trans, rule fold_row_image [OF fb y'(1) order_refl, where c = "\<lambda>x. picture fb m (x, y + unat cs)"])
    fix x m'
    assume x: "x < unat (fb_width fb)"
      and I: "picture fb m' = (\<lambda>(px, py). if py = y \<and> px < x \<and> y < unat (fb_height fb) then picture fb m (px, y + unat cs) else picture fb m (px, py))"
    have "fb_getpixel fb (of_nat x) (of_nat (y + unat cs)) m' = picture fb m' (x, y + unat cs)"
      by (rule get_image [OF fb x y'(2)])
    also have "\<dots> = picture fb m (x, y + unat cs)" unfolding I by simp
    finally show "\<exists>v. (let c = fb_getpixel fb (of_nat x) (of_nat (y + unat cs)) m' in fb_putpixel fb (of_nat x) (of_nat y) c m') =
        fb_putpixel fb (of_nat x) (of_nat y) v m' \<and> v = picture fb m (x, y + unat cs)" by simp
  qed (use y in simp)
qed

lemma copy_rows_image:
  assumes fb: "fb_ok fb" and "n \<le> unat (fb_height fb)"
  shows "picture fb (fold (copy_row fb cs) [0..<n] m) =
    (\<lambda>(px, py). if py < n \<and> px < unat (fb_width fb) then picture fb m (px, py + unat cs) else picture fb m (px, py))"
  using assms(2)
proof (induction n)
  case (Suc n)
  then have "picture fb (fold (copy_row fb cs) [0..<n] m) =
    (\<lambda>(px, py). if py < n \<and> px < unat (fb_width fb) then picture fb m (px, py + unat cs) else picture fb m (px, py))" by simp
  moreover have "n < unat (fb_height fb)" using Suc.prems by simp
  ultimately show ?case using copy_row_image [OF fb, of n cs "fold (copy_row fb cs) [0..<n] m"]
    by (auto simp: fun_eq_iff less_Suc_eq)
qed (simp add: fun_eq_iff)

lemma fill_rows_image:
  assumes fb: "fb_ok fb" and "n \<le> unat (fb_height fb)"
  shows "picture fb (fold (fill_row fb c) [k..<n] m) =
    (\<lambda>(px, py). if k \<le> py \<and> py < n \<and> px < unat (fb_width fb) then c else picture fb m (px, py))"
  using assms(2)
proof (induction n)
  case (Suc n)
  show ?case
  proof (cases "k \<le> n")
    case True
    have "picture fb (fold (fill_row fb c) [k..<n] m) =
      (\<lambda>(px, py). if k \<le> py \<and> py < n \<and> px < unat (fb_width fb) then c else picture fb m (px, py))" using Suc by simp
    moreover have "n < unat (fb_height fb)" using Suc.prems by simp
    ultimately show ?thesis using True fill_row_image [OF fb, of n c "fold (fill_row fb c) [k..<n] m"]
      by (auto simp: fun_eq_iff less_Suc_eq)
  qed (auto simp: fun_eq_iff)
qed (auto simp: fun_eq_iff)

text \<open>Scrolling moves every line up by one character and clears what is left.\<close>

lemma scroll_image:
  assumes fb: "fb_ok (t_framebuffer t)" and "font_header f \<noteq> 0"
    and n: "scroll_rows (character_size f m) t \<le> unat (fb_height (t_framebuffer t))"
  shows "picture (t_framebuffer t) (terminal_scroll f t m) =
    (\<lambda>(px, py). if px < unat (fb_width (t_framebuffer t)) \<and> py < unat (fb_height (t_framebuffer t))
      then if py < scroll_rows (character_size f m) t then picture (t_framebuffer t) m (px, py + unat (character_size f m))
           else background_color t
      else 0)"
proof -
  have s: "terminal_scroll f t m = fold (fill_row (t_framebuffer t) (background_color t))
      [scroll_rows (character_size f m) t..<unat (fb_height (t_framebuffer t))]
      (fold (copy_row (t_framebuffer t) (character_size f m)) [0..<scroll_rows (character_size f m) t] m)"
    using assms(2) by (simp add: terminal_scroll_def Let_def)
  show ?thesis unfolding s using n
    by (auto simp: fun_eq_iff image_outside fill_rows_image [OF fb order_refl] copy_rows_image [OF fb n])
qed

lemma clear_image:
  assumes fb: "fb_ok (t_framebuffer t)"
  shows "picture (t_framebuffer t) (snd (terminal_clear (t, m))) =
    (\<lambda>(px, py). if px < unat (fb_width (t_framebuffer t)) \<and> py < unat (fb_height (t_framebuffer t)) then background_color t else 0)"
  by (auto simp: fun_eq_iff terminal_clear_def Let_def fill_rows_image [OF fb order_refl] image_outside)

section \<open>Glyphs\<close>

text \<open>The header and the glyphs of the font lie outside the framebuffer.\<close>

definition font_apart :: "framebuffer \<Rightarrow> psf1_font \<Rightarrow> bool" where
  "font_apart fb f \<longleftrightarrow> \<not> in_range (backbuffer fb) (fb_bytes fb) (font_header f + 3) \<and>
     (\<forall>i < 65536. \<not> in_range (backbuffer fb) (fb_bytes fb) (glyph_buffer f + of_nat i))"

definition same_font :: "psf1_font \<Rightarrow> mem \<Rightarrow> mem \<Rightarrow> bool" where
  "same_font f m m' \<longleftrightarrow> character_size f m' = character_size f m \<and>
     (\<forall>i < 65536. m' (glyph_buffer f + of_nat i) = m (glyph_buffer f + of_nat i))"

lemma put_same_font:
  assumes "fb_ok fb" and "font_apart fb f" and "x < unat (fb_width fb)" and "y < 2 ^ 32"
  shows "same_font f m (fb_putpixel fb (of_nat x) (of_nat y) c m)"
  using assms put_outside [OF assms(1,3,4)] by (simp add: same_font_def font_apart_def character_size_def)

lemma same_font_trans: "same_font f m m' \<Longrightarrow> same_font f m' m'' \<Longrightarrow> same_font f m m''"
  by (simp add: same_font_def)

lemma same_font_refl [simp]: "same_font f m m"
  by (simp add: same_font_def)

text \<open>The bit of a character's glyph in row \<open>i\<close> and column \<open>k\<close>.\<close>

definition glyph_pixel :: "psf1_font \<Rightarrow> mem \<Rightarrow> u8 \<Rightarrow> nat \<Rightarrow> nat \<Rightarrow> bool" where
  "glyph_pixel f m ch i k \<longleftrightarrow>
     bit (m (glyph_buffer f + of_nat (unat ch * unat (character_size f m) + i))) (7 - k)"

lemma byte_less: "unat (b :: u8) < 256"
proof -
  have "unat b < 2 ^ LENGTH(8)" by (rule unsigned_less)
  then show ?thesis by simp
qed

lemma unat_byte32 [simp]: "unat (ucast (b :: u8) :: u32) = unat b"
  using byte_less [of b] by (simp add: unsigned_ucast_eq take_bit_nat_eq_self)

lemma glyph_index: "i < unat (cs :: u8) \<Longrightarrow> unat (ch :: u8) * unat cs + i < 65536"
proof -
  assume "i < unat cs"
  then have "unat ch * unat cs + i < Suc (unat ch) * unat cs" by simp
  also have "\<dots> \<le> 256 * 256" using byte_less [of ch] byte_less [of cs] by (intro mult_le_mono) simp_all
  finally show ?thesis by simp
qed

lemma mask_bit: "k < 8 \<Longrightarrow> (b AND masks ! k \<noteq> 0) = bit b (7 - k)"
proof -
  assume k: "k < 8"
  have "\<forall>k < 8. masks ! k = push_bit (7 - k) 1"
    by (simp add: masks_def All_less_Suc numeral_eq_Suc)
  with k have "masks ! k = push_bit (7 - k) 1" by blast
  then show ?thesis by (simp add: and_exp_eq_0_iff_not_bit push_bit_of_1)
qed

lemma glyph_bit_pixel:
  assumes "same_font f m m'" and i: "i < unat (character_size f m)" and "k < 8"
  shows "glyph_bit f (ucast ch * ucast (character_size f m)) i k m' = glyph_pixel f m ch i k"
proof -
  let ?cs = "character_size f m"
  have "unat ch * unat ?cs < 65536" using glyph_index [OF i, of ch] by simp
  then have "unat (ucast ch * ucast ?cs :: u32) = unat ch * unat ?cs"
    by (simp add: unat_word_ariths unat_byte32)
  then have "(ucast (ucast ch * ucast ?cs :: u32) :: u64) = of_nat (unat ch * unat ?cs)"
    by (metis of_nat_unat ucast_id unat_of_nat64 unsigned_of_nat)
  then have "(ucast (ucast ch * ucast ?cs :: u32) :: u64) + of_nat i = of_nat (unat ch * unat ?cs + i)" by simp
  then show ?thesis using assms glyph_index [OF i, of ch]
    by (simp only: glyph_bit_def glyph_pixel_def same_font_def mask_bit simp_thms)
qed

text \<open>
  \<open>stamp\<close> is the effect of a glyph on the picture. Lines below the screen are cut off.
\<close>

definition stamp :: "framebuffer \<Rightarrow> (nat \<Rightarrow> nat \<Rightarrow> u32) \<Rightarrow> nat \<Rightarrow> nat \<Rightarrow> nat \<Rightarrow> nat \<Rightarrow> (nat \<times> nat \<Rightarrow> u32) \<Rightarrow> nat \<times> nat \<Rightarrow> u32" where
  "stamp fb c x y w h I = (\<lambda>(px, py).
     if x \<le> px \<and> px < x + w \<and> y \<le> py \<and> py < y + h \<and> py < unat (fb_height fb) then c (py - y) (px - x) else I (px, py))"

lemma putc_row_picture:
  fixes ch :: u8 and fg bg :: u32
  assumes fb: "fb_ok fb" and apart: "font_apart fb f" and x: "x + 8 \<le> unat (fb_width fb)" and y: "y + i < 2 ^ 32"
    and i: "i < unat (character_size f m)" and same: "same_font f m m'"
  defines "off \<equiv> ucast ch * ucast (character_size f m)"
    and "c \<equiv> \<lambda>i k. if glyph_pixel f m ch i k then fg else bg"
  defines "r \<equiv> fb_putc_row fb f (of_nat x) (of_nat y) fg bg off i m'"
  shows "picture fb r = stamp fb (\<lambda>_. c i) x (y + i) 8 1 (picture fb m') \<and> same_font f m r \<and>
    (\<forall>a. \<not> in_range (backbuffer fb) (fb_bytes fb) a \<longrightarrow> r a = m' a)"
proof -
  define body where "body = (\<lambda>k m. fb_putpixel fb (of_nat x + of_nat k) (of_nat y + of_nat i) (if glyph_bit f off i k m then fg else bg) m)"
  have "picture fb (fold body [0..<n] m') = stamp fb (\<lambda>_. c i) x (y + i) n 1 (picture fb m') \<and> same_font f m (fold body [0..<n] m') \<and>
    (\<forall>a. \<not> in_range (backbuffer fb) (fb_bytes fb) a \<longrightarrow> fold body [0..<n] m' a = m' a)" if "n \<le> 8" for n
    using that
  proof (induction n)
    case 0
    then show ?case using same by (auto simp: stamp_def fun_eq_iff)
  next
    case (Suc n)
    let ?m = "fold body [0..<n] m'"
    have n: "n < 8" and xn: "x + n < unat (fb_width fb)" using Suc.prems x by simp_all
    have s: "same_font f m ?m" using Suc by simp
    have b: "body n ?m = fb_putpixel fb (of_nat (x + n)) (of_nat (y + i)) (c i n) ?m"
      using glyph_bit_pixel [OF s i n, of ch] by (simp add: body_def c_def off_def)
    have "picture fb (body n ?m) = (if y + i < unat (fb_height fb) then (picture fb ?m)((x + n, y + i) := c i n) else picture fb ?m)"
      unfolding b by (rule put_image [OF fb xn y])
    moreover have "same_font f m (body n ?m)"
      unfolding b using put_same_font [OF fb apart xn y] s by (rule same_font_trans [rotated])
    ultimately show ?case using Suc put_outside [OF fb xn y, of _ "c i n" ?m] b
      by (auto simp: stamp_def fun_eq_iff less_Suc_eq)
  qed
  from this [of 8] show ?thesis by (simp add: r_def fb_putc_row_def body_def)
qed

lemma putc_picture:
  fixes ch :: u8 and fg bg :: u32
  assumes fb: "fb_ok fb" and apart: "font_apart fb f" and x: "x + 8 \<le> unat (fb_width fb)"
    and y: "y + unat (character_size f m) \<le> 2 ^ 32"
  defines "c \<equiv> \<lambda>i k. if glyph_pixel f m ch i k then fg else bg"
  defines "r \<equiv> fb_putc fb f (of_nat x) (of_nat y) fg bg ch m"
  shows "picture fb r = stamp fb c x y 8 (unat (character_size f m)) (picture fb m) \<and> same_font f m r \<and>
    (\<forall>a. \<not> in_range (backbuffer fb) (fb_bytes fb) a \<longrightarrow> r a = m a)"
proof -
  let ?cs = "unat (character_size f m)" and ?off = "ucast ch * ucast (character_size f m) :: u32"
  let ?go = "\<lambda>i m'. fb_putc_from fb f (of_nat x) (of_nat y) fg bg ?off i m'"
  let ?ok = "\<lambda>m' i. picture fb m' = stamp fb c x y 8 i (picture fb m) \<and> same_font f m m' \<and>
    (\<forall>a. \<not> in_range (backbuffer fb) (fb_bytes fb) a \<longrightarrow> m' a = m a)"
  have "?ok (?go i m') ?cs" if "i \<le> ?cs" "?ok m' i" for i m'
    using that
  proof (induction "?cs - i" arbitrary: i m')
    case 0
    then have "i = ?cs" by simp
    moreover have "?go i m' = m'" using 0 by (subst fb_putc_from.simps) (simp add: same_font_def)
    ultimately show ?case using 0 by simp
  next
    case (Suc d)
    then have i: "i < ?cs" by simp
    let ?r = "fb_putc_row fb f (of_nat x) (of_nat y) fg bg ?off i m'"
    have "y + i < 2 ^ 32" using i y by simp
    note row = putc_row_picture [OF fb apart x this i, where m' = m' and ch = ch and fg = fg and bg = bg]
    have go: "?go i m' = ?go (Suc i) ?r" using i Suc.prems by (subst fb_putc_from.simps) (simp add: same_font_def)
    have "?ok ?r (Suc i)"
    proof (intro conjI allI impI)
      have "picture fb ?r = stamp fb (\<lambda>_. c i) x (y + i) 8 1 (picture fb m')" using row Suc.prems by (simp add: c_def)
      then show "picture fb ?r = stamp fb c x y 8 (Suc i) (picture fb m)"
        using Suc.prems by (auto simp: stamp_def fun_eq_iff less_Suc_eq)
    qed (use row Suc.prems in auto)
    with Suc.hyps(1) [of "Suc i" ?r] Suc.hyps(2) i go show ?case by simp
  qed
  moreover have "stamp fb c x y 8 0 (picture fb m) = picture fb m" by (auto simp: stamp_def fun_eq_iff)
  ultimately have "?ok (?go 0 m) ?cs" by simp
  then show ?thesis by (simp add: r_def fb_putc_def)
qed

end
