(* ===== verification/Screen_Properties.thy ===== *)
theory Screen_Properties
  imports Screen_Image
begin

text \<open>
  The properties of the framebuffer and the terminal: pixels, glyphs, scrolling and the
  cursor, with a small screen on which they apply.
\<close>

section \<open>A small screen\<close>

definition small_fb :: framebuffer where
  "small_fb = \<lparr>fb_base = 0x1000, backbuffer = 0x1000, swapbuffer = 0, fb_height = 32, fb_width = 32, fb_pitch = 128, fb_bpp = 32\<rparr>"

definition small_font :: psf1_font where
  "small_font = \<lparr>font_header = 0x100000, glyph_buffer = 0x100004\<rparr>"

text \<open>A font of eight lines whose glyphs are full squares.\<close>

definition font_memory :: mem where
  "font_memory a = (if a = 0x100003 then 8 else 0xFF)"

definition small_terminal :: terminal where
  "small_terminal = \<lparr>t_framebuffer = small_fb, background_color = 0, foreground_color = 0xAAAAAA, t_width = 4, t_height = 4,
     cursor_pos = \<lparr>ix = 1, iy = 4\<rparr>, t_mode = MODE_TERM\<rparr>"

lemma small_fb_ok: "fb_ok small_fb"
  by (simp add: fb_ok_def small_fb_def)

lemma small_cs: "character_size small_font font_memory = 8"
  by (simp add: character_size_def small_font_def font_memory_def)

lemma small_font_apart: "font_apart small_fb small_font"
proof -
  have "\<not> in_range 0x1000 4096 (0x100004 + of_nat i)" if "i < 65536" for i
  proof -
    have "(0x100004 + of_nat i - 0x1000 :: u64) = of_nat (0xFF004 + i)" by simp
    moreover have "unat (of_nat (0xFF004 + i) :: u64) = 0xFF004 + i" using that by (intro unat_of_nat64) simp
    ultimately show ?thesis by (simp only: in_range_def)
  qed
  then show ?thesis by (simp add: font_apart_def small_fb_def small_font_def fb_bytes_def in_range_def)
qed

section \<open>Drawing\<close>

text \<open>
  C32. Putting a pixel of a line sets this pixel and no other, does nothing below the last
  line, and changes no byte outside the framebuffer.
\<close>

theorem putpixel_correct:
  assumes "fb_ok fb" and "x < unat (fb_width fb)" and "y < 2 ^ 32"
  shows "picture fb (fb_putpixel fb (of_nat x) (of_nat y) c m) =
      (if y < unat (fb_height fb) then (picture fb m)((x, y) := c) else picture fb m) \<and>
    (\<forall>a. \<not> in_range (backbuffer fb) (fb_bytes fb) a \<longrightarrow> fb_putpixel fb (of_nat x) (of_nat y) c m a = m a)"
  using put_image [OF assms] put_outside [OF assms] by blast

theorem putpixel_correct_witness:
  "picture small_fb (fb_putpixel small_fb (of_nat 5) (of_nat 7) 0xAA0000 font_memory) (5, 7) = 0xAA0000"
  using putpixel_correct [OF small_fb_ok, of 5 7 "0xAA0000" font_memory] by (simp add: small_fb_def)

text \<open>
  C30. A character drawn in a column with room for it changes the picture by exactly its
  glyph, cut off at the last line: the pixels of the set bits get the foreground colour,
  the others of the cell the background colour.
\<close>

theorem putc_correct:
  assumes "fb_ok fb" and "font_apart fb f" and "x + 8 \<le> unat (fb_width fb)" and "y + unat (character_size f m) \<le> 2 ^ 32"
  shows "picture fb (fb_putc fb f (of_nat x) (of_nat y) fg bg ch m) =
      stamp fb (\<lambda>i k. if glyph_pixel f m ch i k then fg else bg) x y 8 (unat (character_size f m)) (picture fb m) \<and>
    (\<forall>a. \<not> in_range (backbuffer fb) (fb_bytes fb) a \<longrightarrow> fb_putc fb f (of_nat x) (of_nat y) fg bg ch m a = m a)"
  using putc_picture [OF assms] by blast

theorem putc_correct_witness:
  "picture small_fb (fb_putc small_fb small_font (of_nat 8) (of_nat 8) 0xAAAAAA 0 65 font_memory) (9, 10) = 0xAAAAAA"
proof -
  have "glyph_pixel small_font font_memory 65 2 1"
    by (simp add: glyph_pixel_def small_font_def font_memory_def small_cs [unfolded small_font_def])
  then show ?thesis
    using putc_correct [OF small_fb_ok small_font_apart, of 8 8 font_memory "0xAAAAAA" 0 65]
    by (simp add: small_cs stamp_def) (simp add: small_fb_def)
qed



section \<open>The cursor\<close>

datatype term_op = Putc u8 | Puts "u8 list" | Set_cursor u32 u32 | Set_foreground u32 | Set_background u32 | Clear

primrec do_op :: "psf1_font \<Rightarrow> term_op \<Rightarrow> terminal option \<times> mem \<Rightarrow> terminal option \<times> mem" where
  "do_op f (Putc c) tm = terminal_putc f c tm"
| "do_op f (Puts s) tm = terminal_puts f s tm"
| "do_op f (Set_cursor x y) tm = apfst (set_terminal_cursor_pos x y) tm"
| "do_op f (Set_foreground c) tm = apfst (terminal_set_foreground c) tm"
| "do_op f (Set_background c) tm = apfst (terminal_set_background c) tm"
| "do_op f Clear tm =
     (case tm of (Some t, m) \<Rightarrow> apfst Some (terminal_clear (t, m)) | (None, m) \<Rightarrow> (None, m))"

text \<open>
  The cursor is in a column of the terminal, and the cell of that column is on the screen.
\<close>

definition cursor_ok :: "terminal \<Rightarrow> bool" where
  "cursor_ok t \<longleftrightarrow> 2 \<le> unat (t_width t) \<and> unat (t_width t) < 2 ^ 31 \<and>
     8 * unat (t_width t) \<le> unat (fb_width (t_framebuffer t)) \<and> unat (ix (cursor_pos t)) < unat (t_width t)"

definition same_screen :: "terminal \<Rightarrow> terminal \<Rightarrow> bool" where
  "same_screen t t' \<longleftrightarrow> t_framebuffer t' = t_framebuffer t \<and> t_width t' = t_width t \<and> t_height t' = t_height t"

lemma sint_small: "unat (w :: u32) < 2 ^ 31 \<Longrightarrow> sint w = int (unat w)"
proof -
  assume "unat w < 2 ^ 31"
  then have "int (unat w) < int (2 ^ 31)" by (simp only: of_nat_less_iff)
  then have "uint w < 2 ^ 31" by simp
  then have "signed_take_bit 31 (uint w) = uint w"
    by (intro signed_take_bit_int_eq_self) (simp_all add: order_trans [OF _ uint_ge_0])
  then show ?thesis by (simp add: sint_uint)
qed

lemma pop_column:
  assumes "unat (x :: u32) < 2 ^ 31"
  shows "(let x' = x - 1 in if sint x' < 1 then x' + 1 else x') = (if unat x \<le> 1 then x else x - 1)"
proof (cases "x = 0")
  case False
  then have "unat (x - 1) = unat x - 1" by (simp add: unat_minus_one)
  then have "sint (x - 1) = int (unat x - 1)" using assms sint_small [of "x - 1"] by (simp only:)
  then have "sint (x - 1) < 1 \<longleftrightarrow> unat x \<le> 1" by linarith
  then show ?thesis by (simp add: Let_def del: of_nat_unat)
qed simp

lemma pop_cursor_ok:
  assumes ok: "cursor_ok t"
  obtains t' where "terminal_pop_cursor (Some t) = Some t'" "cursor_ok t'" "same_screen t t'"
proof
  let ?x = "ix (cursor_pos t)"
  let ?t = "t\<lparr>cursor_pos := (cursor_pos t)\<lparr>ix := if unat ?x \<le> 1 then ?x else ?x - 1\<rparr>\<rparr>"
  have "unat ?x < 2 ^ 31" using ok by (simp add: cursor_ok_def)
  from pop_column [OF this] show "terminal_pop_cursor (Some t) = Some ?t"
    by (simp add: terminal_pop_cursor_def Let_def)
  have "unat (?x - 1) \<le> unat ?x" if "1 < unat ?x"
  proof -
    have "?x \<noteq> 0" using that by auto
    then show ?thesis by (simp add: unat_minus_one)
  qed
  then show "cursor_ok ?t" using ok by (auto simp: cursor_ok_def)
  show "same_screen t ?t" by (simp add: same_screen_def)
qed

lemma push_cursor_ok:
  assumes ok: "cursor_ok t"
  shows "\<exists>t' m'. terminal_push_cursor f (Some t) m = (Some t', m') \<and> cursor_ok t' \<and> same_screen t t'"
proof -
  have x: "unat (ix (cursor_pos t) + 1) = unat (ix (cursor_pos t)) + 1"
    using ok by (simp add: cursor_ok_def unat_word_ariths)
  show ?thesis using ok x
    by (auto simp: terminal_push_cursor_def Let_def cursor_ok_def same_screen_def word_le_nat_alt)
qed

lemma putc_cursor_ok:
  assumes ok: "cursor_ok t"
  shows "\<exists>t' m'. terminal_putc f c (Some t, m) = (Some t', m') \<and> cursor_ok t' \<and> same_screen t t'"
proof -
  consider "c = 0x0A" | "c \<noteq> 0x0A" "font_header f = 0" | "c \<noteq> 0x0A" "font_header f \<noteq> 0" "c = 8"
    | "c \<noteq> 0x0A" "font_header f \<noteq> 0" "c \<noteq> 8" by blast
  then show ?thesis
  proof cases
    case 3
    obtain t' where "terminal_pop_cursor (Some t) = Some t'" "cursor_ok t'" "same_screen t t'"
      using ok by (rule pop_cursor_ok)
    then show ?thesis using 3 by (simp add: terminal_putc_def)
  next
    case 4
    then show ?thesis using push_cursor_ok [OF ok] by (simp add: terminal_putc_def)
  qed (use ok in \<open>auto simp: terminal_putc_def cursor_ok_def same_screen_def\<close>)
qed

lemma same_screen_trans: "same_screen t u \<Longrightarrow> same_screen u v \<Longrightarrow> same_screen t v"
  by (simp add: same_screen_def)

lemma puts_cursor_ok:
  "cursor_ok t \<Longrightarrow> \<exists>t' m'. terminal_puts f s (Some t, m) = (Some t', m') \<and> cursor_ok t' \<and> same_screen t t'"
proof (induction s arbitrary: t m)
  case (Cons c s)
  from putc_cursor_ok [OF Cons.prems, of f c m] obtain u n where
    u: "terminal_putc f c (Some t, m) = (Some u, n)" "cursor_ok u" "same_screen t u" by blast
  from Cons.IH [OF u(2), of n] u show ?case by (auto simp: terminal_puts_def intro: same_screen_trans)
qed (simp add: terminal_puts_def same_screen_def)

lemma do_op_cursor_ok:
  assumes "cursor_ok t"
  shows "\<exists>t' m'. do_op f p (Some t, m) = (Some t', m') \<and> cursor_ok t' \<and> same_screen t t'"
  using assms putc_cursor_ok [OF assms] puts_cursor_ok [OF assms]
  by (cases p) (auto simp: set_terminal_cursor_pos_def terminal_set_foreground_def terminal_set_background_def
      terminal_clear_def Let_def cursor_ok_def same_screen_def word_le_nat_alt)

lemma do_ops_cursor_ok:
  "cursor_ok t \<Longrightarrow> \<exists>t' m'. fold (do_op f) ps (Some t, m) = (Some t', m') \<and> cursor_ok t' \<and> same_screen t t'"
proof (induction ps arbitrary: t m)
  case (Cons p ps)
  from do_op_cursor_ok [OF Cons.prems, of f p m] obtain u n where
    u: "do_op f p (Some t, m) = (Some u, n)" "cursor_ok u" "same_screen t u" by blast
  from Cons.IH [OF u(2), of n] u show ?case by (auto intro: same_screen_trans)
qed (simp add: same_screen_def)

lemma init_cursor_ok:
  assumes "init_terminal fb f m t = Some t0" and "font_header f \<noteq> 0"
    and "16 \<le> unat (fb_width fb)" and "unat (fb_width fb) < 2 ^ 31"
  shows "cursor_ok t0 \<and> t_framebuffer t0 = fb"
proof -
  have "unat (ucast (fb_width fb div 8) :: u32) = unat (fb_width fb) div 8"
    using assms(4) by (simp add: unsigned_ucast_eq unat_div take_bit_nat_eq_self)
  then show ?thesis using assms
    by (auto simp: init_terminal_def cursor_ok_def Let_def split: if_splits)
qed

text \<open>
  C31. After \<^verbatim>\<open>init_terminal\<close> on a screen at least two characters wide, whatever is
  printed, cleared or set, the cursor stays in a column of the terminal, so the cell of the
  next character lies within the lines of the screen.
\<close>

theorem cursor_stays_on_screen:
  assumes "init_terminal fb f m t = Some t0" and "font_header f \<noteq> 0"
    and "16 \<le> unat (fb_width fb)" and "unat (fb_width fb) < 2 ^ 31"
  shows "\<exists>t' m'. fold (do_op f) ops (Some t0, m) = (Some t', m') \<and>
    unat (ix (cursor_pos t')) < unat (t_width t') \<and>
    8 * unat (ix (cursor_pos t')) + 8 \<le> unat (fb_width (t_framebuffer t')) \<and> t_framebuffer t' = fb"
proof -
  have "cursor_ok t0" and "t_framebuffer t0 = fb" using init_cursor_ok [OF assms] by simp_all
  then obtain t' m' where t': "fold (do_op f) ops (Some t0, m) = (Some t', m')" "cursor_ok t'" "t_framebuffer t' = fb"
    using do_ops_cursor_ok [of t0 f ops m] by (auto simp: same_screen_def)
  then have "8 * Suc (unat (ix (cursor_pos t'))) \<le> 8 * unat (t_width t')"
    by (intro mult_le_mono2) (simp add: cursor_ok_def)
  with t' show ?thesis by (auto simp: cursor_ok_def)
qed

theorem cursor_stays_on_screen_witness:
  "\<exists>t0 t' m'. init_terminal small_fb small_font font_memory small_terminal = Some t0 \<and>
     fold (do_op small_font) [Puts [72, 105, 10], Clear, Putc 8, Putc 33] (Some t0, font_memory) = (Some t', m') \<and>
     unat (ix (cursor_pos t')) < unat (t_width t')"
proof -
  have "init_terminal small_fb small_font font_memory small_terminal \<noteq> None"
    unfolding init_terminal_def small_cs by (simp add: Let_def)
  then obtain t0 where i: "init_terminal small_fb small_font font_memory small_terminal = Some t0" by blast
  have h: "font_header small_font \<noteq> 0" "16 \<le> unat (fb_width small_fb)" "unat (fb_width small_fb) < 2 ^ 31"
    by (simp_all add: small_font_def small_fb_def)
  from cursor_stays_on_screen [OF i h] i show ?thesis by blast
qed

end
