(* ===== verification/Keyboard_Properties.thy ===== *)
theory Keyboard_Properties
  imports Keyboard Screen_Properties Interrupt_Properties
begin

text \<open>The property of the keyboard handler, with a machine on which it applies.\<close>

text \<open>
  C28. Running the keyboard handler on any sequence of key codes never stops the machine, keeps
  the array of pressed keys equal to the set of keys held down, and prints to the terminal
  exactly the text that the reference decoder assigns to the sequence.
\<close>

theorem keyboard_types:
  assumes "tracks held (keyboard s)"
  shows "\<exists>s'. key_events ks s = Some s' \<and>
    (Some (the_term s'), con_mem s') = terminal_puts (font s) (typed held ks) (Some (the_term s), con_mem s) \<and>
    (\<forall>j < 128. key_pressed (keyboard s') ! j = (if j \<in> held_after held ks then 1 else 0))"
  using key_events_typed [OF assms, of ks] by (auto simp: tracks_def)

definition fresh_console :: console_state where
  "fresh_console = irq_state.extend fresh_irq
     \<lparr>keyboard = \<lparr>mouse_offset = \<lparr>ix = 0, iy = 0\<rparr>, mouse = \<lparr>ix = 0, iy = 0\<rparr>, mouse_cycle = 0, last_keystroke = 0,
        key_pressed = replicate 128 0, ptr_to_update = 0\<rparr>,
      the_term = small_terminal, font = small_font, con_mem = font_memory\<rparr>"

lemma fresh_console_simps [simp]:
  "keyboard fresh_console = \<lparr>mouse_offset = \<lparr>ix = 0, iy = 0\<rparr>, mouse = \<lparr>ix = 0, iy = 0\<rparr>, mouse_cycle = 0, last_keystroke = 0,
     key_pressed = replicate 128 0, ptr_to_update = 0\<rparr>"
  "the_term fresh_console = small_terminal" "font fresh_console = small_font" "con_mem fresh_console = font_memory"
  by (simp_all add: fresh_console_def irq_state.defs)

text \<open>Shift down, h, shift up, i: the terminal receives \<open>Hi\<close>.\<close>

theorem keyboard_types_witness:
  "\<exists>s'. key_events [0x2A, 0x23, 0xAA, 0x17] fresh_console = Some s' \<and>
    (Some (the_term s'), con_mem s') = terminal_puts small_font [72, 105] (Some small_terminal, font_memory) \<and>
    key_pressed (keyboard s') ! 0x2A = 0"
proof -
  have t: "tracks {} (keyboard fresh_console)" by (simp add: tracks_def)
  have c: "scancodes ! 42 = (0, 0)" "scancodes ! 35 = (104, 72)" "scancodes ! 23 = (105, 73)"
    by (simp_all add: scancodes_def)
  have "typed {} [0x2A, 0x23, 0xAA, 0x17] = [72, 105]" by (simp add: key_char_def c Let_def)
  with keyboard_types [OF t, of "[0x2A, 0x23, 0xAA, 0x17]"] show ?thesis
    by (fastforce simp: nth_list_update)
qed

end
