(* ===== verification/Spin_Lock.thy ===== *)
theory Spin_Lock
  imports Kernel_State
begin

text \<open>
  The spin lock of \<^verbatim>\<open>kernel/src/common/lock.c\<close>, instruction by instruction. Any number
  of processors run the two routines on one lock and interleave at every instruction; the
  instructions with a \<^verbatim>\<open>lock\<close> prefix are atomic, so one instruction is one step. A
  conditional jump only reads the carry flag of the instruction before it and is part of that
  instruction's step.
\<close>

section \<open>The instructions\<close>

text \<open>
  Where a processor is: outside, at one of the instructions of
  \<^verbatim>\<open>lock_lock_implementation\<close>, in the critical section, or at one of the instructions of
  \<^verbatim>\<open>unlock_lock_implmentation\<close>. Each constructor is named after the next instruction.
\<close>

datatype pc =
  Outside | Cli | First_bts | Pause | Bt | Second_bts | Pop_flags |
  Critical | Btr | Popfq

text \<open>
  A processor: its program counter, its flags and the word it pushed. The field \<open>at_entry\<close> is
  a history variable: the flags with which it last called the lock routine.
\<close>

record processor =
  cpu_pc :: pc
  cpu_flags :: u64
  cpu_stack :: u64
  at_entry :: u64

abbreviation (input) IF_FLAG :: u64 where "IF_FLAG \<equiv> 0x200"

text \<open>\<^verbatim>\<open>lock btsl $0\<close> sets bit 0 of the word and returns the old bit as the carry flag.\<close>

definition bts :: "lock_t \<Rightarrow> bool \<times> lock_t" where
  "bts l = (bit (lk_lock l) 0, l\<lparr>lk_lock := set_bit 0 (lk_lock l)\<rparr>)"

fun lock_instr :: "lock_t \<times> processor \<Rightarrow> (lock_t \<times> processor) option" where
  "lock_instr (l, p) = (case cpu_pc p of
     Outside \<Rightarrow> Some (l, p\<lparr>cpu_stack := cpu_flags p, at_entry := cpu_flags p, cpu_pc := Cli\<rparr>)
   | Cli \<Rightarrow> Some (l, p\<lparr>cpu_flags := cpu_flags p AND NOT IF_FLAG, cpu_pc := First_bts\<rparr>)
   | First_bts \<Rightarrow> (case bts l of (carry, l) \<Rightarrow> Some (l, p\<lparr>cpu_pc := if carry then Pause else Pop_flags\<rparr>))
   | Pause \<Rightarrow> Some (l, p\<lparr>cpu_pc := Bt\<rparr>)
   | Bt \<Rightarrow> Some (l, p\<lparr>cpu_pc := if bit (lk_lock l) 0 then Pause else Second_bts\<rparr>)
   | Second_bts \<Rightarrow> (case bts l of (carry, l) \<Rightarrow> Some (l, p\<lparr>cpu_pc := if carry then Pause else Pop_flags\<rparr>))
   | Pop_flags \<Rightarrow> Some (l\<lparr>lk_rflags := cpu_stack p\<rparr>, p\<lparr>cpu_pc := Critical\<rparr>)
   | _ \<Rightarrow> None)"

fun unlock_instr :: "lock_t \<times> processor \<Rightarrow> (lock_t \<times> processor) option" where
  "unlock_instr (l, p) = (case cpu_pc p of
     Critical \<Rightarrow> Some (l, p\<lparr>cpu_stack := lk_rflags l, cpu_pc := Btr\<rparr>)
   | Btr \<Rightarrow> Some (l\<lparr>lk_lock := unset_bit 0 (lk_lock l)\<rparr>, p\<lparr>cpu_pc := Popfq\<rparr>)
   | Popfq \<Rightarrow> Some (l, p\<lparr>cpu_flags := cpu_stack p, cpu_pc := Outside\<rparr>)
   | _ \<Rightarrow> None)"

section \<open>The machine\<close>

record machine =
  the_lock :: lock_t
  cpus :: "nat \<Rightarrow> processor"

text \<open>
  One processor moves: it executes an instruction of one of the routines, or, in its own code
  outside the routines, changes its flags.
\<close>

inductive step :: "nat \<Rightarrow> machine \<Rightarrow> machine \<Rightarrow> bool" where
  Lock: "lock_instr (the_lock s, cpus s c) = Some (l, p) \<Longrightarrow>
    step c s (s\<lparr>the_lock := l, cpus := (cpus s)(c := p)\<rparr>)"
| Unlock: "unlock_instr (the_lock s, cpus s c) = Some (l, p) \<Longrightarrow>
    step c s (s\<lparr>the_lock := l, cpus := (cpus s)(c := p)\<rparr>)"
| Work: "cpu_pc (cpus s c) \<in> {Outside, Critical} \<Longrightarrow>
    step c s (s\<lparr>cpus := (cpus s)(c := (cpus s c)\<lparr>cpu_flags := fl\<rparr>)\<rparr>)"

inductive reachable :: "machine \<Rightarrow> bool" where
  Start: "the_lock s = LOCK_NEW \<Longrightarrow> \<forall>c. cpu_pc (cpus s c) = Outside \<Longrightarrow> reachable s"
| Step: "reachable s \<Longrightarrow> step c s t \<Longrightarrow> reachable t"

inductive_cases stepE: "step c s t"

section \<open>The invariant\<close>

text \<open>The processor holds the lock; it has its own flags on its stack or in the lock.\<close>

definition holds :: "processor \<Rightarrow> bool" where
  "holds p \<longleftrightarrow> cpu_pc p \<in> {Pop_flags, Critical, Btr}"

definition flags_saved :: "lock_t \<Rightarrow> processor \<Rightarrow> bool" where
  "flags_saved l p \<longleftrightarrow>
     (cpu_pc p \<in> {Cli, First_bts, Pause, Bt, Second_bts, Pop_flags, Btr, Popfq} \<longrightarrow> cpu_stack p = at_entry p) \<and>
     (cpu_pc p = Critical \<longrightarrow> lk_rflags l = at_entry p) \<and>
     (cpu_pc p \<in> {First_bts, Pause, Bt, Second_bts, Pop_flags} \<longrightarrow> \<not> bit (cpu_flags p) 9)"

definition lock_inv :: "machine \<Rightarrow> bool" where
  "lock_inv s \<longleftrightarrow>
     (\<forall>c d. holds (cpus s c) \<and> holds (cpus s d) \<longrightarrow> c = d) \<and>
     (bit (lk_lock (the_lock s)) 0 \<longleftrightarrow> (\<exists>c. holds (cpus s c))) \<and>
     (\<forall>c. flags_saved (the_lock s) (cpus s c))"

lemma lock_inv_start:
  "the_lock s = LOCK_NEW \<Longrightarrow> \<forall>c. cpu_pc (cpus s c) = Outside \<Longrightarrow> lock_inv s"
  by (simp add: lock_inv_def holds_def flags_saved_def LOCK_NEW_def)

lemma cli_clears: "\<not> bit (w AND NOT IF_FLAG) 9"
proof -
  have "(IF_FLAG :: u64) = push_bit 9 1" by simp
  then show ?thesis by (simp only:) (simp add: bit_simps)
qed

lemma flags_saved_cong:
  "lk_rflags l = lk_rflags l' \<or> cpu_pc p \<noteq> Critical \<Longrightarrow> flags_saved l' p \<Longrightarrow> flags_saved l p"
  unfolding flags_saved_def by metis

text \<open>What a step of processor \<open>c\<close> must do for the invariant to survive it.\<close>

lemma lock_inv_update:
  assumes inv: "lock_inv s" and saved: "flags_saved l p"
    and slot: "lk_rflags l = lk_rflags (the_lock s) \<or> holds (cpus s c)"
    and lock: "holds p = holds (cpus s c) \<and> bit (lk_lock l) 0 = bit (lk_lock (the_lock s)) 0 \<or>
      \<not> bit (lk_lock (the_lock s)) 0 \<and> holds p \<and> bit (lk_lock l) 0 \<or>
      holds (cpus s c) \<and> \<not> holds p \<and> \<not> bit (lk_lock l) 0"
  shows "lock_inv (s\<lparr>the_lock := l, cpus := (cpus s)(c := p)\<rparr>)"
proof -
  have one: "holds (cpus s d) \<Longrightarrow> holds (cpus s e) \<Longrightarrow> d = e" for d e
    using inv unfolding lock_inv_def by blast
  have other: "flags_saved l (cpus s d)" if "d \<noteq> c" for d
  proof -
    have "flags_saved (the_lock s) (cpus s d)" using inv by (simp add: lock_inv_def)
    moreover have "lk_rflags l = lk_rflags (the_lock s) \<or> cpu_pc (cpus s d) \<noteq> Critical"
      using slot one [of c d] that by (metis holds_def insertI1 insertI2)
    ultimately show ?thesis using flags_saved_cong by blast
  qed
  let ?cpus = "(cpus s)(c := p)"
  have set: "bit (lk_lock (the_lock s)) 0 \<longleftrightarrow> (\<exists>d. holds (cpus s d))"
    using inv unfolding lock_inv_def by blast
  have "(\<forall>d e. holds (?cpus d) \<and> holds (?cpus e) \<longrightarrow> d = e) \<and> (bit (lk_lock l) 0 \<longleftrightarrow> (\<exists>d. holds (?cpus d)))"
    using lock
  proof (elim disjE)
    assume a: "holds p = holds (cpus s c) \<and> bit (lk_lock l) 0 = bit (lk_lock (the_lock s)) 0"
    then have h: "holds (?cpus d) = holds (cpus s d)" for d by simp
    show ?thesis unfolding h using a one set by blast
  next
    assume a: "\<not> bit (lk_lock (the_lock s)) 0 \<and> holds p \<and> bit (lk_lock l) 0"
    then have h: "holds (?cpus d) \<longleftrightarrow> d = c" for d using set by auto
    show ?thesis unfolding h using a by blast
  next
    assume a: "holds (cpus s c) \<and> \<not> holds p \<and> \<not> bit (lk_lock l) 0"
    have h: "\<not> holds (?cpus d)" for d
    proof (cases "d = c")
      case False
      then have "\<not> holds (cpus s d)" using a one by blast
      then show ?thesis using False by simp
    qed (use a in simp)
    show ?thesis using a h by blast
  qed
  moreover have "\<forall>d. flags_saved l (?cpus d)" using saved other by simp
  moreover have "the_lock (s\<lparr>the_lock := l, cpus := ?cpus\<rparr>) = l" "cpus (s\<lparr>the_lock := l, cpus := ?cpus\<rparr>) = ?cpus"
    by simp_all
  ultimately show ?thesis unfolding lock_inv_def by metis
qed

lemma bit_set_0 [simp]: "bit (set_bit 0 w) 0" "\<not> bit (unset_bit 0 w) 0" for w :: u32
  by (simp_all add: bit_simps)

lemma lock_instr_inv:
  assumes "lock_instr (the_lock s, cpus s c) = Some (l, p)" and inv: "lock_inv s"
  shows "lock_inv (s\<lparr>the_lock := l, cpus := (cpus s)(c := p)\<rparr>)"
proof -
  have "flags_saved (the_lock s) (cpus s c)" using inv by (simp add: lock_inv_def)
  moreover have "holds (cpus s c) \<Longrightarrow> bit (lk_lock (the_lock s)) 0" using inv by (auto simp: lock_inv_def)
  ultimately show ?thesis
    using assms(1) by (intro lock_inv_update [OF inv]; cases "cpu_pc (cpus s c)")
      (auto simp: flags_saved_def holds_def bts_def cli_clears [simplified] split: if_splits)
qed

lemma unlock_instr_inv:
  assumes "unlock_instr (the_lock s, cpus s c) = Some (l, p)" and inv: "lock_inv s"
  shows "lock_inv (s\<lparr>the_lock := l, cpus := (cpus s)(c := p)\<rparr>)"
proof -
  have "flags_saved (the_lock s) (cpus s c)" using inv by (simp add: lock_inv_def)
  then show ?thesis
    using assms(1) by (intro lock_inv_update [OF inv]; cases "cpu_pc (cpus s c)") (auto simp: flags_saved_def holds_def)
qed

lemma lock_inv_step: "step c s t \<Longrightarrow> lock_inv s \<Longrightarrow> lock_inv t"
proof (induction rule: step.induct)
  case (Lock s c l p)
  then show ?case by (rule lock_instr_inv)
next
  case (Unlock s c l p)
  then show ?case by (rule unlock_instr_inv)
next
  case (Work s c fl)
  let ?p = "(cpus s c)\<lparr>cpu_flags := fl\<rparr>"
  have "flags_saved (the_lock s) (cpus s c)" using Work.prems by (simp add: lock_inv_def)
  then have p: "flags_saved (the_lock s) ?p" using Work.hyps by (elim insertE emptyE) (simp_all add: flags_saved_def)
  have "lock_inv (s\<lparr>the_lock := the_lock s, cpus := (cpus s)(c := ?p)\<rparr>)"
    by (rule lock_inv_update [OF Work.prems p]) (simp_all add: holds_def)
  then show ?case by simp
qed

lemma reachable_inv: "reachable s \<Longrightarrow> lock_inv s"
  by (induction rule: reachable.induct) (blast intro: lock_inv_start lock_inv_step)+

section \<open>Properties\<close>

text \<open>
  C26. In every state the processors can reach, at most one is in the critical section, the
  lock word is set exactly while some processor has acquired and not yet released it, and a
  processor that finishes the unlock routine gets back the flags, and so the interrupt flag,
  with which it called the lock routine.
\<close>

theorem spin_lock_safe:
  assumes "reachable s"
  shows "(\<forall>c d. cpu_pc (cpus s c) = Critical \<and> cpu_pc (cpus s d) = Critical \<longrightarrow> c = d) \<and>
    (bit (lk_lock (the_lock s)) 0 \<longleftrightarrow> (\<exists>c. cpu_pc (cpus s c) \<in> {Pop_flags, Critical, Btr})) \<and>
    (\<forall>c l p. cpu_pc (cpus s c) = Popfq \<and> unlock_instr (the_lock s, cpus s c) = Some (l, p) \<longrightarrow>
      cpu_flags p = at_entry (cpus s c))"
  using reachable_inv [OF assms] by (auto simp: lock_inv_def holds_def flags_saved_def)

definition idle_machine :: machine where
  "idle_machine = \<lparr>the_lock = LOCK_NEW,
     cpus = \<lambda>_. \<lparr>cpu_pc = Outside, cpu_flags = 0x202, cpu_stack = 0, at_entry = 0\<rparr>\<rparr>"

lemma idle_reachable: "reachable idle_machine"
  by (rule Start) (simp_all add: idle_machine_def)

theorem spin_lock_safe_witness:
  "\<exists>s. reachable s \<and> cpu_pc (cpus s 0) = Cli \<and> \<not> bit (lk_lock (the_lock s)) 0"
proof -
  let ?p = "\<lparr>cpu_pc = Cli, cpu_flags = 0x202, cpu_stack = 0x202, at_entry = 0x202\<rparr>"
  let ?t = "idle_machine\<lparr>the_lock := LOCK_NEW, cpus := (cpus idle_machine)(0 := ?p)\<rparr>"
  have "step 0 idle_machine ?t" by (rule step.Lock) (simp add: idle_machine_def)
  with idle_reachable have r: "reachable ?t" by (rule reachable.Step)
  moreover have "\<not> bit (lk_lock (the_lock ?t)) 0"
    using spin_lock_safe [OF r] by (auto simp: idle_machine_def split: if_splits)
  ultimately show ?thesis by (intro exI [of _ ?t]) simp
qed





end
