(* ===== verification/Acpi.thy ===== *)
theory Acpi
  imports Kernel_State
begin

text \<open>
  The ACPI tables: \<^verbatim>\<open>kernel/src/sys/acpi/{acpi,rsdp,madt}.c\<close>. The tables are bytes of
  the memory at the offsets of the packed structures of
  \<^verbatim>\<open>kernel/include/structs/{rsdp,rsdt,madt}_str.h\<close>; a pointer to a table is its address
  and 0 is \<^verbatim>\<open>NULL\<close>. String literals lie in the memory as well: \<open>lit\<close> gives the
  address of each, a choice of the compiler.
\<close>

section \<open>Structures\<close>

abbreviation (input) sizeof_RSDP :: u64 where "sizeof_RSDP \<equiv> 20"
abbreviation (input) sizeof_ACPI_SDT_HEADER :: u64 where "sizeof_ACPI_SDT_HEADER \<equiv> 36"
abbreviation (input) sizeof_MADT :: u64 where "sizeof_MADT \<equiv> 44"

definition rsdp_revision :: "u64 \<Rightarrow> mem \<Rightarrow> u8" where "rsdp_revision p m = m (p + 15)"
definition rsdp_rsdt_address :: "u64 \<Rightarrow> mem \<Rightarrow> u32" where "rsdp_rsdt_address p m = load32 (p + 16) m"
definition rsdp_length :: "u64 \<Rightarrow> mem \<Rightarrow> u32" where "rsdp_length p m = load32 (p + 20) m"
definition rsdp_xsdt_address :: "u64 \<Rightarrow> mem \<Rightarrow> u64" where "rsdp_xsdt_address p m = load64 (p + 24) m"
definition sdt_length :: "u64 \<Rightarrow> mem \<Rightarrow> u32" where "sdt_length p m = load32 (p + 4) m"
definition madt_lapic_address :: "u64 \<Rightarrow> mem \<Rightarrow> u32" where "madt_lapic_address p m = load32 (p + 36) m"

record acpi_state =
  acpi_kernel :: kstate
  sdt :: u64
  use_xsdt :: bool
  madt :: u64
  num_local_apic :: u64
  local_apics :: "u64 list"
  num_io_apics :: u64
  io_apics :: "u64 list"

abbreviation acpi_mem :: "'a acpi_state_scheme \<Rightarrow> mem" where "acpi_mem s \<equiv> ram (acpi_kernel s)"

section \<open>acpi.c and rsdp.c\<close>

definition calculate_checksum :: "u64 \<Rightarrow> u64 \<Rightarrow> mem \<Rightarrow> u8" where
  "calculate_checksum addr len m = fold (\<lambda>i sum. sum + m (addr + of_nat i)) [0..<unat len] 0"

definition rsdp_checksum_check :: "u64 \<Rightarrow> mem \<Rightarrow> status" where
  "rsdp_checksum_check rsdp m =
     (if calculate_checksum rsdp sizeof_RSDP m \<noteq> 0 then SYS_ERR
      else if 2 \<le> rsdp_revision rsdp m \<and> calculate_checksum rsdp (ucast (rsdp_length rsdp m)) m \<noteq> 0 then SYS_ERR
      else SYS_OK)"

text \<open>The table the \<open>i\<close>-th entry of the root table points to.\<close>

definition sdt_entry :: "u64 \<Rightarrow> acpi_state \<Rightarrow> u64" where
  "sdt_entry i s =
     PHYS_TO_VIRT (if use_xsdt s then load64 (sdt s + 36 + i * 8) (acpi_mem s) else ucast (load32 (sdt s + 36 + i * 4) (acpi_mem s)))"

definition sdt_entries :: "acpi_state \<Rightarrow> u64" where
  "sdt_entries s = (ucast (sdt_length (sdt s) (acpi_mem s)) - sizeof_ACPI_SDT_HEADER) div (if use_xsdt s then 8 else 4)"

definition acpi_get_sdt :: "u64 \<Rightarrow> acpi_state \<Rightarrow> u64 option" where
  "acpi_get_sdt signature s =
     (if signature = 0 then Some 0
      else if sdt s = 0 then Some 0
      else map_option (\<lambda>(r, _). case r of Some table \<Rightarrow> table | None \<Rightarrow> 0)
        (for_return 0 (sdt_entries s) 1
          (\<lambda>i s. do {
             n \<leftarrow> strlen signature (acpi_mem s);
             Some (if memcmp (sdt_entry i s) signature n (acpi_mem s) = 0 then Some (sdt_entry i s) else None, s)
           }) s))"

section \<open>madt.c\<close>

abbreviation (input) MADT_RECORD_TYPE_LOCAL_APIC :: u8 where "MADT_RECORD_TYPE_LOCAL_APIC \<equiv> 0"
abbreviation (input) MADT_RECORD_TYPE_IO_APIC :: u8 where "MADT_RECORD_TYPE_IO_APIC \<equiv> 1"
abbreviation (input) MAX_IO_APICS :: u64 where "MAX_IO_APICS \<equiv> 2"
abbreviation (input) MAX_CPUS :: u64 where "MAX_CPUS \<equiv> 256"

definition madt_get_num_ioapics :: "acpi_state \<Rightarrow> u32" where
  "madt_get_num_ioapics s = ucast (num_io_apics s)"

definition madt_get_num_local_apics :: "acpi_state \<Rightarrow> u32" where
  "madt_get_num_local_apics s = ucast (num_local_apic s)"

definition madt_get_io_apics :: "acpi_state \<Rightarrow> u64 list" where
  "madt_get_io_apics s = io_apics s"

definition madt_get_local_apics :: "acpi_state \<Rightarrow> u64 list" where
  "madt_get_local_apics s = local_apics s"

definition madt_get_local_apic_base :: "acpi_state \<Rightarrow> u64" where
  "madt_get_local_apic_base s = ucast (madt_lapic_address (madt s) (acpi_mem s))"

text \<open>One record: the \<^verbatim>\<open>switch\<close> of the loop of \<^verbatim>\<open>madt_init\<close>.\<close>

definition madt_record :: "u64 \<Rightarrow> acpi_state \<Rightarrow> acpi_state" where
  "madt_record r s =
     (let ty = acpi_mem s r
      in if ty = MADT_RECORD_TYPE_LOCAL_APIC
         then if MAX_CPUS \<le> num_local_apic s then s
              else s\<lparr>local_apics := (local_apics s)[unat (num_local_apic s) := r], num_local_apic := num_local_apic s + 1\<rparr>
         else if ty = MADT_RECORD_TYPE_IO_APIC
         then if MAX_IO_APICS < num_io_apics s then s
              else s\<lparr>io_apics := (io_apics s)[unat (num_io_apics s) := r], num_io_apics := num_io_apics s + 1\<rparr>
         else s)"

partial_function (option) madt_from :: "u64 \<Rightarrow> u64 \<Rightarrow> acpi_state \<Rightarrow> acpi_state option" where
  "madt_from sz i s =
     (if i < sz
      then let r = madt s + sizeof_MADT + i; s' = madt_record r s
           in madt_from sz (i + ucast (acpi_mem s' (r + 1))) s'
      else Some s)"

definition madt_init :: "(string \<Rightarrow> u64) \<Rightarrow> acpi_state \<Rightarrow> acpi_state option" where
  "madt_init lit s = do {
     p \<leftarrow> acpi_get_sdt (lit ''APIC'') s;
     let s = s\<lparr>madt := p\<rparr>;
     if madt s = 0 then None
     else madt_from (ucast (sdt_length (madt s) (acpi_mem s)) - sizeof_MADT) 0 s
   }"

text \<open>
  The response of the boot loader is \<^verbatim>\<open>NULL\<close> or the address of the root pointer. The
  routine returns early, without an error value, when a check fails.
\<close>

definition acpi_init :: "(string \<Rightarrow> u64) \<Rightarrow> u64 option \<Rightarrow> acpi_state \<Rightarrow> acpi_state option" where
  "acpi_init lit response s =
     (case response of
        None \<Rightarrow> None
      | Some rsdp \<Rightarrow>
          if rsdp_checksum_check rsdp (acpi_mem s) = SYS_ERR then Some s
          else let s = (if rsdp_revision rsdp (acpi_mem s) = 2
                   then s\<lparr>sdt := PHYS_TO_VIRT (rsdp_xsdt_address rsdp (acpi_mem s)), use_xsdt := True\<rparr>
                   else s\<lparr>sdt := PHYS_TO_VIRT (ucast (rsdp_rsdt_address rsdp (acpi_mem s))), use_xsdt := False\<rparr>)
               in if memcmp rsdp (lit ''RSD PTR '') 8 (acpi_mem s) \<noteq> 0 then Some s
                  else madt_init lit s)"

section \<open>The records of a well-formed table\<close>

text \<open>A list of records, each with its type and its length, laid out one after the other.\<close>

fun laid_out :: "mem \<Rightarrow> u64 \<Rightarrow> (u8 \<times> u8) list \<Rightarrow> bool" where
  "laid_out m p [] \<longleftrightarrow> True"
| "laid_out m p ((ty, len) # rs) \<longleftrightarrow> m p = ty \<and> m (p + 1) = len \<and> len \<noteq> 0 \<and> laid_out m (p + ucast len) rs"

fun addresses :: "u8 \<Rightarrow> u64 \<Rightarrow> (u8 \<times> u8) list \<Rightarrow> u64 list" where
  "addresses t p [] = []"
| "addresses t p ((ty, len) # rs) = (if ty = t then [p] else []) @ addresses t (p + ucast len) rs"

definition total_length :: "(u8 \<times> u8) list \<Rightarrow> nat" where
  "total_length rs = sum_list (map (unat \<circ> snd) rs)"

text \<open>What the arrays of the kernel hold: the collected addresses, up to their limit.\<close>

definition collected :: "nat \<Rightarrow> u64 \<Rightarrow> u64 list \<Rightarrow> u64 list \<Rightarrow> bool" where
  "collected limit n xs as \<longleftrightarrow> unat n = min limit (length as) \<and> take (unat n) xs = take limit as \<and> limit \<le> length xs"

lemma collected_add:
  assumes "collected limit n xs as" and "limit < 2 ^ 32"
  shows "collected limit (if unat n < limit then n + 1 else n) (if unat n < limit then xs[unat n := a] else xs) (as @ [a])"
proof (cases "unat n < limit")
  case True
  then have n: "unat n = length as" "unat (n + 1) = Suc (unat n)"
    using assms by (auto simp: collected_def unat_word_ariths)
  then have "length as < length xs" using True assms(1) by (simp add: collected_def)
  then have "take (Suc (length as)) (xs[length as := a]) = take (length as) xs @ [a]"
    by (simp add: take_Suc_conv_app_nth)
  then show ?thesis using True assms(1) n by (simp add: collected_def)
next
  case False
  then show ?thesis using assms(1) by (auto simp: collected_def)
qed

section \<open>Looking a table up\<close>

lemma calculate_checksum_sum:
  "calculate_checksum a n m = (\<Sum>i\<leftarrow>[0..<unat n]. m (a + of_nat i))"
proof -
  have "fold (\<lambda>i sum. sum + m (a + of_nat i)) [0..<k] 0 = (\<Sum>i\<leftarrow>[0..<k]. m (a + of_nat i))" for k
    by (induction k) simp_all
  then show ?thesis by (simp add: calculate_checksum_def)
qed

definition has_signature :: "u64 \<Rightarrow> u64 \<Rightarrow> mem \<Rightarrow> u64 \<Rightarrow> bool" where
  "has_signature sig n m t \<longleftrightarrow> (\<forall>k \<in> set [0..<unat n]. m (t + of_nat k) = m (sig + of_nat k))"

definition root_entries :: "acpi_state \<Rightarrow> u64 list" where
  "root_entries s = map (\<lambda>i. sdt_entry (of_nat i) s) [0..<unat (sdt_entries s)]"

lemma entry_iterates: "iterates 0 n 1 (unat n)"
  using unat_lt64 [of n] by (intro iterates_exact) simp_all

lemma acpi_get_sdt_find:
  assumes "signature \<noteq> 0" and "sdt s \<noteq> 0" and len: "strlen signature (acpi_mem s) = Some n"
  shows "acpi_get_sdt signature s =
    Some (case find (has_signature signature n (acpi_mem s)) (root_entries s) of Some t \<Rightarrow> t | None \<Rightarrow> 0)"
proof -
  define body :: "u64 \<Rightarrow> acpi_state \<Rightarrow> (u64 option \<times> acpi_state) option" where
    "body = (\<lambda>i s. do {
       n \<leftarrow> strlen signature (acpi_mem s);
       Some (if memcmp (sdt_entry i s) signature n (acpi_mem s) = 0 then Some (sdt_entry i s) else None, s)
     })"
  let ?P = "has_signature signature n (acpi_mem s)"
  let ?e = "\<lambda>k. sdt_entry (of_nat k) s"
  have b: "body (0 + of_nat k * 1) s = Some (if ?P (?e k) then Some (?e k) else None, s)" for k
    by (simp add: body_def len memcmp_zero_iff has_signature_def)
  have nth: "root_entries s ! k = ?e k" "k < length (root_entries s)" if "k < unat (sdt_entries s)" for k
    using that by (simp_all add: root_entries_def)
  have run: "acpi_get_sdt signature s = map_option (\<lambda>(r, _). case r of Some table \<Rightarrow> table | None \<Rightarrow> 0)
      (for_return 0 (sdt_entries s) 1 body s)"
    using assms by (simp add: acpi_get_sdt_def body_def)
  show ?thesis
  proof (cases "find ?P (root_entries s)")
    case None
    then have "\<not> ?P (?e k)" if "k < unat (sdt_entries s)" for k
      using nth [OF that] by (metis find_None_iff nth_mem)
    then have "for_return 0 (sdt_entries s) 1 body s = Some (None, s)"
      by (intro for_return_none [OF entry_iterates]) (simp only: b, simp)
    then show ?thesis using None by (simp add: run)
  next
    case (Some t)
    then obtain k where k: "k < unat (sdt_entries s)" "?P t" "t = ?e k" "\<forall>j < k. \<not> ?P (?e j)"
      by (auto simp: find_Some_iff root_entries_def)
    have "for_return 0 (sdt_entries s) 1 body s = Some (Some t, s)"
      by (rule for_return_some [OF entry_iterates, where m = k]) (use k in \<open>simp_all only: b if_True if_False\<close>)
    then show ?thesis using Some by (simp add: run)
  qed
qed

section \<open>Walking the MADT\<close>

text \<open>What the loop does to the state on a list of records.\<close>

fun take_records :: "u64 \<Rightarrow> (u8 \<times> u8) list \<Rightarrow> acpi_state \<Rightarrow> acpi_state" where
  "take_records p [] s = s"
| "take_records p ((ty, len) # rs) s = take_records (p + ucast len) rs (madt_record p s)"

lemma madt_record_frame [simp]:
  "acpi_kernel (madt_record r s) = acpi_kernel s" "madt (madt_record r s) = madt s"
  by (simp_all add: madt_record_def Let_def)

lemma total_length_simps [simp]:
  "total_length [] = 0" "total_length ((ty, len) # rs) = unat len + total_length rs"
  by (simp_all add: total_length_def)

lemma madt_from_records:
  assumes "laid_out (acpi_mem s) (madt s + 44 + i) rs" and "unat i + total_length rs = unat sz"
  shows "madt_from sz i s = Some (take_records (madt s + 44 + i) rs s)"
  using assms
proof (induction rs arbitrary: i s)
  case Nil
  then show ?case by (subst madt_from.simps) (simp add: word_less_nat_alt)
next
  case (Cons r rs)
  obtain ty len where r: "r = (ty, len)" by fastforce
  let ?p = "madt s + 44 + i"
  have len: "acpi_mem s (?p + 1) = len" "0 < unat len"
    using Cons.prems(1) by (auto simp: r unat_gt_0)
  then have "i < sz" using Cons.prems(2) by (simp add: r word_less_nat_alt)
  have "unat len < 2 ^ LENGTH(8)" by (rule unsigned_less)
  then have uc: "unat (ucast len :: u64) = unat len" by (simp add: unsigned_ucast_eq take_bit_nat_eq_self)
  have "unat i + unat len < 2 ^ 64"
    using Cons.prems(2) unat_lt64 [of sz] by (simp add: r)
  then have "unat (i + ucast len) = unat i + unat len" by (simp add: unat_word_ariths uc)
  then have "madt_from sz (i + ucast len) (madt_record ?p s) =
      Some (take_records (?p + ucast len) rs (madt_record ?p s))"
    using Cons.IH [where i = "i + ucast len" and s = "madt_record ?p s"] Cons.prems
    by (simp add: r add.assoc)
  then show ?case using \<open>i < sz\<close> len(1) by (subst madt_from.simps) (simp add: r Let_def)
qed

text \<open>A record of length 0 is read again and again.\<close>

lemma madt_from_stuck:
  assumes "i < sz" and "acpi_mem s (madt s + 44 + i + 1) = 0"
  shows "madt_from sz i s = None"
proof (rule ccontr)
  assume "madt_from sz i s \<noteq> None"
  then obtain t where t: "madt_from sz i s = Some t" by blast
  have "i < sz \<longrightarrow> acpi_mem s (madt s + 44 + i + 1) \<noteq> 0"
    by (rule madt_from.raw_induct [where P = "\<lambda>sz i s t. i < sz \<longrightarrow> acpi_mem s (madt s + 44 + i + 1) \<noteq> 0", OF _ t])
      (fastforce simp: Let_def split: if_splits)
  then show False using assms by simp
qed

text \<open>Both arrays are filled up to their limits: 256 local and 3 I/O controllers.\<close>

definition tracked :: "acpi_state \<Rightarrow> u64 list \<Rightarrow> u64 list \<Rightarrow> bool" where
  "tracked s ls ios \<longleftrightarrow> collected 256 (num_local_apic s) (local_apics s) ls \<and> collected 3 (num_io_apics s) (io_apics s) ios"

lemma madt_record_tracked:
  assumes "tracked s ls ios" and "acpi_mem s p = ty"
  shows "tracked (madt_record p s) (ls @ addresses 0 p [(ty, len)]) (ios @ addresses 1 p [(ty, len)])"
proof -
  have "num_local_apic s < 256 \<longleftrightarrow> unat (num_local_apic s) < 256" "num_io_apics s \<le> 2 \<longleftrightarrow> unat (num_io_apics s) < 3"
    by (auto simp: word_less_nat_alt word_le_nat_alt)
  then show ?thesis
    using assms collected_add [of 256 "num_local_apic s" "local_apics s" ls p]
      collected_add [of 3 "num_io_apics s" "io_apics s" ios p]
    by (auto simp: tracked_def madt_record_def Let_def not_le not_less)
qed

lemma take_records_tracked:
  "laid_out (acpi_mem s) p rs \<Longrightarrow> tracked s ls ios \<Longrightarrow>
   tracked (take_records p rs s) (ls @ addresses 0 p rs) (ios @ addresses 1 p rs)"
proof (induction p rs s arbitrary: ls ios rule: take_records.induct)
  case (1 p s)
  then show ?case by simp
next
  case (2 p ty len rs s)
  then have "tracked (madt_record p s) (ls @ addresses 0 p [(ty, len)]) (ios @ addresses 1 p [(ty, len)])"
    by (intro madt_record_tracked) simp_all
  from "2.IH" [OF _ this] "2.prems"(1) show ?case by simp
qed

lemma take_records_frame [simp]:
  "acpi_kernel (take_records p rs s) = acpi_kernel s" "madt (take_records p rs s) = madt s"
  by (induction p rs s rule: take_records.induct) simp_all

lemma unat_widen:
  "LENGTH('a) \<le> LENGTH('b) \<Longrightarrow> unat (ucast (v :: 'a::len word) :: 'b::len word) = unat v"
  by (simp add: unsigned_ucast_eq take_bit_nat_eq_self order_less_le_trans [OF unsigned_less])

text \<open>The two checks in terms of plain sums.\<close>

lemma rsdp_checksum_OK:
  assumes "(\<Sum>i\<leftarrow>[0..<20]. m (r + of_nat i)) = 0"
    and "rsdp_revision r m < 2 \<or> (\<Sum>i\<leftarrow>[0..<unat (rsdp_length r m)]. m (r + of_nat i)) = 0"
  shows "rsdp_checksum_check r m = SYS_OK"
proof -
  have "unat (ucast (rsdp_length r m) :: u64) = unat (rsdp_length r m)"
    by (rule unat_widen) simp
  then show ?thesis
    using assms by (auto simp: rsdp_checksum_check_def calculate_checksum_sum)
qed

lemma record_area:
  "unat n = 44 + k \<Longrightarrow> unat (ucast n - sizeof_MADT) = k" for n :: u32
proof -
  assume n: "unat n = 44 + k"
  have u: "unat (ucast n :: u64) = unat n" by (rule unat_widen) simp
  then have "44 \<le> (ucast n :: u64)" using n by (simp add: word_le_nat_alt)
  then show ?thesis using n u by (simp add: unat_sub)
qed

section \<open>Well-formed tables\<close>

text \<open>The root table the root pointer names.\<close>

definition rooted :: "u64 \<Rightarrow> acpi_state \<Rightarrow> acpi_state" where
  "rooted r s =
     (if rsdp_revision r (acpi_mem s) = 2
      then s\<lparr>sdt := PHYS_TO_VIRT (rsdp_xsdt_address r (acpi_mem s)), use_xsdt := True\<rparr>
      else s\<lparr>sdt := PHYS_TO_VIRT (ucast (rsdp_rsdt_address r (acpi_mem s))), use_xsdt := False\<rparr>)"

lemma rooted_frame [simp]:
  "acpi_kernel (rooted r s) = acpi_kernel s" "num_local_apic (rooted r s) = num_local_apic s"
  "num_io_apics (rooted r s) = num_io_apics s" "local_apics (rooted r s) = local_apics s"
  "io_apics (rooted r s) = io_apics s"
  by (simp_all add: rooted_def)

text \<open>A table signed with a literal is the first of the root table's that is, if there is one.\<close>

definition signed_table :: "(string \<Rightarrow> u64) \<Rightarrow> string \<Rightarrow> acpi_state \<Rightarrow> u64 option \<Rightarrow> bool" where
  "signed_table lit name s p \<longleftrightarrow> lit name \<noteq> 0 \<and>
     (\<exists>n. strlen (lit name) (acpi_mem s) = Some n \<and> find (has_signature (lit name) n (acpi_mem s)) (root_entries s) = p)"

definition acpi_tables :: "(string \<Rightarrow> u64) \<Rightarrow> u64 \<Rightarrow> u64 \<Rightarrow> (u8 \<times> u8) list \<Rightarrow> acpi_state \<Rightarrow> bool" where
  "acpi_tables lit r p rs s \<longleftrightarrow>
     (\<Sum>i\<leftarrow>[0..<20]. acpi_mem s (r + of_nat i)) = 0 \<and>
     (rsdp_revision r (acpi_mem s) < 2 \<or>
        (\<Sum>i\<leftarrow>[0..<unat (rsdp_length r (acpi_mem s))]. acpi_mem s (r + of_nat i)) = 0) \<and>
     has_signature (lit ''RSD PTR '') 8 (acpi_mem s) r \<and> sdt (rooted r s) \<noteq> 0 \<and> p \<noteq> 0 \<and>
     signed_table lit ''APIC'' (rooted r s) (Some p) \<and>
     laid_out (acpi_mem s) (p + 44) rs \<and> unat (sdt_length p (acpi_mem s)) = 44 + total_length rs"

lemma acpi_get_sdt_signed:
  "signed_table lit name s p \<Longrightarrow> sdt s \<noteq> 0 \<Longrightarrow>
   acpi_get_sdt (lit name) s = Some (case p of Some t \<Rightarrow> t | None \<Rightarrow> 0)"
  using acpi_get_sdt_find [of "lit name" s] by (auto simp: signed_table_def)

lemma acpi_init_takes:
  assumes ok: "acpi_tables lit r p rs s"
  shows "acpi_init lit (Some r) s = Some (take_records (p + 44) rs ((rooted r s)\<lparr>madt := p\<rparr>))"
proof -
  let ?m = "acpi_mem s" and ?s = "(rooted r s)\<lparr>madt := p\<rparr>"
  have signed: "has_signature (lit ''RSD PTR '') 8 ?m r" and root: "sdt (rooted r s) \<noteq> 0" and p: "p \<noteq> 0"
    and apic: "signed_table lit ''APIC'' (rooted r s) (Some p)" and recs: "laid_out ?m (p + 44) rs"
    and len: "unat (sdt_length p ?m) = 44 + total_length rs"
    using ok by (simp_all add: acpi_tables_def)
  have "rsdp_checksum_check r ?m = SYS_OK"
    by (rule rsdp_checksum_OK) (use ok in \<open>simp_all add: acpi_tables_def\<close>)
  moreover have "memcmp r (lit ''RSD PTR '') 8 ?m = 0"
    using signed by (simp add: memcmp_zero_iff has_signature_def)
  ultimately have "acpi_init lit (Some r) s = madt_init lit (rooted r s)"
    by (simp add: acpi_init_def rooted_def Let_def)
  then have "acpi_init lit (Some r) s = madt_from (ucast (sdt_length p ?m) - sizeof_MADT) 0 ?s"
    using acpi_get_sdt_signed [OF apic root] p by (simp add: madt_init_def)
  moreover have "unat (ucast (sdt_length p ?m) - sizeof_MADT) = total_length rs"
    by (rule record_area [OF len])
  ultimately show ?thesis
    using madt_from_records [of ?s 0 rs "ucast (sdt_length p ?m) - sizeof_MADT"] recs by simp
qed

lemma take_records_root [simp]:
  "sdt (take_records p rs s) = sdt s" "use_xsdt (take_records p rs s) = use_xsdt s"
  by (induction p rs s rule: take_records.induct) (simp_all add: madt_record_def Let_def)

lemma root_entries_cong:
  "sdt s = sdt t \<Longrightarrow> use_xsdt s = use_xsdt t \<Longrightarrow> acpi_mem s = acpi_mem t \<Longrightarrow> root_entries s = root_entries t"
  by (simp add: root_entries_def sdt_entry_def sdt_entries_def)

end
