(* ===== verification/Cpu.thy ===== *)
theory Cpu
  imports Interrupts Byte_Memory
begin

text \<open>
  Processor features: \<^verbatim>\<open>kernel/src/sys/cpu.c\<close> with the tables of
  \<^verbatim>\<open>cpu_features.h\<close> and \<^verbatim>\<open>control_registers_str.h\<close>. What the
  processor answers and the compiler's header \<^verbatim>\<open>cpuid.h\<close> are the parameter \<open>hw\<close>:
  the instruction itself (\<open>raw_cpuid\<close>), the checked call \<^verbatim>\<open>__get_cpuid\<close> (\<open>get_cpuid\<close>,
  which leaves its outputs alone when it fails) and the header's signature words. Four local
  variables hold the registers; \<open>stale\<close> is what they hold before the first assignment.
\<close>

section \<open>Feature bits\<close>

definition CPUID_FEAT_ECX :: "(string \<times> nat) list" where
  "CPUID_FEAT_ECX =
    [(''SSE3'', 0), (''PCLMUL'', 1), (''DTES64'', 2), (''MONITOR'', 3), (''DS_CPL'', 4), (''VMX'', 5),
     (''SMX'', 6), (''EST'', 7), (''TM2'', 8), (''SSSE3'', 9), (''CID'', 10), (''SDBG'', 11),
     (''FMA'', 12), (''CX16'', 13), (''XTPR'', 14), (''PDCM'', 15), (''PCID'', 17), (''DCA'', 18),
     (''SSE4_1'', 19), (''SSE4_2'', 20), (''X2APIC'', 21), (''MOVBE'', 22), (''POPCNT'', 23),
     (''TSC'', 24), (''AES'', 25), (''XSAVE'', 26), (''OSXSAVE'', 27), (''AVX'', 28), (''F16C'', 29),
     (''RDRAND'', 30), (''HYPERVISOR'', 31)]"

definition CPUID_FEAT_EDX :: "(string \<times> nat) list" where
  "CPUID_FEAT_EDX =
    [(''FPU'', 0), (''VME'', 1), (''DE'', 2), (''PSE'', 3), (''TSC'', 4), (''MSR'', 5), (''PAE'', 6),
     (''MCE'', 7), (''CX8'', 8), (''APIC'', 9), (''SEP'', 11), (''MTRR'', 12), (''PGE'', 13),
     (''MCA'', 14), (''CMOV'', 15), (''PAT'', 16), (''PSE36'', 17), (''PSN'', 18), (''CLFLUSH'', 19),
     (''DS'', 21), (''ACPI'', 22), (''MMX'', 23), (''FXSR'', 24), (''SSE'', 25), (''SSE2'', 26),
     (''SS'', 27), (''HTT'', 28), (''TM'', 29), (''IA64'', 30), (''PBE'', 31)]"

definition feature_mask :: "(string \<times> nat) list \<Rightarrow> string \<Rightarrow> u32" where
  "feature_mask features name = (case map_of features name of Some n \<Rightarrow> push_bit n 1 | None \<Rightarrow> 0)"

datatype cpuid_register = CPUID_EAX | CPUID_EBX | CPUID_ECX | CPUID_EDX

record cpuid_feature =
  feature :: u32
  param :: u32
  feature_register :: cpuid_register
  feature_bits :: u32

definition cpuid_feature_apic :: cpuid_feature where
  "cpuid_feature_apic =
     \<lparr>feature = 1, param = 0, feature_register = CPUID_EDX, feature_bits = feature_mask CPUID_FEAT_EDX ''APIC''\<rparr>"

definition cpuid_feature_2xapic :: cpuid_feature where
  "cpuid_feature_2xapic =
     \<lparr>feature = 1, param = 0, feature_register = CPUID_ECX, feature_bits = feature_mask CPUID_FEAT_ECX ''X2APIC''\<rparr>"

definition cpuid_feature_pat :: cpuid_feature where
  "cpuid_feature_pat =
     \<lparr>feature = 1, param = 0, feature_register = CPUID_EDX, feature_bits = feature_mask CPUID_FEAT_EDX ''PAT''\<rparr>"

definition cpuid_feature_mtrr :: cpuid_feature where
  "cpuid_feature_mtrr =
     \<lparr>feature = 1, param = 0, feature_register = CPUID_EDX, feature_bits = feature_mask CPUID_FEAT_EDX ''MTRR''\<rparr>"

definition CR4_VALUES :: "(string \<times> nat) list" where
  "CR4_VALUES =
    [(''VIRTUAL_8086_MODE_EXTENSIONS'', 0), (''PROTECTED_MODE_VIRTUAL_INTERRUPTS'', 1), (''TIME_STAMP'', 2),
     (''DEBUGGING_EXTENSIONS'', 3), (''PAGE_SIZE_EXTENSION'', 4), (''PHYSICAL_ADDRESS_EXTENSION'', 5),
     (''MACHINE_CHECK_EXCEPTION'', 6), (''PAGE_GLOBAL_ENABLE'', 7), (''PERFORMANCE_MONITORING_COUNTER_ENABLE'', 8),
     (''FXSAVE_FXRSTOR_INSTRUCTIONS'', 9), (''UNMASKED_SIMD_FLOATING_POINT_EXCEPTIONS'', 10),
     (''USER_MODE_INSTRUCTION_PREVENTION'', 11), (''VIRTUAL_MACHINE_EXTENSION_ENABLE'', 13),
     (''SAFER_MODE_EXTENSIONS_ENABLE'', 14), (''FSGSBASE'', 16), (''PCID_ENABLE'', 17),
     (''PROCESSOR_EXTENDED_STATES_ENABLE'', 18), (''SUPERVISOR_MODE_EXECUTIONS_PROTECTION_ENABLE'', 20),
     (''SUPERVISOR_MODE_ACCESS_PROTECTION_ENABLE'', 21), (''PROTECTION_KEYS_USER_MODE'', 22),
     (''CONTROL_FLOW_ENFORCEMENT_TECHNOLOGY_ENABLE'', 23), (''PROTECTOIN_KEYS_SUPERVISOR_MODE_PAGES_ENABLE'', 24)]"

section \<open>State and registers\<close>

type_synonym registers4 = "cpuid_register \<Rightarrow> u32"

record cpu_hw =
  raw_cpuid :: "u32 \<Rightarrow> registers4"
  get_cpuid :: "u32 \<Rightarrow> registers4 option"
  stale :: registers4
  signature_INTEL_ebx :: u32
  signature_AMD_ebx :: u32

record cpu_state = irq_state +
  cpu_mem :: mem
  cr4 :: u64
  msr_low :: "u32 \<Rightarrow> u32"
  msr_high :: "u32 \<Rightarrow> u32"

abbreviation (input) MSR_PAT :: u32 where "MSR_PAT \<equiv> 0x277"

definition cpuid :: "cpu_hw \<Rightarrow> u32 \<Rightarrow> registers4 \<Rightarrow> status \<times> registers4" where
  "cpuid hw leaf registers =
     (case get_cpuid hw leaf of None \<Rightarrow> (SYS_ERR, registers) | Some r \<Rightarrow> (SYS_OK, r))"

text \<open>A model-specific register is read and written in two halves.\<close>

definition read_msr :: "u32 \<Rightarrow> 'a cpu_state_scheme \<Rightarrow> u64" where
  "read_msr n s = (let low = msr_low s n; high = msr_high s n in push_bit 32 (ucast high) OR ucast low)"

definition write_msr :: "u32 \<Rightarrow> u64 \<Rightarrow> 'a cpu_state_scheme \<Rightarrow> 'a cpu_state_scheme" where
  "write_msr n val s =
     (let low = ucast (val AND 0xFFFFFFFF); high = ucast (drop_bit 32 val AND 0xFFFFFFFF)
      in s\<lparr>msr_low := (msr_low s)(n := low), msr_high := (msr_high s)(n := high)\<rparr>)"

definition WRITE_TO_CR4_BIT :: "string \<Rightarrow> 'a cpu_state_scheme \<Rightarrow> 'a cpu_state_scheme" where
  "WRITE_TO_CR4_BIT name s =
     (case map_of CR4_VALUES name of Some n \<Rightarrow> s\<lparr>cr4 := cr4 s OR push_bit n 1\<rparr> | None \<Rightarrow> s)"

section \<open>cpu.c\<close>

text \<open>The static buffer \<^verbatim>\<open>cpu_manufacturer\<close> lies at the address \<open>manufacturer\<close>.\<close>

definition check_cpu_support :: "cpu_hw \<Rightarrow> cpuid_feature \<Rightarrow> status" where
  "check_cpu_support hw f =
     (let (_, registers) = cpuid hw (feature f) (stale hw)
      in if registers (feature_register f) AND feature_bits f \<noteq> 0 then SYS_OK else SYS_ERR)"

definition get_cpu_vendor :: "cpu_hw \<Rightarrow> (string \<Rightarrow> u64) \<Rightarrow> u64 \<Rightarrow> u64 \<Rightarrow> 'a cpu_state_scheme \<Rightarrow> 'a cpu_state_scheme" where
  "get_cpu_vendor hw lit manufacturer copy_to s =
     (let m = (if cpu_mem s manufacturer \<noteq> 0 then memcpy copy_to manufacturer 13 (cpu_mem s) else cpu_mem s);
          (ret, registers) = cpuid hw 0 (stale hw)
      in s\<lparr>cpu_mem :=
        (if ret = SYS_OK
         then let m = (if registers CPUID_EBX = signature_INTEL_ebx hw then memcpy copy_to (lit ''GenuineIntel'') 12 m
                else if registers CPUID_EBX = signature_AMD_ebx hw then memcpy copy_to (lit ''AuthenticAMD'') 12 m
                else store32 (copy_to + 4) (registers CPUID_EDX)
                      (store32 (copy_to + 8) (registers CPUID_ECX)
                        (store32 copy_to (registers CPUID_EBX) m)))
              in m(copy_to + 12 := 0)
         else memcpy copy_to (lit ''Unknown'') 13 m)\<rparr>)"

definition store_registers :: "u64 \<Rightarrow> registers4 \<Rightarrow> mem \<Rightarrow> mem" where
  "store_registers p r m =
     (let m = store32 p (r CPUID_EAX) m; m = store32 (p + 4) (r CPUID_EBX) m; m = store32 (p + 8) (r CPUID_ECX) m
      in store32 (p + 12) (r CPUID_EDX) m)"

definition get_cpu_model_name :: "cpu_hw \<Rightarrow> u64 \<Rightarrow> 'a cpu_state_scheme \<Rightarrow> 'a cpu_state_scheme" where
  "get_cpu_model_name hw copy_to s =
     (let m = store_registers copy_to (raw_cpuid hw 0x80000002) (cpu_mem s);
          m = store_registers (copy_to + 16) (raw_cpuid hw 0x80000004) m;
          m = store_registers (copy_to + 32) (raw_cpuid hw 0x80000004) m
      in s\<lparr>cpu_mem := m(copy_to + 48 := 0)\<rparr>)"

text \<open>The three results are the new contents of the variables behind the pointers.\<close>

definition get_cpu_family :: "cpu_hw \<Rightarrow> u32 \<times> u32 \<times> u32 \<Rightarrow> u32 \<times> u32 \<times> u32" where
  "get_cpu_family hw v =
     (let (f, stepping, mn) = v;
          eax = raw_cpuid hw 1 CPUID_EAX;
          family = drop_bit 8 eax AND 0xF;
          model_num = drop_bit 4 eax AND 0xF;
          stepping = eax AND 0xF;
          ext_model = drop_bit 16 eax AND 0xF;
          ext_family = drop_bit 20 eax AND 0xFF;
          f = (if family = 0xF then f + ext_family else f);
          mn = (if family = 0x6 \<or> family = 0xF then model_num + push_bit 4 ext_model else mn)
      in (f, stepping, mn))"

definition get_cpu_cache_info :: "cpu_hw \<Rightarrow> u32 \<times> u32 \<times> u32" where
  "get_cpu_cache_info hw =
     (let r = raw_cpuid hw 0x80000006
      in (r CPUID_ECX AND 0xFF, drop_bit 16 (r CPUID_ECX) AND 0xFFFF, drop_bit 18 (r CPUID_EDX) AND 0x3FFF))"

text \<open>
  The printed values, after the two strings have been put into the buffers at \<open>vendor\<close> and
  \<open>brand\<close>, both zeroed before.
\<close>

definition print_cpu_info :: "cpu_hw \<Rightarrow> (string \<Rightarrow> u64) \<Rightarrow> u64 \<Rightarrow> u64 \<Rightarrow> u64 \<Rightarrow> 'a cpu_state_scheme \<Rightarrow>
    u32 list \<times> 'a cpu_state_scheme" where
  "print_cpu_info hw lit manufacturer vendor brand s =
     (let s = s\<lparr>cpu_mem := memset brand 0 49 (memset vendor 0 13 (cpu_mem s))\<rparr>;
          s = get_cpu_vendor hw lit manufacturer vendor s;
          (family, stepping, model_number) = get_cpu_family hw (0, 0, 0);
          s = get_cpu_model_name hw brand s;
          (cache_line_size, l2_cache_size, l3_cache_size) = get_cpu_cache_info hw
      in ([family, model_number, stepping, cache_line_size, l2_cache_size, l3_cache_size], s))"

definition cpu_init :: "cpu_hw \<Rightarrow> (string \<Rightarrow> u64) \<Rightarrow> u64 \<Rightarrow> u64 \<Rightarrow> u64 \<Rightarrow> 'a cpu_state_scheme \<Rightarrow> 'a cpu_state_scheme" where
  "cpu_init hw lit manufacturer vendor brand s =
     (let s = (if check_cpu_support hw cpuid_feature_pat \<noteq> 0
               then let pat_value = read_msr MSR_PAT s;
                        pat_value = pat_value AND 0xFFFFFFFF;
                        pat_value = pat_value OR push_bit 32 1
                    in write_msr MSR_PAT pat_value s
               else s);
          s = WRITE_TO_CR4_BIT ''FXSAVE_FXRSTOR_INSTRUCTIONS'' s;
          s = WRITE_TO_CR4_BIT ''UNMASKED_SIMD_FLOATING_POINT_EXCEPTIONS'' s
      in snd (print_cpu_info hw lit manufacturer vendor brand s))"

section \<open>What the processor is set to\<close>

lemma read_write_msr [simp]:
  "read_msr n (write_msr k v s) = (if n = k then v else read_msr n s)"
proof -
  have c: "(0xFFFFFFFF :: u64) = mask 32" by (simp add: mask_eq_exp_minus_1)
  have "push_bit 32 (ucast (ucast (drop_bit 32 v AND mask 32) :: u32)) OR ucast (ucast (v AND mask 32) :: u32) = v"
    by (rule bit_word_eqI) (auto simp: bit_simps)
  then show ?thesis by (simp add: read_msr_def write_msr_def Let_def c)
qed

lemma print_cpu_info_frame [simp]:
  "cr4 (snd (print_cpu_info hw lit mf v b s)) = cr4 s"
  "read_msr n (snd (print_cpu_info hw lit mf v b s)) = read_msr n s"
  by (simp_all add: print_cpu_info_def get_cpu_vendor_def get_cpu_model_name_def get_cpu_family_def
      get_cpu_cache_info_def read_msr_def Let_def split: prod.splits)

lemma write_msr_cr4 [simp]: "cr4 (write_msr n v s) = cr4 s"
  by (simp add: write_msr_def Let_def)

lemma write_cr4_msr [simp]: "read_msr n (WRITE_TO_CR4_BIT name s) = read_msr n s"
  by (simp add: WRITE_TO_CR4_BIT_def read_msr_def split: option.splits)

lemma cpu_init_cr4: "cr4 (cpu_init hw lit mf v b s) = cr4 s OR 0x600"
  by (simp add: cpu_init_def Let_def WRITE_TO_CR4_BIT_def CR4_VALUES_def or.assoc)

lemma cpu_init_pat:
  "read_msr n (cpu_init hw lit mf v b s) =
     (if n = MSR_PAT \<and> check_cpu_support hw cpuid_feature_pat = SYS_OK
      then read_msr MSR_PAT s AND 0xFFFFFFFF OR push_bit 32 1 else read_msr n s)"
  by (auto simp: cpu_init_def Let_def check_cpu_support_def split: prod.splits)

lemma check_cpu_support_bit:
  "check_cpu_support hw f = (if (case get_cpuid hw (feature f) of Some r \<Rightarrow> r | None \<Rightarrow> stale hw)
     (feature_register f) AND feature_bits f \<noteq> 0 then SYS_OK else SYS_ERR)"
  by (simp add: check_cpu_support_def cpuid_def split: option.splits)

text \<open>The feature tables give every name its own bit.\<close>

lemma feature_tables_distinct:
  "distinct (map fst CPUID_FEAT_ECX)" "distinct (map snd CPUID_FEAT_ECX)"
  "distinct (map fst CPUID_FEAT_EDX)" "distinct (map snd CPUID_FEAT_EDX)"
  "distinct (map fst CR4_VALUES)" "distinct (map snd CR4_VALUES)"
  by code_simp+

text \<open>The family that is printed is the extended part only, and 0 for the processors without one.\<close>

lemma get_cpu_family_zero:
  "fst (get_cpu_family hw (0, 0, 0)) =
     (let eax = raw_cpuid hw 1 CPUID_EAX in if drop_bit 8 eax AND 0xF = 0xF then drop_bit 20 eax AND 0xFF else 0)"
  by (simp add: get_cpu_family_def Let_def)

end
