(* ===== verification/Hpet.thy ===== *)
theory Hpet
  imports Acpi Cpu Paging
begin

text \<open>
  The devices that processors see as memory: the state the drivers of
  \<^verbatim>\<open>hpet.c\<close> and \<^verbatim>\<open>apic.c\<close> share, and the event timer of
  \<^verbatim>\<open>kernel/src/sys/acpi/hpet.c\<close>. Its registers are volatile: every access is in the
  trace and a read has the value the hardware gives. The table that describes it is ordinary memory.
\<close>

section \<open>State\<close>

record platform_state = cpu_state +
  acpi :: acpi_state
  hpet :: u64
  hpet_sdt :: u64
  num_hpet_comparators :: u16
  hpet_period :: u64
  local_apic_base :: u64
  two_acpi_enabled :: u32
  apic_timer_enabled :: u8
  base_frequency :: u64
  divisor :: u8

abbreviation (input) VM_MMIO :: u64 where "VM_MMIO \<equiv> 0x1B"

text \<open>\<open>vm_map\<close> on the memory of the platform; \<open>func\<close> and \<open>mpe_func\<close> are the addresses of function names.\<close>

definition platform_map :: "u64 \<Rightarrow> u64 \<Rightarrow> u64 \<Rightarrow> u64 \<Rightarrow> u64 \<Rightarrow> u64 \<Rightarrow> 'a platform_state_scheme \<Rightarrow>
    'a platform_state_scheme option" where
  "platform_map func mpe_func va pa num_pages flags s =
     map_option (\<lambda>k. s\<lparr>acpi := (acpi s)\<lparr>acpi_kernel := k\<rparr>\<rparr>)
       (vm_map func mpe_func 0 va pa num_pages flags (acpi_kernel (acpi s)))"

section \<open>Structures and macros\<close>

text \<open>
  The generic address structure is not packed: the compiler aligns its 64-bit member to 8
  bytes, so that in the packed table \<^verbatim>\<open>address.address\<close> is at offset 48.
\<close>

definition hpet_comparator_count :: "u64 \<Rightarrow> mem \<Rightarrow> u8" where "hpet_comparator_count p m = m (p + 37) AND 0x1F"
definition hpet_address :: "u64 \<Rightarrow> mem \<Rightarrow> u64" where "hpet_address p m = load64 (p + 48) m"

definition general_capabilities :: "u64 \<Rightarrow> u64" where "general_capabilities h = h"
definition general_config :: "u64 \<Rightarrow> u64" where "general_config h = h + 16"
definition main_counter_value :: "u64 \<Rightarrow> u64" where "main_counter_value h = h + 240"
definition hpet_timer :: "u64 \<Rightarrow> u16 \<Rightarrow> u64" where "hpet_timer h i = h + 256 + ucast i * 32"

abbreviation (input) LONG_MODE_OPERATION :: u8 where "LONG_MODE_OPERATION \<equiv> 1"
abbreviation (input) NO_HPET_INITIALIZED :: "'a::len word" where "NO_HPET_INITIALIZED \<equiv> - 1"
abbreviation (input) ENABLE_CNF :: nat where "ENABLE_CNF \<equiv> 0"
abbreviation (input) COUNT_SIZE_CAP :: nat where "COUNT_SIZE_CAP \<equiv> 13"
abbreviation (input) LEG_RT_CAP :: nat where "LEG_RT_CAP \<equiv> 15"
abbreviation (input) HPET_MIN_COMPARATOR :: u16 where "HPET_MIN_COMPARATOR \<equiv> 3"
abbreviation (input) HPET_MAX_COMPARATOR :: u16 where "HPET_MAX_COMPARATOR \<equiv> 32"
abbreviation (input) TMR_FSB_INT_DEL_CAP :: nat where "TMR_FSB_INT_DEL_CAP \<equiv> 15"
abbreviation (input) TMR_FSB_EN_CNF :: nat where "TMR_FSB_EN_CNF \<equiv> 14"
abbreviation (input) TMR_SIZE_CAP :: nat where "TMR_SIZE_CAP \<equiv> 5"
abbreviation (input) TMR_PER_INT_CAP :: nat where "TMR_PER_INT_CAP \<equiv> 4"
abbreviation (input) TMR_INT_ENB_CNF :: nat where "TMR_INT_ENB_CNF \<equiv> 2"
abbreviation (input) TMR_INT_TYPE_CNF :: nat where "TMR_INT_TYPE_CNF \<equiv> 1"

definition GEN_CONFIG_SET :: "hardware \<Rightarrow> nat \<Rightarrow> u64 \<Rightarrow> 'a io_state_scheme \<Rightarrow> 'a io_state_scheme" where
  "GEN_CONFIG_SET dev n h s =
     (if h \<noteq> 0
      then let (v, s) = read64 dev (general_config h) s in write64 (general_config h) (v OR push_bit n 1) s
      else s)"

definition GEN_CONFIG_UNSET :: "hardware \<Rightarrow> nat \<Rightarrow> u64 \<Rightarrow> 'a io_state_scheme \<Rightarrow> 'a io_state_scheme" where
  "GEN_CONFIG_UNSET dev n h s =
     (if h \<noteq> 0
      then let (v, s) = read64 dev (general_config h) s in write64 (general_config h) (v AND push_bit n 0) s
      else s)"

definition HPET_TIMER_READ_CONFIG_CAP :: "hardware \<Rightarrow> nat \<Rightarrow> u64 \<Rightarrow> 'a io_state_scheme \<Rightarrow> u64 \<times> 'a io_state_scheme" where
  "HPET_TIMER_READ_CONFIG_CAP dev n timer s = (let (v, s) = read64 dev timer s in (v AND push_bit n 1, s))"

definition GEN_CAPABILITIES_READ :: "hardware \<Rightarrow> nat \<Rightarrow> u64 \<Rightarrow> 'a io_state_scheme \<Rightarrow> u64 \<times> 'a io_state_scheme" where
  "GEN_CAPABILITIES_READ dev n h s = (let (v, s) = read64 dev (general_capabilities h) s in (v AND push_bit n 1, s))"

definition HPET_NUM_COMPARATOR_CHECK :: "u16 \<Rightarrow> bool" where
  "HPET_NUM_COMPARATOR_CHECK num \<longleftrightarrow> num < HPET_MAX_COMPARATOR \<and> num > HPET_MIN_COMPARATOR"

section \<open>hpet.c\<close>

definition hpet_halt :: "hardware \<Rightarrow> 'a platform_state_scheme \<Rightarrow> 'a platform_state_scheme" where
  "hpet_halt dev s = GEN_CONFIG_UNSET dev ENABLE_CNF (hpet s) s"

definition hpet_enable :: "hardware \<Rightarrow> 'a platform_state_scheme \<Rightarrow> 'a platform_state_scheme" where
  "hpet_enable dev s = GEN_CONFIG_SET dev ENABLE_CNF (hpet s) s"

definition hpet_operating_mode :: "hardware \<Rightarrow> 'a platform_state_scheme \<Rightarrow> u8 \<times> 'a platform_state_scheme" where
  "hpet_operating_mode dev s =
     (if hpet s = 0 then (NO_HPET_INITIALIZED, s)
      else let (v, s) = GEN_CAPABILITIES_READ dev COUNT_SIZE_CAP (hpet s) s in (ucast v, s))"

definition hpet_read_main_counter_value :: "hardware \<Rightarrow> 'a platform_state_scheme \<Rightarrow> u64 \<times> 'a platform_state_scheme" where
  "hpet_read_main_counter_value dev s =
     (if hpet s = 0 then (NO_HPET_INITIALIZED, s)
      else let (mode, s) = hpet_operating_mode dev s
           in if mode \<noteq> LONG_MODE_OPERATION then (NO_HPET_INITIALIZED, s)
              else read64 dev (main_counter_value (hpet s)) s)"

definition hpet_read_revision_number :: "hardware \<Rightarrow> 'a platform_state_scheme \<Rightarrow> u8 \<times> 'a platform_state_scheme" where
  "hpet_read_revision_number dev s =
     (if hpet s = 0 then (NO_HPET_INITIALIZED, s)
      else let (v, s) = read64 dev (general_capabilities (hpet s)) s in (ucast (v AND 0xFF), s))"

definition hpet_find_number_timers :: "hardware \<Rightarrow> 'a platform_state_scheme \<Rightarrow> 'a platform_state_scheme" where
  "hpet_find_number_timers dev s =
     (if hpet s = 0 then s
      else let (v, s) = read64 dev (general_capabilities (hpet s)) s
           in s\<lparr>num_hpet_comparators := ucast (drop_bit 8 v AND 0xF)\<rparr>)"

definition hpet_reset_main_counter_value :: "hardware \<Rightarrow> 'a platform_state_scheme \<Rightarrow> status \<times> 'a platform_state_scheme" where
  "hpet_reset_main_counter_value dev s =
     (if hpet s = 0 then (SYS_ERR, s)
      else let s = hpet_halt dev s;
               s = write64 (main_counter_value (hpet s)) 0 s;
               (v, s) = hpet_read_main_counter_value dev s
           in (if v \<noteq> 0 then SYS_ERR else SYS_OK, s))"

text \<open>One round of the loop: the six tests of a timer's register, two of which may clear it.\<close>

definition hpet_reset_comparator :: "hardware \<Rightarrow> u64 \<Rightarrow> 'a io_state_scheme \<Rightarrow> 'a io_state_scheme" where
  "hpet_reset_comparator dev timer s =
     (let (_, s) = HPET_TIMER_READ_CONFIG_CAP dev TMR_FSB_INT_DEL_CAP timer s;
          (v, s) = HPET_TIMER_READ_CONFIG_CAP dev TMR_FSB_EN_CNF timer s;
          s = (if v \<noteq> 0 then let (c, s) = read64 dev timer s in write64 timer (c AND push_bit TMR_FSB_EN_CNF 0) s else s);
          (_, s) = HPET_TIMER_READ_CONFIG_CAP dev TMR_SIZE_CAP timer s;
          (_, s) = HPET_TIMER_READ_CONFIG_CAP dev TMR_PER_INT_CAP timer s;
          (v, s) = HPET_TIMER_READ_CONFIG_CAP dev TMR_INT_ENB_CNF timer s;
          s = (if v \<noteq> 0 then let (c, s) = read64 dev timer s in write64 timer (c AND push_bit TMR_INT_ENB_CNF 0) s else s);
          (_, s) = HPET_TIMER_READ_CONFIG_CAP dev TMR_INT_TYPE_CNF timer s
      in s)"

definition hpet_reset_comparators :: "hardware \<Rightarrow> 'a platform_state_scheme \<Rightarrow> status \<times> 'a platform_state_scheme" where
  "hpet_reset_comparators dev s =
     (if hpet s = 0 then (SYS_ERR, s)
      else (SYS_OK, fold (\<lambda>i s. hpet_reset_comparator dev (hpet_timer (hpet s) (of_nat i)) s)
              [0..<unat (num_hpet_comparators s)] s))"

text \<open>
  Neither \<^verbatim>\<open>HPET_LONG_MODE\<close> nor \<^verbatim>\<open>HPET_LONE_MODE\<close> is defined, so the two conditional
  blocks are not compiled. A period of 0 is a division error, after which nothing runs.
\<close>

definition hpet_init :: "hardware \<Rightarrow> (string \<Rightarrow> u64) \<Rightarrow> u64 \<Rightarrow> u64 \<Rightarrow> 'a platform_state_scheme \<Rightarrow>
    (status \<times> 'a platform_state_scheme) option" where
  "hpet_init dev lit func mpe_func s = do {
     p \<leftarrow> acpi_get_sdt (lit ''HPET'') (acpi s);
     let s = s\<lparr>hpet_sdt := p\<rparr>;
     if hpet_sdt s = 0 then Some (SYS_ERR, s\<lparr>hpet_sdt := 0\<rparr>)
     else do {
       let a = hpet_address (hpet_sdt s) (acpi_mem (acpi s));
       s \<leftarrow> platform_map func mpe_func (PHYS_TO_VIRT a) a 1 VM_MMIO s;
       let s = s\<lparr>hpet := PHYS_TO_VIRT (hpet_address (hpet_sdt s) (acpi_mem (acpi s)))\<rparr>;
       let (v, s) = GEN_CAPABILITIES_READ dev LEG_RT_CAP (hpet s) s;
       if v = 0 then Some (SYS_ERR, s\<lparr>hpet := 0, hpet_sdt := 0\<rparr>)
       else do {
         let s = s\<lparr>num_hpet_comparators := ucast (hpet_comparator_count (hpet_sdt s) (acpi_mem (acpi s))) + 1\<rparr>;
         if HPET_NUM_COMPARATOR_CHECK (num_hpet_comparators s) then Some (SYS_ERR, s\<lparr>hpet := 0, hpet_sdt := 0\<rparr>)
         else do {
           let (_, s) = hpet_reset_comparators dev s;
           let (v, s) = read64 dev (general_capabilities (hpet s)) s;
           let counter_clk_period = drop_bit 32 v;
           if counter_clk_period = 0 then None
           else Some (SYS_OK, hpet_enable dev (s\<lparr>hpet_period := counter_clk_period div 1000000\<rparr>))
         }
       }
     }
   }"

section \<open>What the routines achieve\<close>

fun last_write64 :: "u64 \<Rightarrow> io list \<Rightarrow> u64 option" where
  "last_write64 a [] = None"
| "last_write64 a (Write64 b v # t) = (if b = a then Some v else last_write64 a t)"
| "last_write64 a (_ # t) = last_write64 a t"

text \<open>Bit 13 does not survive the conversion of the mode to 8 bits.\<close>

lemma mode_byte: "(ucast (v AND 8192 :: u64) :: u8) = 0"
proof -
  have "unat (8192 :: u8) = 0" by simp
  then have z: "(8192 :: u8) = 0" by (simp only: unat_eq_zero)
  have "(ucast (v AND 8192) :: u8) = ucast v AND 8192" by (simp add: unsigned_and_eq)
  also have "\<dots> = 0" by (simp only: z and_zero_eq)
  finally show ?thesis .
qed

lemma hpet_operating_mode_never_long:
  "\<exists>t. hpet_operating_mode dev s = (if hpet s = 0 then 255 else 0, t) \<and>
     last_write64 a (trace t) = last_write64 a (trace s) \<and> hpet t = hpet s"
  by (simp add: hpet_operating_mode_def GEN_CAPABILITIES_READ_def read64_def mode_byte)

lemma counter_never_read:
  "\<exists>t. hpet_read_main_counter_value dev s = (- 1, t) \<and> last_write64 a (trace t) = last_write64 a (trace s) \<and> hpet t = hpet s"
proof (cases "hpet s = 0")
  case True
  then show ?thesis by (simp add: hpet_read_main_counter_value_def)
next
  case False
  obtain t where "hpet_operating_mode dev s = (0, t)" "last_write64 a (trace t) = last_write64 a (trace s)" "hpet t = hpet s"
    using hpet_operating_mode_never_long [of dev s a] False by auto
  then show ?thesis using False by (simp add: hpet_read_main_counter_value_def)
qed

lemma hpet_halt_clears:
  "hpet s \<noteq> 0 \<Longrightarrow> last_write64 (hpet s + 16) (trace (hpet_halt dev s)) = Some 0 \<and> hpet (hpet_halt dev s) = hpet s"
  by (simp add: hpet_halt_def GEN_CONFIG_UNSET_def read64_def write64_def general_config_def)

lemma reset_counter_fails:
  "\<exists>t. hpet_reset_main_counter_value dev s = (SYS_ERR, t) \<and> hpet t = hpet s \<and>
     (if hpet s = 0 then trace t = trace s
      else last_write64 (hpet s + 16) (trace t) = Some 0 \<and> last_write64 (hpet s + 240) (trace t) = Some 0)"
proof (cases "hpet s = 0")
  case True
  then show ?thesis by (simp add: hpet_reset_main_counter_value_def)
next
  case False
  define s1 where "s1 = write64 (hpet s + 240) 0 (hpet_halt dev s)"
  have s1: "hpet s1 = hpet s" "last_write64 (hpet s + 16) (trace s1) = Some 0" "last_write64 (hpet s + 240) (trace s1) = Some 0"
    using hpet_halt_clears [OF False] by (simp_all add: s1_def write64_def)
  obtain t where t: "hpet_read_main_counter_value dev s1 = (- 1, t)"
    and same: "\<And>a. last_write64 a (trace t) = last_write64 a (trace s1)" "hpet t = hpet s1"
    using counter_never_read [of dev s1] by (metis Pair_inject)
  have "hpet_reset_main_counter_value dev s = (SYS_ERR, t)"
    using False hpet_halt_clears [OF False, of dev]
    by (simp add: hpet_reset_main_counter_value_def main_counter_value_def s1_def [symmetric] t)
  then show ?thesis using False s1 same by simp
qed

text \<open>
  Which tables \<open>hpet_init\<close> accepts: between 1 and 3 comparators or 32 of them, and a counter
  that can replace the legacy timer.
\<close>

lemma comparator_check: "HPET_NUM_COMPARATOR_CHECK n \<longleftrightarrow> 3 < unat n \<and> unat n < 32"
  by (auto simp: HPET_NUM_COMPARATOR_CHECK_def word_less_nat_alt)

lemma hpet_init_rejects:
  assumes sdt: "acpi_get_sdt (lit ''HPET'') (acpi s) = Some p"
  shows "p = 0 \<Longrightarrow> hpet_init dev lit func mpe_func s = Some (SYS_ERR, s\<lparr>hpet_sdt := 0\<rparr>)"
    and "p \<noteq> 0 \<Longrightarrow>
      platform_map func mpe_func (PHYS_TO_VIRT (hpet_address p (acpi_mem (acpi s)))) (hpet_address p (acpi_mem (acpi s))) 1 0x1B
        (s\<lparr>hpet_sdt := p\<rparr>) = Some s1 \<Longrightarrow> hpet_sdt s1 = p \<Longrightarrow>
      \<not> bit (dev (trace s1) (Read64 (PHYS_TO_VIRT (hpet_address p (acpi_mem (acpi s1)))))) 15 \<Longrightarrow>
      \<exists>t. hpet_init dev lit func mpe_func s = Some (SYS_ERR, t) \<and> hpet t = 0 \<and> hpet_sdt t = 0"
proof -
  show "p = 0 \<Longrightarrow> hpet_init dev lit func mpe_func s = Some (SYS_ERR, s\<lparr>hpet_sdt := 0\<rparr>)"
    by (simp add: hpet_init_def sdt)
  have z: "v AND 32768 = 0" if "\<not> bit v 15" for v :: u64
    using that and_exp_eq_0_iff_not_bit [of v 15] by simp
  assume "p \<noteq> 0" and map: "platform_map func mpe_func (PHYS_TO_VIRT (hpet_address p (acpi_mem (acpi s))))
      (hpet_address p (acpi_mem (acpi s))) 1 0x1B (s\<lparr>hpet_sdt := p\<rparr>) = Some s1"
    and p: "hpet_sdt s1 = p" and "\<not> bit (dev (trace s1) (Read64 (PHYS_TO_VIRT (hpet_address p (acpi_mem (acpi s1)))))) 15"
  then show "\<exists>t. hpet_init dev lit func mpe_func s = Some (SYS_ERR, t) \<and> hpet t = 0 \<and> hpet_sdt t = 0"
    by (simp add: hpet_init_def sdt Let_def GEN_CAPABILITIES_READ_def read64_def general_capabilities_def z)
qed

end
