(* ===== verification/Apic.thy ===== *)
theory Apic
  imports Hpet
begin

text \<open>
  The processor-local interrupt controller: \<^verbatim>\<open>kernel/src/sys/acpi/apic.c\<close>, and the
  second clock handler of \<^verbatim>\<open>kernel/src/sys/tick/clkhandler.c\<close> that runs when its
  timer is the system timer. The registers are volatile memory at \<open>local_apic_base\<close>.
\<close>

section \<open>Constants\<close>

abbreviation (input) APIC_LAPIC_VERSION_REG :: u16 where "APIC_LAPIC_VERSION_REG \<equiv> 0x030"
abbreviation (input) APIC_EOI_REG :: u16 where "APIC_EOI_REG \<equiv> 0x0B0"
abbreviation (input) APIC_SPURIOUS_INT_VEC_REG :: u16 where "APIC_SPURIOUS_INT_VEC_REG \<equiv> 0x0F0"
abbreviation (input) APIC_ERROR_STATUS_REG :: u16 where "APIC_ERROR_STATUS_REG \<equiv> 0x280"
abbreviation (input) APIC_INT_CMD_LOW_REG :: u16 where "APIC_INT_CMD_LOW_REG \<equiv> 0x300"
abbreviation (input) APIC_INT_CMD_HIGH_REG :: u16 where "APIC_INT_CMD_HIGH_REG \<equiv> 0x310"
abbreviation (input) APIC_LVT_TMR_REG :: u16 where "APIC_LVT_TMR_REG \<equiv> 0x320"
abbreviation (input) APIC_INIT_COUNT_REG :: u16 where "APIC_INIT_COUNT_REG \<equiv> 0x380"
abbreviation (input) APIC_CURRENT_COUNT_REG :: u16 where "APIC_CURRENT_COUNT_REG \<equiv> 0x390"
abbreviation (input) APIC_DIVIDE_CONFIG_REG :: u16 where "APIC_DIVIDE_CONFIG_REG \<equiv> 0x3E0"
abbreviation (input) APIC_SPURIOUS_INT_NUM :: u32 where "APIC_SPURIOUS_INT_NUM \<equiv> 0x27"
abbreviation (input) APIC_ENABLE :: u32 where "APIC_ENABLE \<equiv> 0x100"
abbreviation (input) APIC_TIMER_MASKED :: u32 where "APIC_TIMER_MASKED \<equiv> 0x10000"
abbreviation (input) APIC_TIMER_PERIODIC :: u32 where "APIC_TIMER_PERIODIC \<equiv> 0x20000"
abbreviation (input) APIC_HW_INT_NUM :: u32 where "APIC_HW_INT_NUM \<equiv> 32"
abbreviation (input) IA32_APIC_BASE_MSR :: u32 where "IA32_APIC_BASE_MSR \<equiv> 0x1B"
abbreviation (input) IA32_APIC_BASE_MSR_ENABLE :: u32 where "IA32_APIC_BASE_MSR_ENABLE \<equiv> 0x800"
abbreviation (input) IA32_APIC_BASE_MSR_X2APIC :: u32 where "IA32_APIC_BASE_MSR_X2APIC \<equiv> 0x400"
abbreviation (input) UINT32_MAX :: u32 where "UINT32_MAX \<equiv> 0xFFFFFFFF"

datatype apic_tmr_mode = APIC_ONE_SHOT_MODE | APIC_PERIODIC_MODE

section \<open>Initialisation\<close>

definition check_apic_exists :: "cpu_hw \<Rightarrow> status" where
  "check_apic_exists hw = check_cpu_support hw cpuid_feature_apic"

definition check_2xapic_exists :: "cpu_hw \<Rightarrow> status" where
  "check_2xapic_exists hw = check_cpu_support hw cpuid_feature_2xapic"

definition apic_write_reg :: "u16 \<Rightarrow> u32 \<Rightarrow> 'a platform_state_scheme \<Rightarrow> 'a platform_state_scheme" where
  "apic_write_reg offset v s = (if local_apic_base s = 0 then s else write32 (local_apic_base s + ucast offset) v s)"

definition apic_read_reg :: "hardware \<Rightarrow> u16 \<Rightarrow> 'a platform_state_scheme \<Rightarrow> u32 \<times> 'a platform_state_scheme" where
  "apic_read_reg dev offset s =
     (if local_apic_base s = 0 then (- 1, s) else read32 dev (local_apic_base s + ucast offset) s)"

definition apic_send_end_of_interrupt :: "'a platform_state_scheme \<Rightarrow> 'a platform_state_scheme" where
  "apic_send_end_of_interrupt s = (if apic_timer_enabled s \<noteq> 0 then apic_write_reg APIC_EOI_REG 0 s else s)"

definition apic_send_ipi :: "u8 \<Rightarrow> u8 \<Rightarrow> u32 \<Rightarrow> 'a platform_state_scheme \<Rightarrow> 'a platform_state_scheme" where
  "apic_send_ipi processor vec mtype s =
     (let s = apic_write_reg APIC_INT_CMD_HIGH_REG (push_bit 24 (ucast processor)) s
      in apic_write_reg APIC_INT_CMD_LOW_REG (push_bit 8 mtype OR ucast vec) s)"

definition apic_reset_error_reg :: "hardware \<Rightarrow> 'a platform_state_scheme \<Rightarrow> status \<times> 'a platform_state_scheme" where
  "apic_reset_error_reg dev s =
     (let s = apic_write_reg APIC_ERROR_STATUS_REG 0x1 s;
          (v, s) = apic_read_reg dev APIC_ERROR_STATUS_REG s
      in (if drop_bit 1 v AND 0x1 = 0 then 1 else 0, s))"

text \<open>The eight error bits are tested one after the other; any of them stops the machine.\<close>

definition apic_check_error_reg :: "hardware \<Rightarrow> 'a platform_state_scheme \<Rightarrow> 'a platform_state_scheme option" where
  "apic_check_error_reg dev s =
     (let (v, s) = apic_read_reg dev APIC_ERROR_STATUS_REG s
      in if drop_bit 0 v AND 0x1 \<noteq> 0 then halt s
         else if drop_bit 1 v AND 0x1 \<noteq> 0 then halt s
         else if drop_bit 2 v AND 0x1 \<noteq> 0 then halt s
         else if drop_bit 3 v AND 0x1 \<noteq> 0 then halt s
         else if drop_bit 4 v AND 0x1 \<noteq> 0 then halt s
         else if drop_bit 5 v AND 0x1 \<noteq> 0 then halt s
         else if drop_bit 6 v AND 0x1 \<noteq> 0 then halt s
         else if drop_bit 7 v AND 0x1 \<noteq> 0 then halt s
         else Some s)"

definition apic_enable :: "'a platform_state_scheme \<Rightarrow> 'a platform_state_scheme" where
  "apic_enable s = apic_write_reg APIC_SPURIOUS_INT_VEC_REG (APIC_ENABLE OR APIC_SPURIOUS_INT_NUM) s"

definition apic_init :: "hardware \<Rightarrow> cpu_hw \<Rightarrow> u64 \<Rightarrow> u64 \<Rightarrow> 'a platform_state_scheme \<Rightarrow> 'a platform_state_scheme option" where
  "apic_init dev hw func mpe_func s =
     (let apic_base_msr = (ucast (read_msr IA32_APIC_BASE_MSR s) :: u32)
      in if check_2xapic_exists hw = 0 \<and> check_apic_exists hw = 0 then halt s
         else let s = (if apic_base_msr AND IA32_APIC_BASE_MSR_ENABLE \<noteq> 0
                       then s\<lparr>two_acpi_enabled := apic_base_msr AND IA32_APIC_BASE_MSR_X2APIC\<rparr> else s)
         in if two_acpi_enabled s \<noteq> 0 then halt s
         else do {
           let s = s\<lparr>local_apic_base := PHYS_TO_VIRT (madt_get_local_apic_base (acpi s))\<rparr>;
           let (_, s) = apic_reset_error_reg dev s;
           s \<leftarrow> platform_map func mpe_func (local_apic_base s) (VIRT_TO_PHYS (local_apic_base s)) 1 VM_MMIO s;
           let s = apic_enable s;
           let (_, s) = apic_read_reg dev APIC_LAPIC_VERSION_REG s;
           apic_check_error_reg dev s
         })"

section \<open>The timer\<close>

definition apic_timer_stop :: "hardware \<Rightarrow> 'a platform_state_scheme \<Rightarrow> 'a platform_state_scheme" where
  "apic_timer_stop dev s =
     (let (v, s) = apic_read_reg dev APIC_LVT_TMR_REG s;
          s = apic_write_reg APIC_LVT_TMR_REG (v OR APIC_TIMER_MASKED) s;
          s = pic_restore_mask s
      in s\<lparr>apic_timer_enabled := 0\<rparr>)"

definition apic_timer_start :: "hardware \<Rightarrow> 'a platform_state_scheme \<Rightarrow> 'a platform_state_scheme" where
  "apic_timer_start dev s =
     (let (m, s) = pic_get_mask dev s;
          s = (if m \<noteq> 0xFFFF then pic_mask 0 (pic_save_mask dev s) else s);
          s = irq_register_handler 0 CLKHANDLER_TWO s;
          (v, s) = apic_read_reg dev APIC_LVT_TMR_REG s;
          s = apic_write_reg APIC_LVT_TMR_REG (v AND NOT APIC_TIMER_MASKED) s
      in s\<lparr>apic_timer_enabled := 1\<rparr>)"

text \<open>A zero divisor is a division error, after which nothing runs.\<close>

definition apic_timer_set_freq :: "u64 \<Rightarrow> 'a platform_state_scheme \<Rightarrow> 'a platform_state_scheme option" where
  "apic_timer_set_freq freq s =
     (if freq * ucast (divisor s) = 0 then None
      else Some (apic_write_reg APIC_INIT_COUNT_REG (ucast (base_frequency s div (freq * ucast (divisor s)))) s))"

definition apic_timer_set_mode :: "hardware \<Rightarrow> apic_tmr_mode \<Rightarrow> 'a platform_state_scheme \<Rightarrow> 'a platform_state_scheme" where
  "apic_timer_set_mode dev mode s =
     (let (v, s) = apic_read_reg dev APIC_LVT_TMR_REG s
      in if mode = APIC_PERIODIC_MODE then apic_write_reg APIC_LVT_TMR_REG (v OR APIC_TIMER_PERIODIC) s
         else apic_write_reg APIC_LVT_TMR_REG (v AND NOT APIC_TIMER_PERIODIC) s)"

definition apic_timer_enable :: "'a platform_state_scheme \<Rightarrow> 'a platform_state_scheme" where
  "apic_timer_enable s =
     (let s = apic_write_reg APIC_LVT_TMR_REG (APIC_TIMER_MASKED OR APIC_HW_INT_NUM) s;
          s = apic_write_reg APIC_DIVIDE_CONFIG_REG 0x1 s
      in apic_write_reg APIC_INIT_COUNT_REG UINT32_MAX s)"

definition apic_timer_int_is_delivered :: "hardware \<Rightarrow> 'a platform_state_scheme \<Rightarrow> u8 \<times> 'a platform_state_scheme" where
  "apic_timer_int_is_delivered dev s =
     (let (v, s) = apic_read_reg dev APIC_LVT_TMR_REG s in (ucast (drop_bit 11 v AND 0xF), s))"

text \<open>
  The sleep of one tick takes the values of the system time from \<open>reads\<close>, as in the clock.
  The counter difference is computed in 32 bits.
\<close>

definition apic_timer_init :: "hardware \<Rightarrow> (nat \<Rightarrow> u64) \<Rightarrow> 'a platform_state_scheme \<Rightarrow> 'a platform_state_scheme option" where
  "apic_timer_init dev reads s = do {
     let (_, s) = apic_reset_error_reg dev s;
     let s = s\<lparr>divisor := 4\<rparr>;
     let s = apic_timer_enable s;
     k \<leftarrow> system_timer_sleep reads 1;
     let s = s\<lparr>system_time := reads k\<rparr>;
     let (v, s) = apic_read_reg dev APIC_CURRENT_COUNT_REG s;
     let s = s\<lparr>base_frequency := ucast ((UINT32_MAX - v) * 2 * ucast (divisor s))\<rparr>;
     s \<leftarrow> apic_timer_set_freq (base_frequency s) s;
     let s = apic_timer_set_mode dev APIC_PERIODIC_MODE s;
     let s = apic_timer_start dev s;
     apic_check_error_reg dev s
   }"

section \<open>The second clock handler\<close>

definition clkhandler_two :: "hardware \<Rightarrow> 'a platform_state_scheme \<Rightarrow> 'a platform_state_scheme" where
  "clkhandler_two dev s =
     (let s = s\<lparr>system_time := system_time s + 1\<rparr>;
          s = s\<lparr>preempt_quantum := preempt_quantum s - 1\<rparr>;
          s = (if preempt_quantum s \<le> 0 then s\<lparr>preempt_quantum := QUANTUM\<rparr> else s);
          (_, s) = apic_timer_int_is_delivered dev s;
          s = apic_send_end_of_interrupt s;
          (_, s) = apic_timer_int_is_delivered dev s
      in s)"

section \<open>The last value of a register\<close>

fun last_write32 :: "u64 \<Rightarrow> io list \<Rightarrow> u32 option" where
  "last_write32 a [] = None"
| "last_write32 a (Write32 b v # t) = (if b = a then Some v else last_write32 a t)"
| "last_write32 a (_ # t) = last_write32 a t"

lemma apic_write_frame [simp]:
  "local_apic_base (apic_write_reg r v s) = local_apic_base s" "divisor (apic_write_reg r v s) = divisor s"
  "base_frequency (apic_write_reg r v s) = base_frequency s" "g_pic_mask (apic_write_reg r v s) = g_pic_mask s"
  "g_irq_handler (apic_write_reg r v s) = g_irq_handler s" "acpi (apic_write_reg r v s) = acpi s"
  "system_time (apic_write_reg r v s) = system_time s" "apic_timer_enabled (apic_write_reg r v s) = apic_timer_enabled s"
  by (simp_all add: apic_write_reg_def write32_def)

lemma last_write32_write [simp]:
  "last_write32 a (trace (apic_write_reg r v s)) =
     (if local_apic_base s \<noteq> 0 \<and> local_apic_base s + ucast r = a then Some v else last_write32 a (trace s))"
  by (simp add: apic_write_reg_def write32_def)

lemma apic_read_reg_case:
  assumes "apic_read_reg dev r s = (v, t)"
  shows "local_apic_base t = local_apic_base s" "divisor t = divisor s" "base_frequency t = base_frequency s"
    "g_pic_mask t = g_pic_mask s" "g_irq_handler t = g_irq_handler s" "acpi t = acpi s"
    "system_time t = system_time s" "apic_timer_enabled t = apic_timer_enabled s"
    "last_write32 a (trace t) = last_write32 a (trace s)"
  using assms by (auto simp: apic_read_reg_def read32_def split: if_splits)

lemma last_write32_pic [simp]:
  "last_write32 a (trace (pic_set_mask k s)) = last_write32 a (trace s)"
  "last_write32 a (trace (snd (pic_get_mask dev s))) = last_write32 a (trace s)"
  "last_write32 a (trace (pic_save_mask dev s)) = last_write32 a (trace s)"
  by (simp_all add: pic_set_mask_def pic_get_mask_def pic_save_mask_def io_wait_def outb_def inb_def Let_def)

lemma pic_frame [simp]:
  "local_apic_base (pic_set_mask k s) = local_apic_base s" "base_frequency (pic_set_mask k s) = base_frequency s"
  "local_apic_base (pic_save_mask dev s) = local_apic_base s" "base_frequency (pic_save_mask dev s) = base_frequency s"
  "local_apic_base (snd (pic_get_mask dev s)) = local_apic_base s" "base_frequency (snd (pic_get_mask dev s)) = base_frequency s"
  "g_irq_handler (pic_set_mask k s) = g_irq_handler s" "g_irq_handler (pic_save_mask dev s) = g_irq_handler s"
  "g_irq_handler (snd (pic_get_mask dev s)) = g_irq_handler s"
  by (simp_all add: pic_set_mask_def pic_get_mask_def pic_save_mask_def io_wait_def outb_def inb_def Let_def)

section \<open>Errors, interrupts between processors, end of interrupt\<close>

lemma error_bits:
  "drop_bit n v AND 1 \<noteq> 0 \<longleftrightarrow> bit v n" for v :: "'a::len word"
  by (simp add: and_one_eq bit_iff_odd_drop_bit odd_iff_mod_2_eq_one)

lemma apic_check_error_reg_iff:
  "apic_check_error_reg dev s = (let (v, t) = apic_read_reg dev 0x280 s
     in if v AND 0xFF = 0 then Some t else None)"
proof -
  obtain v t where r: "apic_read_reg dev 0x280 s = (v, t)" by fastforce
  have m: "(0xFF :: u32) = mask 8" by (simp add: mask_eq_exp_minus_1)
  have "v AND 0xFF = 0 \<longleftrightarrow> (\<forall>n < 8. \<not> bit v n)"
    unfolding m
  proof
    assume z: "v AND mask 8 = 0"
    have "\<not> bit v n" if "n < 8" for n
    proof -
      have "\<not> bit (v AND mask 8) n" by (simp add: z)
      then show ?thesis using that by (simp add: bit_simps)
    qed
    then show "\<forall>n < 8. \<not> bit v n" by blast
  next
    assume "\<forall>n < 8. \<not> bit v n"
    then show "v AND mask 8 = 0" by (intro bit_word_eqI) (auto simp: bit_simps)
  qed
  also have "\<dots> \<longleftrightarrow> \<not> bit v 0 \<and> \<not> bit v 1 \<and> \<not> bit v 2 \<and> \<not> bit v 3 \<and> \<not> bit v 4 \<and> \<not> bit v 5 \<and> \<not> bit v 6 \<and> \<not> bit v 7"
    by (auto simp: eval_nat_numeral All_less_Suc)
  finally show ?thesis
    by (simp only: apic_check_error_reg_def r Let_def case_prod_conv halt_def error_bits) simp
qed

text \<open>The destination is written before the command, which starts the transmission.\<close>

lemma apic_send_ipi_trace:
  "local_apic_base s \<noteq> 0 \<Longrightarrow> trace (apic_send_ipi processor vec mtype s) =
     Write32 (local_apic_base s + 0x300) (push_bit 8 mtype OR ucast vec) #
     Write32 (local_apic_base s + 0x310) (push_bit 24 (ucast processor)) # trace s"
  by (simp add: apic_send_ipi_def apic_write_reg_def write32_def Let_def)

lemma apic_end_of_interrupt_trace:
  "trace (apic_send_end_of_interrupt s) =
     (if apic_timer_enabled s \<noteq> 0 \<and> local_apic_base s \<noteq> 0
      then Write32 (local_apic_base s + 0xB0) 0 # trace s else trace s)"
  by (simp add: apic_send_end_of_interrupt_def apic_write_reg_def write32_def)

section \<open>What the timer is programmed to\<close>

lemma set_freq_zero:
  "apic_timer_set_freq (base_frequency s) s = Some t \<Longrightarrow> 1 < divisor s \<Longrightarrow> unat (base_frequency s) < 2 ^ 32 \<Longrightarrow>
   base_frequency s \<noteq> 0 \<and> t = apic_write_reg 0x380 0 s"
proof -
  let ?f = "base_frequency s" and ?d = "ucast (divisor s) :: u64"
  assume ret: "apic_timer_set_freq ?f s = Some t" and d: "1 < divisor s" and f: "unat ?f < 2 ^ 32"
  have nz: "?f * ?d \<noteq> 0" and t: "t = apic_write_reg 0x380 (ucast (?f div (?f * ?d))) s"
    using ret by (auto simp: apic_timer_set_freq_def split: if_splits)
  have "unat (divisor s) < 2 ^ LENGTH(8)" by (rule unsigned_less)
  moreover have u: "unat ?d = unat (divisor s)" by (rule unat_widen) simp
  ultimately have "unat ?f * unat ?d < 2 ^ 32 * 2 ^ 8"
    using f by (intro mult_strict_mono) simp_all
  then have m: "unat (?f * ?d) = unat ?f * unat ?d" by (simp add: unat_word_ariths)
  have f0: "0 < unat ?f" using nz by (metis gr0I mult_zero_left unat_eq_zero)
  moreover have "1 < unat ?d" using d by (simp add: u word_less_nat_alt)
  ultimately have "unat ?f < unat ?f * unat ?d" by simp
  then have "unat (?f div (?f * ?d)) = 0" by (simp add: unat_div m)
  then have "?f div (?f * ?d) = 0" by (simp add: unat_eq_zero)
  then show "?f \<noteq> 0 \<and> t = apic_write_reg 0x380 0 s" using t nz by auto
qed

text \<open>
  Starting the timer ends with the initial count 0, with which the timer does not run; the
  frequency computed from the counter is never 0 (that would be a division error).
\<close>

lemma apic_timer_start_frame:
  "last_write32 (local_apic_base s + 0x380) (trace (apic_timer_start dev s)) =
     last_write32 (local_apic_base s + 0x380) (trace s)"
  "base_frequency (apic_timer_start dev s) = base_frequency s"
  "g_irq_handler (apic_timer_start dev s) = (g_irq_handler s)[0 := Some CLKHANDLER_TWO]"
  "local_apic_base (apic_timer_start dev s) = local_apic_base s"
proof -
  obtain m s1 where m: "pic_get_mask dev s = (m, s1)" by fastforce
  define s2 where "s2 = irq_register_handler 0 CLKHANDLER_TWO (if m \<noteq> 0xFFFF then pic_mask 0 (pic_save_mask dev s1) else s1)"
  obtain v s3 where r: "apic_read_reg dev 0x320 s2 = (v, s3)" by fastforce
  have s: "apic_timer_start dev s = apic_write_reg 0x320 (v AND NOT 0x10000) s3\<lparr>apic_timer_enabled := 1\<rparr>"
    unfolding apic_timer_start_def m Let_def case_prod_conv s2_def [symmetric] r ..
  have s1: "s1 = snd (pic_get_mask dev s)" by (simp add: m)
  note fr = apic_read_reg_case [OF r]
  show "last_write32 (local_apic_base s + 0x380) (trace (apic_timer_start dev s)) =
     last_write32 (local_apic_base s + 0x380) (trace s)"
    by (simp add: s fr s2_def s1 irq_register_handler_def pic_mask_def)
  show "base_frequency (apic_timer_start dev s) = base_frequency s"
    "g_irq_handler (apic_timer_start dev s) = (g_irq_handler s)[0 := Some CLKHANDLER_TWO]"
    "local_apic_base (apic_timer_start dev s) = local_apic_base s"
    by (simp_all add: s fr s2_def s1 irq_register_handler_def pic_mask_def)
qed

lemma apic_timer_set_mode_frame:
  "last_write32 (local_apic_base s + 0x380) (trace (apic_timer_set_mode dev mode s)) =
     last_write32 (local_apic_base s + 0x380) (trace s)"
  "base_frequency (apic_timer_set_mode dev mode s) = base_frequency s"
  "local_apic_base (apic_timer_set_mode dev mode s) = local_apic_base s"
  "g_irq_handler (apic_timer_set_mode dev mode s) = g_irq_handler s"
proof -
  obtain v s1 where r: "apic_read_reg dev 0x320 s = (v, s1)" by fastforce
  note fr = apic_read_reg_case [OF r]
  show "last_write32 (local_apic_base s + 0x380) (trace (apic_timer_set_mode dev mode s)) =
     last_write32 (local_apic_base s + 0x380) (trace s)"
    "base_frequency (apic_timer_set_mode dev mode s) = base_frequency s"
    "local_apic_base (apic_timer_set_mode dev mode s) = local_apic_base s"
    "g_irq_handler (apic_timer_set_mode dev mode s) = g_irq_handler s"
    by (simp_all add: apic_timer_set_mode_def r fr)
qed

lemma apic_check_error_reg_frame:
  assumes "apic_check_error_reg dev s = Some t"
  shows "last_write32 a (trace t) = last_write32 a (trace s)" "base_frequency t = base_frequency s"
    "g_irq_handler t = g_irq_handler s" "local_apic_base t = local_apic_base s"
  using assms by (auto simp: apic_check_error_reg_iff apic_read_reg_case split: prod.splits if_splits)

lemma apic_reset_error_reg_frame:
  assumes "apic_reset_error_reg dev s = (r, t)"
  shows "local_apic_base t = local_apic_base s" "g_irq_handler t = g_irq_handler s"
  using assms by (auto simp: apic_reset_error_reg_def Let_def apic_read_reg_case split: prod.splits)

lemma apic_timer_init_cases:
  assumes ret: "apic_timer_init dev reads s = Some t" and base: "local_apic_base s \<noteq> 0"
  shows "last_write32 (local_apic_base s + 0x380) (trace t) = Some 0"
    "g_irq_handler t = (g_irq_handler s)[0 := Some CLKHANDLER_TWO]"
    "\<exists>v :: u32. base_frequency t = ucast ((0xFFFFFFFF - v) * 8) \<and> (0xFFFFFFFF - v) * 8 \<noteq> 0"
proof -
  obtain r s0 where s0: "apic_reset_error_reg dev s = (r, s0)" by fastforce
  define s1 where "s1 = apic_timer_enable (s0\<lparr>divisor := 4\<rparr>)"
  obtain k where k: "system_timer_sleep reads 1 = Some k"
    using ret by (auto simp: apic_timer_init_def s0 bind_eq_Some_conv)
  obtain v s2 where s2: "apic_read_reg dev 0x390 (s1\<lparr>system_time := reads k\<rparr>) = (v, s2)" by fastforce
  define f :: u32 where "f = (0xFFFFFFFF - v) * 2 * ucast (divisor s2)"
  define s3 where "s3 = s2\<lparr>base_frequency := ucast f\<rparr>"
  obtain s4 where s4: "apic_timer_set_freq (base_frequency s3) s3 = Some s4"
    and t: "apic_check_error_reg dev (apic_timer_start dev (apic_timer_set_mode dev APIC_PERIODIC_MODE s4)) = Some t"
    using ret by (auto simp: apic_timer_init_def s0 k s1_def [symmetric] s2 f_def s3_def bind_eq_Some_conv)
  note fr = apic_read_reg_case [OF s2] apic_reset_error_reg_frame [OF s0] apic_check_error_reg_frame [OF t]
    apic_timer_start_frame apic_timer_set_mode_frame
  have d: "divisor s3 = 4" by (simp add: s3_def fr s1_def apic_timer_enable_def Let_def)
  have b3: "local_apic_base s3 = local_apic_base s" "g_irq_handler s3 = g_irq_handler s"
    by (simp_all add: s3_def fr s1_def apic_timer_enable_def Let_def)
  have "unat f < 2 ^ LENGTH(32)" by (rule unsigned_less)
  moreover have "unat (ucast f :: u64) = unat f" by (rule unat_widen) simp
  ultimately have z: "ucast f \<noteq> (0 :: u64)" "s4 = apic_write_reg 0x380 0 s3"
    using set_freq_zero [OF s4] by (simp_all add: d) (simp_all add: s3_def)
  have fv: "f = (0xFFFFFFFF - v) * 8"
    using d by (simp add: f_def s3_def mult.assoc)
  have "last_write32 (local_apic_base s + 0x380) (trace s4) = Some 0"
    using base by (simp add: z(2) b3)
  then show "last_write32 (local_apic_base s + 0x380) (trace t) = Some 0"
    using apic_check_error_reg_frame(1) [OF t, of "local_apic_base s + 0x380"] apic_timer_start_frame(1) [of "apic_timer_set_mode dev APIC_PERIODIC_MODE s4" dev]
      apic_timer_set_mode_frame(1) [of s4 dev APIC_PERIODIC_MODE]
    by (simp add: apic_timer_set_mode_frame z(2) b3)
  show "g_irq_handler t = (g_irq_handler s)[0 := Some CLKHANDLER_TWO]"
    by (simp add: fr z(2) b3)
  have "base_frequency t = ucast f" by (simp add: fr z(2)) (simp add: s3_def)
  moreover have "f \<noteq> 0" using z(1) by auto
  ultimately show "\<exists>v :: u32. base_frequency t = ucast ((0xFFFFFFFF - v) * 8) \<and> (0xFFFFFFFF - v) * 8 \<noteq> 0"
    using fv by auto
qed

end
