(* ===== verification/Boot_Files.thy ===== *)
theory Boot_Files
  imports Kmalloc Screen
begin

text \<open>
  Files of the system image and the font: \<^verbatim>\<open>kernel/src/init/{iso_file,psf,boot_info}.c\<close>,
  and the two helpers that print memory, \<^verbatim>\<open>kernel/src/util\<close>. The boot loader's answer
  is \<^verbatim>\<open>NULL\<close> or a list of modules; of a file the code uses the pointer itself, its path
  and its address (the structure belongs to the boot loader's header).
\<close>

section \<open>iso_file.c\<close>

record limine_file =
  file_pointer :: u64
  file_path :: u64
  file_address :: u64

text \<open>The comparison loop, from the last characters backwards; it may run out of the strings.\<close>

partial_function (option) ends_from :: "u64 \<Rightarrow> u64 \<Rightarrow> u64 \<Rightarrow> u64 \<Rightarrow> mem \<Rightarrow> int option" where
  "ends_from str_start end_start str e m =
     (if m str \<noteq> m e then Some 0
      else let str = str - 1; e = e - 1
           in if e = end_start \<or> (str = str_start \<and> e = end_start) then Some 1
              else if str = str_start then Some 0
              else ends_from str_start end_start str e m)"

definition check_string_ending :: "u64 \<Rightarrow> u64 \<Rightarrow> mem \<Rightarrow> int option" where
  "check_string_ending str ending m = do {
     s \<leftarrow> strlen_from str m;
     e \<leftarrow> strlen_from ending m;
     ends_from str ending (s - 1) (e - 1) m
   }"

text \<open>The file found, or \<^verbatim>\<open>NULL\<close>; halting and not returning have no value.\<close>

primrec find_file :: "u64 \<Rightarrow> limine_file list \<Rightarrow> mem \<Rightarrow> limine_file option option" where
  "find_file name [] m = Some None"
| "find_file name (f # fs) m = do {
     r \<leftarrow> check_string_ending (file_path f) name m;
     if r \<noteq> 0 then Some (Some f) else find_file name fs m
   }"

definition get_iso_file :: "u64 \<Rightarrow> limine_file list option \<Rightarrow> mem \<Rightarrow> limine_file option option" where
  "get_iso_file name response m =
     (case response of None \<Rightarrow> None | Some modules \<Rightarrow> find_file name modules m)"

section \<open>psf.c\<close>

abbreviation (input) PSF1_SUCCESS :: int where "PSF1_SUCCESS \<equiv> 0"
abbreviation (input) NOT_PSF1 :: int where "NOT_PSF1 \<equiv> 1"
abbreviation (input) PSF1_FAIL :: int where "PSF1_FAIL \<equiv> 2"
abbreviation (input) PSF1_FULL_MAGIC :: u16 where "PSF1_FULL_MAGIC \<equiv> 0x0436"
abbreviation (input) sizeof_PSF1_HEADER :: u64 where "sizeof_PSF1_HEADER \<equiv> 4"

record font_state =
  font_kernel :: kstate
  psf_font :: psf1_font

definition load16 :: "u64 \<Rightarrow> mem \<Rightarrow> u16" where
  "load16 a m = ucast (load_le 2 a m)"

definition store16 :: "u64 \<Rightarrow> u16 \<Rightarrow> mem \<Rightarrow> mem" where
  "store16 a v m = store_le 2 a (ucast v) m"

definition PSF1_MAGIC_CHECK :: "u16 \<Rightarrow> bool" where
  "PSF1_MAGIC_CHECK x \<longleftrightarrow> x AND 0xFFFF = PSF1_FULL_MAGIC"

text \<open>\<open>func\<close> is the address of the name of the allocating function, for the heap's metadata.\<close>

definition psf1_font_mode :: "u64 \<Rightarrow> font_state \<Rightarrow> (status \<times> font_state) option" where
  "psf1_font_mode func s = do {
     (p, k) \<leftarrow> kmalloc_impl 256 func 20 (font_kernel s);
     Some (SYS_OK, s\<lparr>font_kernel := k, psf_font := (psf_font s)\<lparr>glyph_buffer := p\<rparr>\<rparr>)
   }"

definition copy_header :: "u64 \<Rightarrow> u64 \<Rightarrow> mem \<Rightarrow> mem" where
  "copy_header dst h m =
     (let m = store16 dst (load16 h m) m; m = m(dst + 2 := m (h + 2)) in m(dst + 3 := m (h + 3)))"

definition psf1_get_glyphs :: "u64 \<Rightarrow> limine_file \<Rightarrow> font_state \<Rightarrow> (int \<times> font_state) option" where
  "psf1_get_glyphs func file s =
     (let h = file_address file;
          dst = font_header (psf_font s);
          s = s\<lparr>font_kernel := (font_kernel s)\<lparr>ram := copy_header dst h (ram (font_kernel s))\<rparr>\<rparr>
      in if \<not> PSF1_MAGIC_CHECK (load16 dst (ram (font_kernel s))) then Some (NOT_PSF1, s)
         else do {
           (r, s) \<leftarrow> psf1_font_mode func s;
           if r = SYS_ERR then Some (PSF1_FAIL, s)
           else Some (PSF1_SUCCESS, s\<lparr>psf_font := (psf_font s)\<lparr>glyph_buffer := file_address file + sizeof_PSF1_HEADER\<rparr>\<rparr>)
         })"

definition psf1_font_init :: "u64 \<Rightarrow> u64 \<Rightarrow> limine_file list option \<Rightarrow> u64 \<Rightarrow> font_state \<Rightarrow> font_state option" where
  "psf1_font_init func mode_func response path s =
     (case response of
        None \<Rightarrow> None
      | Some _ \<Rightarrow> do {
          (p, k) \<leftarrow> kmalloc_impl sizeof_PSF1_HEADER func 74 (font_kernel s);
          let s = s\<lparr>font_kernel := k, psf_font := (psf_font s)\<lparr>font_header := p\<rparr>\<rparr>;
          if font_header (psf_font s) = 0 then Some s
          else do {
            file \<leftarrow> get_iso_file path response (ram (font_kernel s));
            case file of
              None \<Rightarrow> None
            | Some f \<Rightarrow> do {
                (r, s) \<leftarrow> psf1_get_glyphs mode_func f s;
                if r \<noteq> PSF1_SUCCESS then None else Some s
              }
          }
        })"

section \<open>boot_info.c\<close>

text \<open>The response is \<^verbatim>\<open>NULL\<close> or the name and the version, which are printed.\<close>

definition print_boot_info :: "(u64 \<times> u64) option \<Rightarrow> status" where
  "print_boot_info response = (case response of None \<Rightarrow> SYS_ERR | Some _ \<Rightarrow> SYS_OK)"

section \<open>Printing memory\<close>

text \<open>The frames printed by \<open>stack_walk\<close>: number and address; \<open>n\<close> rounds are left.\<close>

primrec stack_walk_from :: "nat \<Rightarrow> nat \<Rightarrow> u64 \<Rightarrow> mem \<Rightarrow> (nat \<times> u64) list" where
  "stack_walk_from 0 i ptr m = []"
| "stack_walk_from (Suc n) i ptr m =
     (i, ptr) #
     (let ptr = load64 (ptr + 8) m
      in if load64 ptr m < 0xFFFFFFFF80000000 then [(i + 1, ptr)] else stack_walk_from n (i + 1) ptr m)"

definition stack_walk :: "u64 \<Rightarrow> u8 \<Rightarrow> mem \<Rightarrow> (nat \<times> u64) list" where
  "stack_walk rbp depth m = stack_walk_from (unat depth) 0 rbp m"

text \<open>The lines of \<open>walk_memory\<close>: offset, address and contents, from the highest down.\<close>

definition walk_memory :: "u64 \<Rightarrow> u8 \<Rightarrow> mem \<Rightarrow> (int \<times> u64 \<times> u64) list" where
  "walk_memory rsp depth m =
     map (\<lambda>i. let p = rsp + of_int i * 8 in (8 * i, p, load64 p m)) (rev [- int (unat depth)..int (unat depth)])"

section \<open>Which endings are found\<close>

text \<open>A string of bytes other than 0 at an address, with its terminator.\<close>

definition string_at :: "mem \<Rightarrow> u64 \<Rightarrow> u8 list \<Rightarrow> bool" where
  "string_at m p cs \<longleftrightarrow> length cs < 2 ^ 64 \<and> m (p + of_nat (length cs)) = 0 \<and>
     (\<forall>i \<in> set [0..<length cs]. m (p + of_nat i) = cs ! i \<and> cs ! i \<noteq> 0)"

lemma string_at_nth: "string_at m p cs \<Longrightarrow> i < length cs \<Longrightarrow> m (p + of_nat i) = cs ! i"
  by (simp add: string_at_def)

lemma strlen_from_string_at: "string_at m p cs \<Longrightarrow> strlen_from p m = Some (p + of_nat (length cs))"
  by (rule strlen_from_Some) (simp_all add: string_at_def)

lemma ends_from_compare:
  assumes a: "string_at m p a" and b: "string_at m q b"
  shows "0 < i \<Longrightarrow> i < length a \<Longrightarrow> 0 < l \<Longrightarrow> l < length b \<Longrightarrow>
    ends_from p q (p + of_nat i) (q + of_nat l) m =
      Some (if l \<le> i \<and> (\<forall>d < l. a ! (i - d) = b ! (l - d)) then 1 else 0)"
proof (induction l arbitrary: i)
  case 0
  then show ?case by simp
next
  case (Suc l)
  then obtain j where i: "i = Suc j" by (cases i) auto
  have chars: "m (p + of_nat i) = a ! i" "m (q + of_nat (Suc l)) = b ! Suc l"
    using Suc.prems a b by (simp_all add: string_at_nth del: of_nat_Suc)
  have prev: "p + of_nat i - 1 = p + of_nat j" "q + of_nat (Suc l) - 1 = q + of_nat l" by (simp_all add: i)
  have small: "j < 2 ^ 64" "l < 2 ^ 64" using Suc.prems a b by (auto simp: string_at_def i)
  then have zero: "(of_nat j :: u64) = 0 \<longleftrightarrow> j = 0" "(of_nat l :: u64) = 0 \<longleftrightarrow> l = 0"
    by (simp_all only: word_unat_eq_iff unat_of_nat64 unat_0)
  show ?case
  proof (cases "a ! i = b ! Suc l")
    case False
    then have "\<not> (\<forall>d < Suc l. a ! (i - d) = b ! (Suc l - d))" by force
    moreover have "ends_from p q (p + of_nat i) (q + of_nat (Suc l)) m = Some 0"
      using False by (subst ends_from.simps) (simp only: chars, simp)
    ultimately show ?thesis by simp
  next
    case eq: True
    have all: "(\<forall>d < Suc l. a ! (i - d) = b ! (Suc l - d)) \<longleftrightarrow> (\<forall>d < l. a ! (j - d) = b ! (l - d))"
      using eq by (auto simp: i less_Suc_eq_0_disj)
    have run: "ends_from p q (p + of_nat i) (q + of_nat (Suc l)) m =
        (if l = 0 then Some 1 else if j = 0 then Some 0 else ends_from p q (p + of_nat j) (q + of_nat l) m)"
      by (subst ends_from.simps) (simp only: chars prev Let_def, simp add: eq zero)
    show ?thesis
      using Suc.IH [of j] Suc.prems unfolding run all by (auto simp: i)
  qed
qed

lemma same_tails:
  fixes a b :: "'c list"
  assumes "length b \<le> length a" and "2 \<le> length b"
  shows "(\<forall>d < length b - 1. a ! (length a - 1 - d) = b ! (length b - 1 - d)) \<longleftrightarrow>
    drop (length a - length b + 1) a = tl b" (is "?l \<longleftrightarrow> ?r")
proof
  assume ?l
  show ?r
  proof (rule nth_equalityI)
    show "length (drop (length a - length b + 1) a) = length (tl b)" using assms by simp
    fix i assume "i < length (drop (length a - length b + 1) a)"
    then have i: "i < length b - 1" using assms by simp
    let ?d = "length b - 2 - i"
    have "?d < length b - 1" "length a - 1 - ?d = length a - length b + 1 + i" "length b - 1 - ?d = Suc i"
      using i assms by linarith+
    then have "a ! (length a - length b + 1 + i) = b ! Suc i" using \<open>?l\<close> by metis
    then show "drop (length a - length b + 1) a ! i = tl b ! i" using i assms by (simp add: nth_tl)
  qed
next
  assume r: ?r
  show ?l
  proof (intro allI impI)
    fix d assume d: "d < length b - 1"
    let ?i = "length b - 2 - d"
    have i: "?i < length b - 1" "length a - 1 - d = length a - length b + 1 + ?i" "length b - 1 - d = Suc ?i"
      using d assms by linarith+
    have "a ! (length a - length b + 1 + ?i) = drop (length a - length b + 1) a ! ?i" using i(1) assms by simp
    also have "\<dots> = b ! Suc ?i" unfolding r using i(1) by (simp add: nth_tl)
    finally show "a ! (length a - 1 - d) = b ! (length b - 1 - d)" by (simp only: i)
  qed
qed

lemma check_string_ending_at:
  assumes a: "string_at m p a" "2 \<le> length a" and b: "string_at m q b" "2 \<le> length b"
  shows "check_string_ending p q m =
    Some (if length b \<le> length a \<and> drop (length a - length b + 1) a = tl b then 1 else 0)"
proof -
  have last: "p + of_nat (length a) - 1 = p + of_nat (length a - 1)" "q + of_nat (length b) - 1 = q + of_nat (length b - 1)"
    using a(2) b(2) by (simp_all add: of_nat_diff)
  have "(\<forall>d < length b - 1. a ! (length a - 1 - d) = b ! (length b - 1 - d)) \<longleftrightarrow>
      drop (length a - length b + 1) a = tl b" if "length b \<le> length a"
    using that b(2) by (rule same_tails)
  moreover have "length b - 1 \<le> length a - 1 \<longleftrightarrow> length b \<le> length a" using a(2) b(2) by linarith
  ultimately show ?thesis
    using ends_from_compare [OF a(1) b(1), of "length a - 1" "length b - 1"] a b
    by (auto simp: check_string_ending_def strlen_from_string_at last)
qed

end
