(* ===== verification/Platform_Properties.thy ===== *)
theory Platform_Properties
  imports Apic Boot_Files
begin

text \<open>
  What holds of the platform tables and the processor-local devices they describe, with a
  concrete set of tables in memory on which the statements are evaluated.
\<close>

section \<open>Tables in memory\<close>

definition bytes_at :: "(u64 \<times> u8) list \<Rightarrow> mem" where
  "bytes_at content x = (case map_of content x of Some b \<Rightarrow> b | None \<Rightarrow> 0)"

text \<open>
  A root pointer at \<open>0x100\<close> and the literals at \<open>0x200\<close> and \<open>0x300\<close>; in the direct map
  the root table at \<open>0x1000\<close>, with one entry, and the table of the interrupt controllers at
  \<open>0x2000\<close>, with one processor, one I/O controller and a record of another type.
\<close>

definition example_tables :: mem where
  "example_tables = bytes_at
     [(0x100, 0x52), (0x101, 0x53), (0x102, 0x44), (0x103, 0x20), (0x104, 0x50), (0x105, 0x54),
      (0x106, 0x52), (0x107, 0x20), (0x108, 0xD1), (0x111, 0x10), (0x200, 0x52), (0x201, 0x53),
      (0x202, 0x44), (0x203, 0x20), (0x204, 0x50), (0x205, 0x54), (0x206, 0x52), (0x207, 0x20),
      (0x300, 0x41), (0x301, 0x50), (0x302, 0x49), (0x303, 0x43), (0xFFFF800000001004, 0x28),
      (0xFFFF800000001025, 0x20), (0xFFFF800000002000, 0x41), (0xFFFF800000002001, 0x50),
      (0xFFFF800000002002, 0x49), (0xFFFF800000002003, 0x43), (0xFFFF800000002004, 0x4A),
      (0xFFFF80000000202D, 0x8), (0xFFFF800000002034, 0x1), (0xFFFF800000002035, 0xC),
      (0xFFFF800000002040, 0x2), (0xFFFF800000002041, 0xA)]"

definition example_literals :: "string \<Rightarrow> u64" where
  "example_literals s = (if s = ''APIC'' then 0x300 else 0x200)"

definition example_acpi :: acpi_state where
  "example_acpi = \<lparr>acpi_kernel = \<lparr>ram = example_tables,
     kmem = \<lparr>physical_limit = 0, total_size = 0, free_size = 0, bitmap = 0\<rparr>,
     global_mem_map = \<lparr>vlength = 0, vcapacity = 0, vdata = 0\<rparr>,
     kernel_addr_space = \<lparr>pml4 = 0, memory_list = \<lparr>vlength = 0, vcapacity = 0, vdata = 0\<rparr>, as_lock = LOCK_NEW\<rparr>,
     kmalloc_checkno = 0, cr3 = 0, invlpg_log = []\<rparr>, sdt = 0, use_xsdt = False, madt = 0,
     num_local_apic = 0, local_apics = replicate 256 0, num_io_apics = 0, io_apics = replicate 4 0\<rparr>"

section \<open>Finding the interrupt controllers\<close>

text \<open>
  C37. ACPI start-up. If the bytes of the root pointer add up to 0 (the 20 bytes of version
  1, and from revision 2 on also all of its declared length), it is signed \<open>RSD PTR\<close> and
  some table listed in its root table (8-byte entries in revision 2, 4-byte entries otherwise)
  is signed \<open>APIC\<close>, and that table is a sequence of records of non-zero length that adds up to its
  size, then \<open>acpi_init\<close> returns: the first table so signed is taken, the kernel's array
  of local controllers holds the addresses of the first 256 records of type 0, that of I/O
  controllers those of the first 3 of type 1, in the order of the table, and the counters are the
  numbers of entries.
\<close>

theorem acpi_init_correct:
  fixes s :: acpi_state and lit :: "string \<Rightarrow> u64" and p r :: u64 and rs :: "(u8 \<times> u8) list"
  defines "m \<equiv> acpi_mem s"
    and "root \<equiv> (if rsdp_revision r (acpi_mem s) = 2
       then s\<lparr>sdt := PHYS_TO_VIRT (rsdp_xsdt_address r (acpi_mem s)), use_xsdt := True\<rparr>
       else s\<lparr>sdt := PHYS_TO_VIRT (ucast (rsdp_rsdt_address r (acpi_mem s))), use_xsdt := False\<rparr>)"
  assumes sum: "(\<Sum>i\<leftarrow>[0..<20]. m (r + of_nat i)) = 0"
    and sum2: "rsdp_revision r m < 2 \<or> (\<Sum>i\<leftarrow>[0..<unat (rsdp_length r m)]. m (r + of_nat i)) = 0"
    and signed: "has_signature (lit ''RSD PTR '') 8 m r"
    and ptrs: "sdt root \<noteq> 0" "lit ''APIC'' \<noteq> 0" "p \<noteq> 0" and name: "strlen (lit ''APIC'') m = Some n"
    and found: "find (has_signature (lit ''APIC'') n m) (root_entries root) = Some p"
    and records: "laid_out m (p + 44) rs" "unat (sdt_length p m) = 44 + total_length rs"
    and fresh: "num_local_apic s = 0" "num_io_apics s = 0"
    and arrays: "length (local_apics s) = 256" "length (io_apics s) = 4"
  shows "\<exists>t. acpi_init lit (Some r) s = Some t \<and> madt t = p \<and> acpi_kernel t = acpi_kernel s \<and>
    take (unat (num_local_apic t)) (local_apics t) = take 256 (addresses 0 (p + 44) rs) \<and>
    unat (num_local_apic t) = min 256 (length (addresses 0 (p + 44) rs)) \<and>
    take (unat (num_io_apics t)) (io_apics t) = take 3 (addresses 1 (p + 44) rs) \<and>
    unat (num_io_apics t) = min 3 (length (addresses 1 (p + 44) rs))"
proof -
  let ?s = "root\<lparr>madt := p\<rparr>"
  have root: "acpi_kernel root = acpi_kernel s" "ram (acpi_kernel s) = m" "num_local_apic root = 0" "num_io_apics root = 0"
    "local_apics root = local_apics s" "io_apics root = io_apics s"
    by (simp_all add: root_def m_def fresh)
  have r: "rooted r s = root" by (simp add: rooted_def root_def)
  have "acpi_tables lit r p rs s"
    using sum sum2 signed ptrs name found records
    by (auto simp: acpi_tables_def signed_table_def r root m_def [symmetric])
  then have ret: "acpi_init lit (Some r) s = Some (take_records (p + 44) rs ?s)"
    using acpi_init_takes [of lit r p rs s] by (simp add: r)
  have "tracked ?s [] []"
    by (simp add: tracked_def collected_def root arrays)
  then have "tracked (take_records (p + 44) rs ?s) (addresses 0 (p + 44) rs) (addresses 1 (p + 44) rs)"
    using take_records_tracked [of ?s "p + 44" rs "[]" "[]"] records(1) by (simp add: root)
  then show ?thesis
    using ret by (auto simp: tracked_def collected_def root)
qed

theorem acpi_init_correct_witness:
  "\<exists>t. acpi_init example_literals (Some 0x100) example_acpi = Some t \<and>
     take (unat (num_local_apic t)) (local_apics t) = [MEM_VIRT_OFFSET + 0x202C] \<and>
     take (unat (num_io_apics t)) (io_apics t) = [MEM_VIRT_OFFSET + 0x2034]"
proof -
  let ?p = "PHYS_TO_VIRT 0x2000"
  let ?root = "example_acpi\<lparr>sdt := PHYS_TO_VIRT 0x1000, use_xsdt := False\<rparr>"
  have rev: "rsdp_revision 0x100 (acpi_mem example_acpi) = 0" by code_simp
  have rsdt: "rsdp_rsdt_address 0x100 (acpi_mem example_acpi) = 0x1000" by code_simp
  have lits: "example_literals ''APIC'' = 0x300" "example_literals ''RSD PTR '' = 0x200" by code_simp+
  have a: "(\<Sum>i\<leftarrow>[0..<20]. acpi_mem example_acpi (0x100 + of_nat i)) = 0" by code_simp
  have b: "has_signature (example_literals ''RSD PTR '') 8 (acpi_mem example_acpi) 0x100" by code_simp
  have c: "strlen (example_literals ''APIC'') (acpi_mem example_acpi) = Some 4"
  proof -
    have "acpi_mem example_acpi (0x300 + 4) = 0 \<and> (\<forall>k \<in> set [0..<4]. acpi_mem example_acpi (0x300 + of_nat k) \<noteq> 0)"
      by code_simp
    then show ?thesis by (simp add: strlen_Some_iff lits)
  qed
  have d: "find (has_signature (example_literals ''APIC'') 4 (acpi_mem example_acpi)) (root_entries ?root) = Some ?p"
    by code_simp
  have e: "laid_out (acpi_mem example_acpi) (?p + 44) [(0, 8), (1, 12), (2, 10)]" by code_simp
  have f: "unat (sdt_length ?p (acpi_mem example_acpi)) = 44 + total_length [(0, 8), (1, 12), (2, 10)]" by code_simp
  have g: "sdt ?root \<noteq> 0" "?p \<noteq> 0" by code_simp+
  have h: "num_local_apic example_acpi = 0" "num_io_apics example_acpi = 0"
    "length (local_apics example_acpi) = 256" "length (io_apics example_acpi) = 4"
    by (simp_all add: example_acpi_def)
  have i: "addresses 0 (?p + 44) [(0, 8), (1, 12), (2, 10)] = [MEM_VIRT_OFFSET + 0x202C]"
    "addresses 1 (?p + 44) [(0, 8), (1, 12), (2, 10)] = [MEM_VIRT_OFFSET + 0x2034]" by code_simp+
  show ?thesis
    using acpi_init_correct [of example_acpi "0x100" example_literals ?p 4 "[(0, 8), (1, 12), (2, 10)]"]
      a b c d e f g h i by (auto simp: rev rsdt lits)
qed

section \<open>The timer of the local controller\<close>

text \<open>
  C38. The start of the local timer. When \<open>apic_timer_init\<close> returns, the timer's handler is
  registered for line 0, but the last value written to the initial-count register is 0, with which
  the timer stands still: the measured frequency, 8 times the counter difference in 32 bits and
  never 0, is divided by 4 times itself.
\<close>

theorem apic_timer_stands_still:
  fixes dev :: hardware and reads :: "nat \<Rightarrow> u64" and s t :: "'a platform_state_scheme"
  assumes "apic_timer_init dev reads s = Some t" and "local_apic_base s \<noteq> 0"
  shows "last_write32 (local_apic_base s + 0x380) (trace t) = Some 0 \<and>
    g_irq_handler t = (g_irq_handler s)[0 := Some CLKHANDLER_TWO] \<and>
    (\<exists>v :: u32. base_frequency t = ucast ((0xFFFFFFFF - v) * 8) \<and> (0xFFFFFFFF - v) * 8 \<noteq> 0)"
  using apic_timer_init_cases [OF assms] by blast

definition quiet_platform :: platform_state where
  "quiet_platform =
     \<lparr>trace = [], interrupts_on = True, g_pic_mask = 0xFFFC, system_time = 0, preempt_quantum = 5,
      g_idt = [], idt_loaded = True, g_isr_handlers = [], g_irq_handler = [Some CLKHANDLER, Some KBHANDLER],
      cpu_mem = (\<lambda>_. 0), cr4 = 0, msr_low = (\<lambda>_. 0x900), msr_high = (\<lambda>_. 0), acpi = example_acpi,
      hpet = 0, hpet_sdt = 0, num_hpet_comparators = 32, hpet_period = 0,
      local_apic_base = 0xFFFF8000FEE00000, two_acpi_enabled = 0, apic_timer_enabled = 0,
      base_frequency = 0, divisor = 0\<rparr>"

definition counting_device :: hardware where
  "counting_device t a = (case a of Read32 r \<Rightarrow> (if r = 0xFFFF8000FEE00390 then 0xFFFF0000 else 0) | _ \<Rightarrow> 0)"

theorem apic_timer_stands_still_witness:
  "\<exists>t. apic_timer_init counting_device (\<lambda>n. of_nat n) quiet_platform = Some t \<and>
     last_write32 0xFFFF8000FEE00380 (trace t) = Some 0"
proof -
  have k: "system_timer_sleep (\<lambda>n. of_nat n) 1 = Some 1"
    by (simp add: system_timer_sleep_def Let_def) (subst sleep_from.simps, simp)
  have b: "local_apic_base quiet_platform = 0xFFFF8000FEE00000" by (simp add: quiet_platform_def)
  have "\<not> Option.is_none (apic_timer_init counting_device (\<lambda>n. of_nat n) quiet_platform)"
    unfolding apic_timer_init_def k bind.bind_lunit by code_simp
  then obtain t where t: "apic_timer_init counting_device (\<lambda>n. of_nat n) quiet_platform = Some t"
    by (auto simp: Option.is_none_def)
  show ?thesis using apic_timer_stands_still [OF t] t by (simp add: b)
qed

section \<open>The event timer\<close>

text \<open>
  C40. Resetting the main counter of the event timer. Whatever the hardware answers,
  \<open>hpet_reset_main_counter_value\<close> reports an error: the capability bit it tests does not fit
  into the 8 bits of the mode. With a timer present it has by then stopped it (its configuration
  register is 0) and zeroed the counter; without one it has accessed no device.
\<close>

theorem hpet_counter_reset_fails:
  "\<exists>t. hpet_reset_main_counter_value dev s = (SYS_ERR, t) \<and> hpet t = hpet s \<and>
     (if hpet s = 0 then trace t = trace s
      else last_write64 (hpet s + 16) (trace t) = Some 0 \<and> last_write64 (hpet s + 240) (trace t) = Some 0)"
  by (rule reset_counter_fails)

section \<open>Finding a file\<close>

text \<open>
  C39. The search for a file by the end of its path. For strings of at least two characters
  \<open>check_string_ending\<close> always returns, and answers 1 exactly when the string is no shorter than
  the ending and ends in all of it but its first character, which is never compared.
\<close>

theorem check_string_ending_correct:
  fixes m :: mem and p q :: u64 and a b :: "u8 list"
  assumes a: "string_at m p a" "2 \<le> length a" and b: "string_at m q b" "2 \<le> length b"
  shows "check_string_ending p q m =
    Some (if length b \<le> length a \<and> drop (length a - length b + 1) a = tl b then 1 else 0)"
  using assms by (rule check_string_ending_at)

definition example_strings :: mem where
  "example_strings = bytes_at [(0x10, 0x2F), (0x11, 0x7A), (0x12, 0x62), (0x20, 0x61), (0x21, 0x7A), (0x22, 0x62)]"

theorem check_string_ending_correct_witness: "check_string_ending 0x10 0x20 example_strings = Some 1"
proof -
  have "string_at example_strings 0x10 [0x2F, 0x7A, 0x62]" "string_at example_strings 0x20 [0x61, 0x7A, 0x62]"
    unfolding string_at_def by (intro conjI; (simp; fail)?; code_simp)+
  then show ?thesis
    using check_string_ending_correct [of example_strings "0x10" "[0x2F, 0x7A, 0x62]" "0x20" "[0x61, 0x7A, 0x62]"] by simp
qed

end
