(* ===== verification/System_Init.thy ===== *)
theory System_Init
  imports Kernel_Space Gdt Console Rtc Pci Screen Keyboard Apic Boot_Files
begin

text \<open>
  Start-up: \<^verbatim>\<open>system_init\<close> of \<^verbatim>\<open>kernel/src/init/init.c\<close> and \<^verbatim>\<open>_start\<close>
  of \<^verbatim>\<open>kernel/src/kernel.c\<close>, which compose the initialisation routines of all components
  on one global state.
\<close>

section \<open>The state of the whole kernel\<close>

text \<open>
  The globals of all components. There is one memory, that of \<open>acpi_kernel\<close>; a component
  whose state has a copy of the memory gets it for the time of a call.
\<close>

record kernel_system = platform_state +
  sys_serial_faulty :: bool
  sys_gdt :: "gdt_table list"
  sys_num_gdt :: nat
  sys_gdtr :: "(u16 \<times> nat) option"
  sys_boot_time :: cmos
  sys_devices :: "pci_device list"
  initial_fb :: framebuffer
  sys_font :: psf1_font
  sys_keyboard :: keyboard_mouse
  sys_term :: terminal

definition kernel_of :: "'a platform_state_scheme \<Rightarrow> kstate" where
  "kernel_of s = acpi_kernel (acpi s)"

definition set_kernel :: "kstate \<Rightarrow> 'a platform_state_scheme \<Rightarrow> 'a platform_state_scheme" where
  "set_kernel k s = s\<lparr>acpi := (acpi s)\<lparr>acpi_kernel := k\<rparr>\<rparr>"

abbreviation memory :: "'a platform_state_scheme \<Rightarrow> mem" where "memory s \<equiv> ram (kernel_of s)"

definition set_memory :: "mem \<Rightarrow> 'a platform_state_scheme \<Rightarrow> 'a platform_state_scheme" where
  "set_memory m s = set_kernel ((kernel_of s)\<lparr>ram := m\<rparr>) s"

text \<open>A routine of one component as a routine of the whole.\<close>

definition on_kernel :: "(kstate \<Rightarrow> kstate option) \<Rightarrow> kernel_system \<Rightarrow> kernel_system option" where
  "on_kernel f s = map_option (\<lambda>k. set_kernel k s) (f (kernel_of s))"

definition on_acpi :: "(acpi_state \<Rightarrow> acpi_state option) \<Rightarrow> kernel_system \<Rightarrow> kernel_system option" where
  "on_acpi f s = map_option (\<lambda>a. s\<lparr>acpi := a\<rparr>) (f (acpi s))"

definition on_cpu :: "(kernel_system \<Rightarrow> kernel_system) \<Rightarrow> kernel_system \<Rightarrow> kernel_system" where
  "on_cpu f s = (let s = f (s\<lparr>cpu_mem := memory s\<rparr>) in set_memory (cpu_mem s) s)"

definition on_serial :: "(serial_state \<Rightarrow> 'r \<times> serial_state) \<Rightarrow> kernel_system \<Rightarrow> 'r \<times> kernel_system" where
  "on_serial f s =
     (let (r, t) = f \<lparr>trace = trace s, interrupts_on = interrupts_on s, serial_faulty = sys_serial_faulty s\<rparr>
      in (r, s\<lparr>trace := trace t, interrupts_on := interrupts_on t, sys_serial_faulty := serial_faulty t\<rparr>))"

definition on_gdt :: "(gdt_state \<Rightarrow> gdt_state option) \<Rightarrow> kernel_system \<Rightarrow> kernel_system option" where
  "on_gdt f s =
     map_option (\<lambda>t. s\<lparr>trace := trace t, interrupts_on := interrupts_on t, sys_gdt := g_gdt t,
         sys_num_gdt := num_gdt t, sys_gdtr := gdtr t\<rparr>)
       (f \<lparr>trace = trace s, interrupts_on = interrupts_on s, g_gdt = sys_gdt s, num_gdt = sys_num_gdt s,
          gdtr = sys_gdtr s\<rparr>)"

definition on_rtc :: "(rtc_state \<Rightarrow> rtc_state option) \<Rightarrow> kernel_system \<Rightarrow> kernel_system option" where
  "on_rtc f s =
     map_option (\<lambda>t. s\<lparr>trace := trace t, interrupts_on := interrupts_on t, sys_boot_time := boot_time t\<rparr>)
       (f \<lparr>trace = trace s, interrupts_on = interrupts_on s, boot_time = sys_boot_time s\<rparr>)"

definition on_pci :: "(pci_state \<Rightarrow> pci_state option) \<Rightarrow> kernel_system \<Rightarrow> kernel_system option" where
  "on_pci f s =
     map_option (\<lambda>t. s\<lparr>trace := trace t, interrupts_on := interrupts_on t, sys_devices := device_list t\<rparr>)
       (f \<lparr>trace = trace s, interrupts_on = interrupts_on s, device_list = sys_devices s\<rparr>)"

definition on_font :: "(font_state \<Rightarrow> font_state option) \<Rightarrow> kernel_system \<Rightarrow> kernel_system option" where
  "on_font f s =
     map_option (\<lambda>t. set_kernel (font_kernel t) (s\<lparr>sys_font := psf_font t\<rparr>))
       (f \<lparr>font_kernel = kernel_of s, psf_font = sys_font s\<rparr>)"

text \<open>The interrupt tables are shared; the console's own part is the keyboard, the terminal and the font.\<close>

definition console_of :: "kernel_system \<Rightarrow> console_state" where
  "console_of s = irq_state.extend (irq_state.truncate s)
     (console_state.fields (sys_keyboard s) (sys_term s) (sys_font s) (memory s))"

definition on_console :: "(console_state \<Rightarrow> console_state option) \<Rightarrow> kernel_system \<Rightarrow> kernel_system option" where
  "on_console f s =
     map_option (\<lambda>c. set_memory (con_mem c)
         ((irq_state.extend (irq_state.truncate c) (irq_state.more s))
            \<lparr>sys_keyboard := keyboard c, sys_term := the_term c, sys_font := font c\<rparr>))
       (f (console_of s))"

section \<open>What start-up is given\<close>

text \<open>
  The answers of the boot loader to the requests declared in \<^verbatim>\<open>kernel/include/init/init.h\<close>, and
  what the compiler, the linker and the assembler decide: the addresses of string literals (a
  function's name is one), of the interrupt stubs and of three buffers of \<^verbatim>\<open>cpu.c\<close>.
\<close>

record boot_info =
  base_revision_supported :: bool
  bl_info_req :: "(u64 \<times> u64) option"
  mem_req :: "memmap_entry list option"
  kernel_addr_request :: "(u64 \<times> u64) option"
  rsdp_request :: "u64 option"
  framebuffer_req :: "framebuffer option list option"
  psf_file_request :: "limine_file list option"

record kernel_image =
  literal :: "string \<Rightarrow> u64"
  ISR_stub :: "nat \<Rightarrow> u64"
  manufacturer_buffer :: u64
  vendor_buffer :: u64
  brand_buffer :: u64

section \<open>init.c\<close>

text \<open>
  What is only printed is left out: the offset of the direct map, the memory in use
  (\<^verbatim>\<open>pm_used\<close>) and the result of \<^verbatim>\<open>serial_init\<close>.
\<close>

definition system_init :: "boot_info \<Rightarrow> kernel_image \<Rightarrow> hardware \<Rightarrow> cpu_hw \<Rightarrow> kernel_system \<Rightarrow> kernel_system option" where
  "system_init b img dev hw s =
     (if \<not> base_revision_supported b then halt s
      else if print_boot_info (bl_info_req b) = SYS_ERR then halt s
      else do {
        let (_, s) = on_serial (serial_init dev) s;
        s \<leftarrow> on_gdt gdt_init s;
        let s = idt_init s;
        let s = on_cpu (cpu_init hw (literal img) (manufacturer_buffer img) (vendor_buffer img) (brand_buffer img)) s;
        let s = isr_init (ISR_stub img) s;
        s \<leftarrow> on_kernel (pm_init (mem_req b)) s;
        s \<leftarrow> on_kernel (vm_init (literal img ''vm_init'') (literal img ''vm_map'') (literal img ''map_page_entry'')
               (mem_req b) (kernel_addr_request b)) s;
        s \<leftarrow> on_acpi (acpi_init (literal img) (rsdp_request b)) s;
        (_, s) \<leftarrow> hpet_init dev (literal img) (literal img ''vm_map'') (literal img ''map_page_entry'') s;
        s \<leftarrow> on_rtc (cmos_init dev) s;
        s \<leftarrow> on_pci (pci_init dev) s;
        fb \<leftarrow> fb_init (framebuffer_req b) (initial_fb s);
        let s = s\<lparr>initial_fb := fb\<rparr>;
        s \<leftarrow> on_font (psf1_font_init (literal img ''psf1_font_init'') (literal img ''psf1_font_mode'')
               (psf_file_request b) (literal img ''zap-vga16.psf'')) s;
        t \<leftarrow> init_terminal (initial_fb s) (sys_font s) (memory s) (sys_term s);
        let s = s\<lparr>sys_term := t\<rparr>;
        let s = irq_init dev s;
        s \<leftarrow> on_console (keyboard_init dev) s;
        apic_init dev hw (literal img ''vm_map'') (literal img ''map_page_entry'') s
      })"

section \<open>kernel.c\<close>

text \<open>\<open>B\<close> stands for a backslash and \<open>Q\<close> for an apostrophe.\<close>

definition art :: "char \<Rightarrow> u8" where
  "art c = (if c = CHR ''B'' then 0x5C else if c = CHR ''Q'' then 0x27 else of_char c)"

definition banner :: "u8 list" where
  "banner = concat (map (\<lambda>l. map art l @ [0x0A])
     [''                     _                     __    _  _   '',
      ''  /B  /B ___   _ __ (_) ____ ___   _ __   / /_  | || |  '',
      '' / /_/ // _ B | Q__|| ||_  // _ B | Q_ B | Q_ B | || |_ '',
      ''/ __  /| (_) || |   | | / /| (_) || | | || (_) ||__   _|'',
      ''B/ /_/  B___/ |_|   |_|/___|B___/ |_| |_| B___/    |_|  '',
      ''                                                        ''])"

text \<open>
  \<^verbatim>\<open>_start\<close> does not return; its value here is the state in which it begins to wait for
  interrupts in its empty loop. \<open>junk\<close> is what an uninitialised buffer of the printing
  routine holds.
\<close>

definition start :: "boot_info \<Rightarrow> kernel_image \<Rightarrow> hardware \<Rightarrow> cpu_hw \<Rightarrow> u8 list \<Rightarrow> kernel_system \<Rightarrow> kernel_system option" where
  "start b img dev hw junk s = do {
     s \<leftarrow> system_init b img dev hw s;
     (t, m) \<leftarrow> terminal_printf junk (sys_font s) banner [] (Some (sys_term s), memory s);
     let s = set_memory m s;
     Some (case t of Some t \<Rightarrow> s\<lparr>sys_term := t\<rparr> | None \<Rightarrow> s)
   }"

end
