(* ===== verification/System_Memory.thy ===== *)
theory System_Memory
  imports Shared_Space System_Init
begin

text \<open>
  The memory of the kernel during start-up: from the loader's map to a running address space,
  and what the later steps of \<^verbatim>\<open>system_init\<close> add to it.
\<close>

section \<open>From the loader's map to the allocator\<close>

definition usable_frames :: "memmap_entry list \<Rightarrow> nat set" where
  "usable_frames es = \<Union> (entry_pages ` {e \<in> set es. pooled e})"

definition bitmap_run :: "memmap_entry list \<Rightarrow> memmap_entry \<Rightarrow> nat set" where
  "bitmap_run es e0 = run (me_base e0) (NUM_PAGES (map_bytes es))"

definition last_page :: "memmap_entry list \<Rightarrow> nat" where
  "last_page es = (unat (booted_limit es) + 4095) div 4096"

text \<open>
  The map is sane, its usable entries lie below the limit, and the bits that the allocator reads
  behind the ones \<^verbatim>\<open>pm_init\<close> clears (the limit is divided by 32768 without rounding up)
  lie in the bitmap's own pages and happen to be clear.
\<close>

definition memory_map_ok :: "memmap_entry list \<Rightarrow> memmap_entry \<Rightarrow> mem \<Rightarrow> bool" where
  "memory_map_ok es e0 m \<longleftrightarrow>
     sane_map es e0 \<and> unat (booted_limit es) \<le> 2 ^ 46 \<and> 4096 dvd unat (me_base e0) \<and>
     usable_frames es \<subseteq> {..<last_page es} \<and>
     last_page es div 8 < unat (NUM_PAGES (map_bytes es)) * 4096 \<and>
     (\<forall>p \<in> set [8 * unat (map_bytes es)..<Suc (last_page es)].
        \<not> bit (m (PHYS_TO_VIRT (me_base e0) + of_nat (p div 8))) (p mod 8))"

lemma pm_populate_changes:
  assumes "\<forall>e \<in> set es. pooled e \<longrightarrow>
      fits (me_base e) (NUM_PAGES (me_length e)) \<and> entry_pages e \<subseteq> {..guard_page s}"
    and "pm_populate es s = Some t"
  shows "only_changes (bitmap_frames s) s t \<and> same_globals s t"
  using assms
proof (induction es arbitrary: s)
  case (Cons e es)
  show ?case
  proof (cases "pooled e")
    case True
    let ?u = "released (me_base e) (unat (NUM_PAGES (me_length e))) s"
    have f: "fits (me_base e) (NUM_PAGES (me_length e))" "run (me_base e) (NUM_PAGES (me_length e)) \<subseteq> {..guard_page s}"
      using True Cons.prems(1) by (simp_all add: entry_pages_def)
    note oc = only_changes_released [OF f]
    then have lay: "same_layout s ?u" by (simp add: only_changes_def)
    have "pm_populate es ?u = Some t"
      using True Cons.prems(2) pm_free_eq [OF f(1)] by (simp add: pooled_def)
    from Cons.IH [OF _ this] Cons.prems(1)
    have "only_changes (bitmap_frames s) ?u t \<and> same_globals ?u t" by (simp add: layout_simps [OF lay])
    moreover have "same_globals s ?u" by (simp add: same_globals_def released_def)
    ultimately show ?thesis using only_changes_trans [OF oc, of "bitmap_frames s" t] by (simp add: same_globals_def)
  next
    case False
    then have "pm_populate es s = Some t" using Cons.prems(2) by (auto simp: pooled_def)
    then show ?thesis using Cons.IH [of s] Cons.prems(1) by simp
  qed
qed simp

lemma cleared_pages:
  assumes ok: "memory_map_ok es e0 (ram s)" and p: "p \<le> last_page es"
  shows "\<not> page_free (cleared_state es e0 s) p"
proof -
  let ?nb = "map_bytes es" and ?b = "PHYS_TO_VIRT (me_base e0)"
  have "last_page es \<le> (2 ^ 46 + 4095) div 4096"
    using ok unfolding last_page_def memory_map_ok_def by (intro div_le_mono) simp
  then have "p div 8 < 2 ^ 52" using p by (simp add: div_less_iff_less_mult)
  then have in_bitmap: "in_range ?b (unat ?nb) (?b + of_nat (p div 8)) \<longleftrightarrow> p div 8 < unat ?nb"
    by (simp add: in_range_def unat_of_nat64)
  have "8 * unat ?nb \<le> p" if "\<not> p div 8 < unat ?nb" using that by (simp add: less_eq_div_iff_mult_less_eq)
  then have "\<not> bit (ram s (?b + of_nat (p div 8))) (p mod 8)" if "\<not> p div 8 < unat ?nb"
    using that p ok by (auto simp: memory_map_ok_def)
  then show ?thesis using in_bitmap by (simp add: page_free_def cleared_state_def memset_apply)
qed

lemma bitmap_run_bytes:
  assumes "memory_map_ok es e0 m" and "j < unat (NUM_PAGES (map_bytes es)) * 4096"
    and "fits (me_base e0) (NUM_PAGES (map_bytes es))"
  shows "frame_of (PHYS_TO_VIRT (me_base e0) + of_nat j) \<in> bitmap_run es e0"
proof -
  have "j < 2 ^ 64" using assms(2,3) by (simp add: fits_def)
  then have "in_range (PHYS_TO_VIRT (me_base e0)) (unat (NUM_PAGES (map_bytes es)) * 4096)
      (PHYS_TO_VIRT (me_base e0) + of_nat j)"
    using assms(2) by (simp add: in_range_def unat_of_nat64)
  then show ?thesis
    using frame_of_run [OF _ assms(3)] assms(1) by (simp add: bitmap_run_def memory_map_ok_def)
qed

lemma bitmap_place:
  assumes "sane_map es e0"
  shows "fits (me_base e0) (NUM_PAGES (map_bytes es))" "bitmap_run es e0 \<subseteq> usable_frames es"
  using pm_init_eq [OF assms] unfolding bitmap_run_def usable_frames_def by blast+

lemma bitmap_frames_placed:
  assumes ok: "memory_map_ok es e0 m"
    and u: "bitmap (kmem u) = PHYS_TO_VIRT (me_base e0)" "guard_page u = last_page es"
  shows "bitmap_frames u \<subseteq> bitmap_run es e0"
proof -
  have sane: "sane_map es e0" and pages: "last_page es div 8 < unat (NUM_PAGES (map_bytes es)) * 4096"
    using ok by (simp_all add: memory_map_ok_def)
  show ?thesis
    using u bitmap_run_bytes [OF ok _ bitmap_place(1) [OF sane]] pages div_le_mono [of _ "last_page es" 8]
    by (fastforce simp: bitmap_frames_def)
qed

lemma cleared_outside:
  assumes ok: "memory_map_ok es e0 m" and a: "frame_of a \<notin> bitmap_run es e0"
  shows "ram (cleared_state es e0 s) a = ram s a"
proof -
  have sane: "sane_map es e0" and pages: "last_page es div 8 < unat (NUM_PAGES (map_bytes es)) * 4096"
    using ok by (simp_all add: memory_map_ok_def)
  have "\<not> in_range (PHYS_TO_VIRT (me_base e0)) (unat (map_bytes es)) a"
  proof
    assume "in_range (PHYS_TO_VIRT (me_base e0)) (unat (map_bytes es)) a"
    then have "unat (a - PHYS_TO_VIRT (me_base e0)) < unat (map_bytes es)" by (simp add: in_range_def)
    moreover have "unat (map_bytes es) \<le> last_page es div 8"
      unfolding map_bytes_def last_page_def by (simp add: unat_div div_mult2_eq [symmetric] div_le_mono)
    ultimately show False
      using bitmap_run_bytes [OF ok _ bitmap_place(1) [OF sane], of "unat (a - PHYS_TO_VIRT (me_base e0))"] pages a by simp
  qed
  then show ?thesis by (simp add: cleared_state_def memset_apply)
qed

lemma pm_init_ready:
  assumes ok: "memory_map_ok es e0 (ram s)"
  shows "\<exists>s'. pm_init (Some es) s = Some s' \<and> alloc_ok s' \<and> avail s' = usable_frames es - bitmap_run es e0 \<and>
    bitmap_frames s' \<subseteq> bitmap_run es e0 \<and> physical_limit (kmem s') = booted_limit es \<and> same_globals s s' \<and>
    bitmap_run es e0 \<subseteq> usable_frames es \<and> (\<forall>a. frame_of a \<notin> bitmap_run es e0 \<longrightarrow> ram s' a = ram s a)"
proof -
  let ?n = "NUM_PAGES (map_bytes es)" and ?s0 = "cleared_state es e0 s"
  have sane: "sane_map es e0" and lim: "unat (booted_limit es) \<le> 2 ^ 46" and below: "usable_frames es \<subseteq> {..<last_page es}"
    using ok by (simp_all add: memory_map_ok_def)
  obtain t where t: "pm_populate es ?s0 = Some t" "pm_init (Some es) s = Some (taken (me_base e0) ?n t)"
    "bitmap_run es e0 \<subseteq> usable_frames es" "fits (me_base e0) ?n" "bitmap (kmem t) = PHYS_TO_VIRT (me_base e0)"
    "physical_limit (kmem t) = booted_limit es" "free_pages t = free_pages ?s0 \<union> usable_frames es"
    using pm_init_eq [OF sane, of s] unfolding bitmap_run_def [symmetric] usable_frames_def [symmetric] by blast
  define s' where "s' = taken (me_base e0) ?n t"
  have g0: "guard_page ?s0 = last_page es" and gt: "guard_page t = last_page es"
    by (simp_all add: guard_page_def cleared_state_def last_page_def t(6))
  have b0: "bitmap (kmem ?s0) = PHYS_TO_VIRT (me_base e0)" by (simp add: cleared_state_def)
  note bf = bitmap_frames_placed [OF ok]
  have "\<forall>e \<in> set es. pooled e \<longrightarrow> fits (me_base e) (NUM_PAGES (me_length e)) \<and> entry_pages e \<subseteq> {..guard_page ?s0}"
    using sane below unfolding g0 by (fastforce simp: sane_map_def usable_frames_def)
  note pop = pm_populate_changes [OF this t(1)]
  have rB: "run (me_base e0) ?n \<subseteq> {..guard_page t}"
    using t(3) below by (fastforce simp: bitmap_run_def gt)
  note tk = only_changes_taken [OF t(4) rB, folded s'_def]
  have "only_changes (bitmap_run es e0) ?s0 s'"
    by (rule only_changes_mono [OF only_changes_trans [OF pop [THEN conjunct1] tk]])
      (use bf [OF b0 g0] bf [OF t(5) gt] in blast)
  then have mem: "\<forall>a. frame_of a \<notin> bitmap_run es e0 \<longrightarrow> ram s' a = ram s a"
    using cleared_outside [OF ok] by (simp add: only_changes_def)
  have none: "p \<notin> free_pages ?s0" if "p \<le> last_page es" for p
    using cleared_pages [OF ok that] by (simp add: free_pages_def)
  have fp: "free_pages s' = (free_pages ?s0 \<union> usable_frames es) - bitmap_run es e0"
    using free_pages_taken [OF t(4)] t(7) by (simp add: s'_def bitmap_run_def)
  have gs: "guard_page s' = last_page es" "bitmap (kmem s') = PHYS_TO_VIRT (me_base e0)"
    "physical_limit (kmem s') = booted_limit es"
    using t(5,6) by (simp_all add: s'_def taken_def guard_page_def last_page_def)
  have av: "avail s' = usable_frames es - bitmap_run es e0"
    using fp none below by (auto simp: avail_def gs)
  have "last_page es \<le> (2 ^ 46 + 4095) div 4096" unfolding last_page_def using lim by (intro div_le_mono) simp
  then have "last_page es < 2 ^ 52" by simp
  then have "\<not> page_free s' (last_page es)"
    using fp none [of "last_page es"] below by (auto simp: free_pages_def set_eq_iff)
  then have "alloc_ok s'" using av bf [OF gs(2,1)] lim by (auto simp: alloc_ok_def gs)
  moreover have "same_globals s s'"
    using pop by (simp add: same_globals_def s'_def taken_def cleared_state_def)
  ultimately show ?thesis using t(2,3) av bf [OF gs(2,1)] gs(3) mem by (auto simp: s'_def)
qed

section \<open>The address space\<close>

definition room_for :: "nat \<Rightarrow> memmap_entry list \<Rightarrow> memmap_entry \<Rightarrow> bool" where
  "room_for n es e0 \<longleftrightarrow> (\<exists>p. {p..<p + n} \<subseteq> usable_frames es - bitmap_run es e0)"

lemma vm_init_pages_maps: "List.length (entry_maps k es) + 9 \<le> vm_init_pages limit k es"
proof -
  let ?g = "Suc (List.length (entry_maps k es))"
  have "1 * ?g \<le> grow_pages 32 ?g * ?g" by (rule mult_le_mono1) (simp add: grow_pages_def)
  then show ?thesis by (simp add: vm_init_pages_def Let_def block_pages_def NUM_PAGES_def)
qed

lemma memory_start:
  assumes ok: "memory_map_ok es e0 (ram s)"
    and lists: "memory_list (kernel_addr_space s) = no_vec" "global_mem_map s = no_vec"
    and z: "0 \<notin> usable_frames es"
    and n: "\<forall>m \<in> set (boot_maps (booted_limit es) k es). unat (mm_num_pages m) \<le> 2 ^ 36"
    and pages: "room_for (vm_init_pages (booted_limit es) k es + r) es e0"
  shows "\<exists>t s'. pm_init (Some es) s = Some t \<and> vm_init func f h (Some es) (Some k) t = Some s' \<and> kernel_ok s' \<and>
    mem_maps s' = shared_direct_map (booted_limit es) # entry_maps k es \<and>
    translate (ram s') (as_pml4 0 s') = fold apply_map (boot_maps (booted_limit es) k es) (\<lambda>_. None) \<and>
    cr3 s' = VIRT_TO_PHYS (as_pml4 0 s') \<and> stock r s' \<and> 0 \<notin> kernel_pool s' \<and>
    table_paths (ram s') (as_pml4 0 s') \<subseteq> boot_tables (boot_maps (booted_limit es) k es) \<and>
    kernel_frames s' \<subseteq> usable_frames es \<and> (\<forall>a. frame_of a \<notin> usable_frames es \<longrightarrow> ram s' a = ram s a) \<and>
    List.length (entry_maps k es) + 8 < 2 ^ 40"
proof -
  from pm_init_ready [OF ok] obtain t where t: "pm_init (Some es) s = Some t" "alloc_ok t"
    "avail t = usable_frames es - bitmap_run es e0" "bitmap_frames t \<subseteq> bitmap_run es e0"
    "physical_limit (kmem t) = booted_limit es" "same_globals s t" "bitmap_run es e0 \<subseteq> usable_frames es"
    "\<And>a. frame_of a \<notin> bitmap_run es e0 \<Longrightarrow> ram t a = ram s a" by blast
  have l: "memory_list (kernel_addr_space t) = no_vec" "global_mem_map t = no_vec"
    using lists t(6) by (simp_all add: same_globals_def)
  have z': "0 \<notin> avail t" using z t(3) by blast
  have "stock (vm_init_pages (physical_limit (kmem t)) k es + r) t"
    using pages by (simp add: room_for_def stock_def t(3,5))
  note sup = this
  from stock_bound [OF t(2) sup] have "vm_init_pages (booted_limit es) k es \<le> 2 ^ 40" by (simp add: t(5))
  then have l40: "List.length (entry_maps k es) + 8 < 2 ^ 40" using vm_init_pages_maps [of k es "booted_limit es"] by simp
  obtain s' where s': "vm_init func f h (Some es) (Some k) t = Some s'" "kernel_ok s'"
    "mem_maps s' = shared_direct_map (booted_limit es) # entry_maps k es"
    "translate (ram s') (pml4 (kernel_addr_space s')) = fold apply_map (boot_maps (booted_limit es) k es) (\<lambda>_. None)"
    "cr3 s' = VIRT_TO_PHYS (pml4 (kernel_addr_space s'))" "stock r s'" "0 \<notin> kernel_pool s'"
    "table_paths (ram s') (as_pml4 0 s') \<subseteq> boot_tables (boot_maps (booted_limit es) k es)"
    "only_changes (bitmap_frames t \<union> avail t) t s'" "kernel_frames s' \<subseteq> bitmap_frames t \<union> avail t"
    using vm_init_spec [OF t(2) l z' _ sup, of func f h] n unfolding t(5) by blast
  have own: "bitmap_frames t \<union> avail t \<subseteq> usable_frames es" using t(3,4,7) by blast
  then have sub: "kernel_frames s' \<subseteq> usable_frames es" using s'(10) by blast
  have "ram s' a = ram s a" if "frame_of a \<notin> usable_frames es" for a
  proof -
    have "ram s' a = ram t a" using s'(9) own that by (auto simp: only_changes_def)
    also have "\<dots> = ram s a" by (rule t(8)) (use that t(7) in blast)
    finally show ?thesis .
  qed
  with t(1) s'(1-8) sub l40 show ?thesis by (simp add: as_pml4_def)
qed

section \<open>What later steps add\<close>

lemma kernel_frames_alt: "kernel_frames s = avail s \<union> bitmap_frames s \<union> own_frames s"
  by (auto simp: kernel_frames_def own_frames_def frames_of_as_def busy_frames_def as_frames_def)

lemma kernel_pool_alt: "kernel_pool s = avail s \<union> vec_frames (as_list 0 s) \<union> map_frames s"
  by (simp add: kernel_pool_def pool_def)

text \<open>A step that leaves the address space as it is.\<close>

definition quiet_step :: "kstate \<Rightarrow> kstate \<Rightarrow> bool" where
  "quiet_step s t \<longleftrightarrow> kernel_step s t \<and> mem_maps t = mem_maps s \<and>
     translate (ram t) (as_pml4 0 s) = translate (ram s) (as_pml4 0 s) \<and>
     table_paths (ram t) (as_pml4 0 s) = table_paths (ram s) (as_pml4 0 s)"

lemma quiet_stepD:
  assumes "quiet_step s t"
  shows "kernel_step s t" "mem_maps t = mem_maps s"
    "translate (ram t) (as_pml4 0 s) = translate (ram s) (as_pml4 0 s)"
    "table_paths (ram t) (as_pml4 0 s) = table_paths (ram s) (as_pml4 0 s)"
  using assms by (simp_all add: quiet_step_def)

lemma quiet_step_trans:
  assumes "quiet_step s t" and "quiet_step t u"
  shows "quiet_step s u"
proof -
  note a = quiet_stepD [OF assms(1)] and b = quiet_stepD [OF assms(2)]
  have "as_pml4 0 t = as_pml4 0 s" using kernel_stepD(2) [OF a(1)] .
  then show ?thesis using kernel_step_trans [OF a(1) b(1)] a b by (simp add: quiet_step_def)
qed

lemma quiet_untouched:
  assumes ok: "kernel_ok s" and oc: "only_changes F s t" and F: "own_frames s \<inter> F = {}" "F \<subseteq> kernel_frames s"
    and av: "avail t \<subseteq> avail s" and al: "alloc_ok t" and gl: "same_globals s t"
  shows "quiet_step s t" "own_frames t = own_frames s"
proof -
  have priv: "own_frames s \<inter> avail t = {}" using own_frames_private [OF ok] av by blast
  have g: "kernel_addr_space t = kernel_addr_space s" "global_mem_map t = global_mem_map s" "cr3 t = cr3 s"
    using gl by (simp_all add: same_globals_def)
  note u = kernel_untouched [OF ok oc F(1) priv al g(1,2)]
  show "own_frames t = own_frames s" by (rule u(2))
  have lay: "same_layout s t" using oc by (simp add: only_changes_def)
  have tr: "tree (ram s) (as_pml4 0 s)" by (rule as_okD(2) [OF kernel_okD(1) [OF ok]])
  have "ram t x = ram s x" if "frame_of x \<in> table_frames (ram s) (as_pml4 0 s)" for x
    using that oc F(1) by (auto simp: only_changes_def own_frames_def)
  from table_paths_cong [where m' = "ram t", OF tr this]
  have "table_paths (ram t) (as_pml4 0 s) = table_paths (ram s) (as_pml4 0 s)" .
  moreover have "kernel_frames t \<subseteq> kernel_frames s"
    using av layout_simps(2) [OF lay] u(2) by (auto simp: kernel_frames_alt)
  moreover have "kernel_pool t \<subseteq> kernel_pool s"
    using av by (auto simp: kernel_pool_alt as_list_def map_frames_def g)
  ultimately show "quiet_step s t"
    using u only_changes_mono [OF oc F(2)] g(3) by (simp add: quiet_step_def kernel_step_def)
qed

lemma kernel_kmalloc:
  assumes ok: "kernel_ok s" and b: "unat bytes \<le> 2 ^ 47" and ret: "kmalloc_impl bytes func line s = Some (v, t)"
  shows "quiet_step s t" "heap_block v bytes t" "block_frames v bytes \<inter> kernel_frames t = {}"
    "block_frames v bytes \<subseteq> avail s"
proof -
  have al: "alloc_ok s" using list_okD(1) [OF as_okD(1) [OF kernel_okD(1) [OF ok]]] .
  note k = kmalloc_spec [OF al b ret]
  note priv = own_frames_private [OF ok]
  have oc: "only_changes (bitmap_frames s \<union> block_frames v bytes) s t" by (rule k(5))
  then have lay: "same_layout s t" by (simp add: only_changes_def)
  have "own_frames s \<inter> (bitmap_frames s \<union> block_frames v bytes) = {}"
    "bitmap_frames s \<union> block_frames v bytes \<subseteq> kernel_frames s" "avail t \<subseteq> avail s"
    using priv k(3,4) by (auto simp: kernel_frames_alt)
  note q = quiet_untouched [OF ok oc this k(2) kmalloc_globals [OF ret]]
  show "quiet_step s t" by (rule q(1))
  show "heap_block v bytes t" "block_frames v bytes \<subseteq> avail s" by (fact k(1), fact k(3))
  have "block_frames v bytes \<inter> bitmap_frames s = {}" using al k(3) by (auto simp: alloc_ok_def)
  then show "block_frames v bytes \<inter> kernel_frames t = {}"
    using priv k(3,4) layout_simps(2) [OF lay] q(2) by (auto simp: kernel_frames_alt)
qed

text \<open>Writing to a block that belongs to neither the allocator nor the address space.\<close>

lemma kernel_write_other:
  assumes ok: "kernel_ok s" and same: "\<forall>a. frame_of a \<in> kernel_frames s \<longrightarrow> m a = ram s a"
  defines "t \<equiv> s\<lparr>ram := m\<rparr>"
  shows "kernel_ok t" "mem_maps t = mem_maps s" "as_pml4 0 t = as_pml4 0 s" "kernel_frames t = kernel_frames s"
    "kernel_pool t = kernel_pool s" "avail t = avail s"
    "translate (ram t) (as_pml4 0 s) = translate (ram s) (as_pml4 0 s)"
    "table_paths (ram t) (as_pml4 0 s) = table_paths (ram s) (as_pml4 0 s)"
proof -
  let ?F = "- kernel_frames s"
  have al: "alloc_ok s" using list_okD(1) [OF as_okD(1) [OF kernel_okD(1) [OF ok]]] .
  have oc: "only_changes ?F s t" using same by (simp add: only_changes_def same_layout_def t_def)
  have F: "own_frames s \<inter> ?F = {}" "?F \<inter> bitmap_frames s = {}" by (auto simp: kernel_frames_alt)
  note av = avail_only_changes [OF oc F(2)]
  show "avail t = avail s" by (fact av(1))
  have "own_frames s \<inter> avail t = {}" using own_frames_private [OF ok] av(1) by blast
  moreover have "alloc_ok t" using av(2) al by simp
  ultimately have u: "kernel_ok t" "own_frames t = own_frames s" "mem_maps t = mem_maps s" "as_pml4 0 t = as_pml4 0 s"
      "translate (ram t) (as_pml4 0 s) = translate (ram s) (as_pml4 0 s)"
    using kernel_untouched [OF ok oc F(1)] by (simp_all add: t_def)
  then show "kernel_ok t" "mem_maps t = mem_maps s" "as_pml4 0 t = as_pml4 0 s"
    "translate (ram t) (as_pml4 0 s) = translate (ram s) (as_pml4 0 s)" by blast+
  show "kernel_frames t = kernel_frames s" "kernel_pool t = kernel_pool s"
    using u(2) av(1) by (simp_all add: kernel_frames_alt kernel_pool_alt bitmap_frames_def guard_page_def map_frames_def as_list_def t_def)
  have tr: "tree (ram s) (as_pml4 0 s)" by (rule as_okD(2) [OF kernel_okD(1) [OF ok]])
  have "ram t x = ram s x" if "frame_of x \<in> table_frames (ram s) (as_pml4 0 s)" for x
    using that same by (simp add: t_def kernel_frames_alt own_frames_def)
  from table_paths_cong [where m' = "ram t", OF tr this]
  show "table_paths (ram t) (as_pml4 0 s) = table_paths (ram s) (as_pml4 0 s)" .
qed

section \<open>Device registers\<close>

text \<open>The pages that mapping one page of registers takes beside \<open>t\<close> tables and \<open>g\<close> mappings.\<close>

definition mmio_pages :: "nat \<Rightarrow> nat \<Rightarrow> nat" where
  "mmio_pages t g = table_cost (t + 3) * 3 + grow_pages 32 (Suc g)"

lemma table_cost_mono: "k \<le> l \<Longrightarrow> table_cost k \<le> table_cost l"
  by (simp add: table_cost_def grow_pages_mono)

lemma kernel_mmio:
  fixes va pa flags :: u64
  assumes ok: "kernel_ok s" and z: "0 \<notin> kernel_pool s" and t: "card (table_paths (ram s) (as_pml4 0 s)) \<le> t"
    and sup: "stock (mmio_pages t (List.length (mem_maps s)) + r) s" and l40: "List.length (mem_maps s) < 2 ^ 40"
  defines "e \<equiv> \<lparr>mm_virt_addr = va, mm_phys_addr = pa, mm_flags = flags, mm_num_pages = 1\<rparr>"
  shows "\<exists>s'. vm_map f h 0 va pa 1 flags s = Some s' \<and> kernel_step s s' \<and> mem_maps s' = mem_maps s @ [e] \<and>
    translate (ram s') (as_pml4 0 s) = apply_map e (translate (ram s) (as_pml4 0 s)) \<and>
    card (table_paths (ram s') (as_pml4 0 s)) \<le> t + 3 \<and> stock r s'"
proof -
  let ?P = "table_paths (ram s) (as_pml4 0 s)" and ?R = "region_tables va 1" and ?g = "Suc (List.length (mem_maps s))"
  let ?Q = "?P \<union> ?R"
  have "?R = va_tables va" by (simp add: region_tables_def lessThan_Suc)
  then have R: "card ?R \<le> 3" using card_va_tables by simp
  have short: "?Q \<subseteq> {q. short q}" using region_tables_short by (auto simp: table_paths_def)
  then have fin: "finite ?Q" and q40: "card ?Q \<le> 2 ^ 40"
    using finite_subset [OF _ finite_short] card_mono [OF finite_short short] card_short by (blast, linarith)
  have Qt: "card ?Q \<le> card ?P + 3" using card_Un_le [of ?P ?R] R by linarith
  have g40: "?g \<le> 2 ^ 40" using l40 by simp
  have "table_cost (card ?Q) * (card ?Q - card ?P) \<le> table_cost (t + 3) * 3"
    by (rule mult_le_mono [OF table_cost_mono]) (use Qt t in linarith)+
  then have "stock (table_cost (card ?Q) * (card ?Q - card ?P) + (grow_pages 32 ?g * 1 + r)) s"
    by (intro stock_mono [OF sup]) (simp_all add: mmio_pages_def)
  then have st: "kernel_stocked ?Q ?g r s"
    using g40 z fin q40 by (simp add: kernel_stocked_def stocked_def kernel_pool_def)
  have one: "unat (1 :: u64) \<le> 2 ^ 36" by simp
  from vm_map_kernel_stocked [OF ok st _ one, of va f h pa flags] obtain s' where
    ret: "vm_map f h 0 va pa 1 flags s = Some s'" and st': "kernel_stocked ?Q ?g r s'" by blast
  note v = vm_map_kernel_spec [OF ok l40 one ret, folded e_def]
  have "table_paths (ram s') (as_pml4 0 s) = ?Q" using v(4) by (simp add: map_tables_def e_def)
  then have "card (table_paths (ram s') (as_pml4 0 s)) \<le> t + 3" using Qt t by simp
  moreover have "stock r s'" using st' stock_mono [of _ s' r s'] by (auto simp: kernel_stocked_def stocked_def)
  ultimately show ?thesis using ret v by blast
qed

end
