(* ===== verification/System_Start.thy ===== *)
theory System_Start
  imports System_Memory Pci_Scan
begin

text \<open>
  The steps of \<^verbatim>\<open>system_init\<close> one by one: what each changes in the state of the whole
  kernel and under which answers of the devices it returns.
\<close>

section \<open>Steps that change tables and traces only\<close>

lemma io_more_update:
  "io_state.more t = io_state.more s \<Longrightarrow> t = s\<lparr>trace := trace t, interrupts_on := interrupts_on t\<rparr>"
  by (cases s, cases t) simp

lemma irq_more_update:
  "irq_state.more t = irq_state.more s \<Longrightarrow>
   t = s\<lparr>trace := trace t, interrupts_on := interrupts_on t, g_pic_mask := g_pic_mask t, system_time := system_time t,
     preempt_quantum := preempt_quantum t, g_idt := g_idt t, idt_loaded := idt_loaded t,
     g_isr_handlers := g_isr_handlers t, g_irq_handler := g_irq_handler t\<rparr>"
  by (cases s, cases t) simp

lemma serial_init_effect:
  "interrupts_on (snd (serial_init dev s)) = interrupts_on s"
  "pic_idle (trace s) \<Longrightarrow> pic_idle (trace (snd (serial_init dev s)))"
  by (simp_all add: serial_init_def Let_def outb_def inb_def pic_idle_def)

lemma serial_step:
  fixes s :: kernel_system and dev :: hardware
  shows "\<exists>r t f. on_serial (serial_init dev) s = (r, s\<lparr>trace := t, sys_serial_faulty := f\<rparr>) \<and>
    (pic_idle (trace s) \<longrightarrow> pic_idle t)"
proof -
  let ?s = "\<lparr>trace = trace s, interrupts_on = interrupts_on s, serial_faulty = sys_serial_faulty s\<rparr>"
  obtain r u where u: "serial_init dev ?s = (r, u)" by fastforce
  then have "on_serial (serial_init dev) s = (r, s\<lparr>trace := trace u, sys_serial_faulty := serial_faulty u\<rparr>)"
    using serial_init_effect(1) [of dev ?s] by (simp add: on_serial_def)
  moreover have "pic_idle (trace s) \<longrightarrow> pic_idle (trace u)"
    using serial_init_effect(2) [of ?s dev] u by simp
  ultimately show ?thesis by blast
qed

lemma gdt_step:
  assumes "sys_num_gdt s = 0" and "List.length (sys_gdt s) = NUM_CPUS"
  shows "on_gdt gdt_init s = Some (s\<lparr>sys_num_gdt := 1, sys_gdt := [gdt_fill zero_table], sys_gdtr := Some (71, 0)\<rparr>)"
  using assms by (simp add: on_gdt_def gdt_init_spec)

lemma fold_gates_update:
  "fold (\<lambda>j. update_gate j (f j)) js s = s\<lparr>g_idt := g_idt (fold (\<lambda>j. update_gate j (f j)) js s)\<rparr>"
proof (induction js arbitrary: s)
  case (Cons j js)
  show ?case by (simp, subst Cons.IH, simp add: update_gate_def)
qed simp

lemma idt_init_update: "idt_init s = s\<lparr>g_idt := g_idt (idt_init s), idt_loaded := True\<rparr>"
  by (simp add: idt_init_def Let_def) (subst fold_gates_update, simp)

lemma isr_init_update: "isr_init ISR s = s\<lparr>g_idt := g_idt (isr_init ISR s), interrupts_on := True\<rparr>"
proof -
  have a: "\<exists>g. isr_init_entries ISR s = s\<lparr>g_idt := g\<rparr>"
    unfolding isr_init_entries_fold isr_gate_update by (subst fold_gates_update) blast
  have b: "\<exists>g. fold idt_enable_gate [0..<256] u = u\<lparr>g_idt := g\<rparr>" for u :: "'a irq_state_scheme"
    unfolding idt_enable_gate_def by (subst fold_gates_update) blast
  have c: "\<exists>g. enable_interrupts (idt_disable_gate 0x80 u) = u\<lparr>g_idt := g, interrupts_on := True\<rparr>" for u :: "'a irq_state_scheme"
    by (auto simp: idt_disable_gate_def update_gate_def enable_interrupts_def)
  obtain g1 where g1: "isr_init_entries ISR s = s\<lparr>g_idt := g1\<rparr>" using a by blast
  obtain g2 where g2: "fold idt_enable_gate [0..<256] (s\<lparr>g_idt := g1\<rparr>) = s\<lparr>g_idt := g1\<rparr>\<lparr>g_idt := g2\<rparr>" using b by blast
  obtain g3 where "enable_interrupts (idt_disable_gate 0x80 (s\<lparr>g_idt := g2\<rparr>)) = s\<lparr>g_idt := g3, interrupts_on := True\<rparr>"
    using c [of "s\<lparr>g_idt := g2\<rparr>"] by auto
  then have "isr_init ISR s = s\<lparr>g_idt := g3, interrupts_on := True\<rparr>"
    using g2 by (simp add: isr_init_def g1 Let_def)
  then show ?thesis by simp
qed

lemma isr_init_handlers [simp]:
  "g_isr_handlers (isr_init ISR s) = g_isr_handlers s" "g_irq_handler (isr_init ISR s) = g_irq_handler s"
  by (subst isr_init_update, simp)+

section \<open>The processor's features\<close>

text \<open>The bytes of the two stack buffers into which \<^verbatim>\<open>print_cpu_info\<close> puts its strings.\<close>

definition cpu_buffer :: "kernel_image \<Rightarrow> u64 \<Rightarrow> bool" where
  "cpu_buffer img a \<longleftrightarrow> in_range (vendor_buffer img) 13 a \<or> in_range (brand_buffer img) 49 a"

lemma in_range_first: "in_range p n a \<Longrightarrow> n \<le> k \<Longrightarrow> in_range p k a"
  by (simp add: in_range_def)

lemma store_inside:
  assumes "\<not> in_range p k a" and "i + n \<le> k" and "k \<le> 2 ^ 63"
  shows "store_le n (p + of_nat i) v m a = m a"
  using assms in_range_part [of p i n a k] by (auto simp: store_le_apply)

lemma memcpy_outside: "\<not> in_range dst (unat n) a \<Longrightarrow> memcpy dst src n m a = m a"
proof -
  have "\<not> in_range dst k a \<Longrightarrow> memcpy_upto k dst src m a = m a" for k
  proof (induction k)
    case (Suc k)
    have "unat (of_nat k :: u64) \<le> k" by (simp add: unat_of_nat)
    then have "\<not> in_range dst k a" "a \<noteq> dst + of_nat k" using Suc.prems by (auto simp: in_range_def)
    with Suc.IH show ?case by (simp add: Let_def)
  qed simp
  then show "\<not> in_range dst (unat n) a \<Longrightarrow> memcpy dst src n m a = m a" by (simp add: memcpy_def)
qed

lemma get_cpu_vendor_outside:
  assumes "\<not> in_range p 13 a"
  shows "cpu_mem (get_cpu_vendor hw lit mf p s) a = cpu_mem s a"
proof -
  have st: "store32 p v m a = m a" "store32 (p + 4) v m a = m a" "store32 (p + 8) v m a = m a" for v m
    using store_inside [OF assms, of 0 4] store_inside [OF assms, of 4 4] store_inside [OF assms, of 8 4] by (simp_all add: store32_def)
  have "\<not> in_range p 12 a" "a \<noteq> p + 12" using assms by (auto simp: in_range_def)
  then show ?thesis
    using assms by (auto simp: get_cpu_vendor_def Let_def st memcpy_outside split: prod.splits)
qed

lemma get_cpu_model_name_outside:
  assumes "\<not> in_range p 49 a"
  shows "cpu_mem (get_cpu_model_name hw p s) a = cpu_mem s a"
proof -
  have st: "store_registers (p + of_nat i) r m a = m a" if "i + 16 \<le> 49" for i r m
  proof -
    have "store32 (p + of_nat i + of_nat j) v m a = m a" if "i + j + 4 \<le> 49" for j v m
      using store_inside [OF assms, of "i + j" 4] that by (simp add: add.assoc store32_def)
    from this [of 0] this [of 4] this [of 8] this [of 12] that show ?thesis
      by (simp add: store_registers_def Let_def)
  qed
  have "a \<noteq> p + 48" using assms by (auto simp: in_range_def)
  with st [of 0] st [of 16] st [of 32] show ?thesis by (simp add: get_cpu_model_name_def Let_def)
qed

lemma print_cpu_info_update:
  "snd (print_cpu_info hw lit mf v b s) = s\<lparr>cpu_mem := cpu_mem (snd (print_cpu_info hw lit mf v b s))\<rparr>"
  by (simp add: print_cpu_info_def get_cpu_vendor_def get_cpu_model_name_def Let_def split: prod.split)

lemma print_cpu_info_outside:
  assumes "\<not> in_range v 13 a" and "\<not> in_range b 49 a"
  shows "cpu_mem (snd (print_cpu_info hw lit mf v b s)) a = cpu_mem s a"
  using assms
  by (simp add: print_cpu_info_def Let_def get_cpu_vendor_outside get_cpu_model_name_outside memset_apply split: prod.split)

lemma cpu_init_update:
  "\<exists>m c l h. cpu_init hw lit mf v b s = s\<lparr>cpu_mem := m, cr4 := c, msr_low := l, msr_high := h\<rparr> \<and>
     (\<forall>a. \<not> in_range v 13 a \<and> \<not> in_range b 49 a \<longrightarrow> m a = cpu_mem s a) \<and>
     (\<forall>n. n \<noteq> MSR_PAT \<longrightarrow> l n = msr_low s n \<and> h n = msr_high s n)"
proof -
  define s1 where "s1 = (if check_cpu_support hw cpuid_feature_pat \<noteq> 0
      then write_msr MSR_PAT ((read_msr MSR_PAT s AND 0xFFFFFFFF) OR push_bit 32 1) s else s)"
  define c where "c = cr4 (WRITE_TO_CR4_BIT ''UNMASKED_SIMD_FLOATING_POINT_EXCEPTIONS''
      (WRITE_TO_CR4_BIT ''FXSAVE_FXRSTOR_INSTRUCTIONS'' s1))"
  have s1: "s1 = s\<lparr>msr_low := msr_low s1, msr_high := msr_high s1\<rparr>"
    and r: "\<forall>n. n \<noteq> MSR_PAT \<longrightarrow> msr_low s1 n = msr_low s n \<and> msr_high s1 n = msr_high s n"
    by (simp_all add: s1_def write_msr_def)
  let ?l = "msr_low s1" and ?h = "msr_high s1"
  have "WRITE_TO_CR4_BIT ''UNMASKED_SIMD_FLOATING_POINT_EXCEPTIONS'' (WRITE_TO_CR4_BIT ''FXSAVE_FXRSTOR_INSTRUCTIONS'' s1) =
      s1\<lparr>cr4 := c\<rparr>"
    by (simp add: c_def WRITE_TO_CR4_BIT_def split: option.split)
  also have "\<dots> = s\<lparr>cr4 := c, msr_low := ?l, msr_high := ?h\<rparr>" by (subst s1) simp
  finally have u: "WRITE_TO_CR4_BIT ''UNMASKED_SIMD_FLOATING_POINT_EXCEPTIONS'' (WRITE_TO_CR4_BIT ''FXSAVE_FXRSTOR_INSTRUCTIONS'' s1) =
      s\<lparr>cr4 := c, msr_low := ?l, msr_high := ?h\<rparr>" .
  have "cpu_init hw lit mf v b s = snd (print_cpu_info hw lit mf v b (s\<lparr>cr4 := c, msr_low := ?l, msr_high := ?h\<rparr>))"
    unfolding u [symmetric] by (simp only: cpu_init_def Let_def s1_def)
  also have "\<dots> = s\<lparr>cpu_mem := cpu_mem (snd (print_cpu_info hw lit mf v b (s\<lparr>cr4 := c, msr_low := ?l, msr_high := ?h\<rparr>))),
      cr4 := c, msr_low := ?l, msr_high := ?h\<rparr>"
    by (subst print_cpu_info_update) simp
  finally show ?thesis using r print_cpu_info_outside [of v _ b hw lit mf "s\<lparr>cr4 := c, msr_low := ?l, msr_high := ?h\<rparr>"]
    by (intro exI conjI allI impI) (assumption | simp)+
qed

text \<open>The step of the whole kernel: one memory, and a few registers.\<close>

lemma kernel_of_set [simp]:
  "kernel_of (set_kernel k s) = k" "kernel_of (set_memory m s) = (kernel_of s)\<lparr>ram := m\<rparr>"
  by (simp_all add: kernel_of_def set_kernel_def set_memory_def)

lemma cpu_step:
  fixes s :: kernel_system
  shows "\<exists>m c l h. on_cpu (cpu_init hw lit mf (vendor_buffer img) (brand_buffer img)) s =
      s\<lparr>cpu_mem := m, cr4 := c, msr_low := l, msr_high := h, acpi := (acpi s)\<lparr>acpi_kernel := (kernel_of s)\<lparr>ram := m\<rparr>\<rparr>\<rparr> \<and>
    (\<forall>a. \<not> cpu_buffer img a \<longrightarrow> m a = memory s a) \<and>
    (\<forall>n. n \<noteq> MSR_PAT \<longrightarrow> l n = msr_low s n \<and> h n = msr_high s n)"
proof -
  let ?s = "s\<lparr>cpu_mem := memory s\<rparr>"
  obtain m c l h where u: "cpu_init hw lit mf (vendor_buffer img) (brand_buffer img) ?s =
      ?s\<lparr>cpu_mem := m, cr4 := c, msr_low := l, msr_high := h\<rparr>"
    and m: "\<forall>a. \<not> in_range (vendor_buffer img) 13 a \<and> \<not> in_range (brand_buffer img) 49 a \<longrightarrow> m a = cpu_mem ?s a"
    and r: "\<forall>n. n \<noteq> MSR_PAT \<longrightarrow> l n = msr_low ?s n \<and> h n = msr_high ?s n"
    using cpu_init_update [of hw lit mf "vendor_buffer img" "brand_buffer img" ?s] by blast
  have "on_cpu (cpu_init hw lit mf (vendor_buffer img) (brand_buffer img)) s =
      s\<lparr>cpu_mem := m, cr4 := c, msr_low := l, msr_high := h, acpi := (acpi s)\<lparr>acpi_kernel := (kernel_of s)\<lparr>ram := m\<rparr>\<rparr>\<rparr>"
    unfolding on_cpu_def Let_def u by (simp add: set_memory_def set_kernel_def kernel_of_def)
  with m r show ?thesis by (intro exI conjI) (assumption | simp add: cpu_buffer_def)+
qed

section \<open>The clock and the bus\<close>

text \<open>A clock that is not being updated and answers the same for a register each time.\<close>

definition clock_answers :: "hardware \<Rightarrow> (u8 \<Rightarrow> u8) \<Rightarrow> bool" where
  "clock_answers dev clock \<longleftrightarrow>
     (\<forall>t. ucast (dev (Out8 0x70 0x0A # t) (In8 0x71)) AND (0x80 :: u8) = 0) \<and>
     (\<forall>r t. ucast (dev (Out8 0x80 0 # Out8 0x70 (r OR 0x80) # t) (In8 0x71)) = clock r)"

lemma pic_idle_other [simp]:
  "p \<notin> {0x20, 0x21, 0xA0, 0xA1} \<Longrightarrow> pic_idle (Out8 p v # t) = pic_idle t" "pic_idle (In8 p # t) = pic_idle t"
  "pic_idle (Out32 p w # t) = pic_idle t" "pic_idle (In32 p # t) = pic_idle t"
  "pic_idle (Read64 a # t) = pic_idle t" "pic_idle (Write64 a d # t) = pic_idle t"
  "pic_idle (Read32 a # t) = pic_idle t" "pic_idle (Write32 a e # t) = pic_idle t"
  by (simp_all add: pic_idle_def)

lemma clock_register:
  assumes "clock_answers dev clock"
  shows "get_reg_value dev r s =
    (clock r, s\<lparr>trace := [In8 0x71, Out8 0x80 0, Out8 0x70 (r OR 0x80)] @ trace s\<rparr>)"
  using assms by (simp add: get_reg_value_def Let_def outb_def io_wait_def inb_def clock_answers_def)

lemma clock_idle:
  assumes "clock_answers dev clock"
  shows "poll (rtc_idle dev) s = Some (s\<lparr>trace := In8 0x71 # Out8 0x70 0x0A # trace s\<rparr>)"
  using assms by (subst poll.simps) (simp add: rtc_idle_def rtc_wait_def Let_def outb_def inb_def clock_answers_def)

definition clock_reading :: "(u8 \<Rightarrow> u8) \<Rightarrow> cmos" where
  "clock_reading clock = \<lparr>seconds = clock 0x00, minutes = clock 0x02, hours = clock 0x04, weekdays = clock 0x06,
     day = clock 0x07, month = clock 0x08, year = ucast (clock 0x09), century = clock 0x32\<rparr>"

lemma clock_get_time:
  assumes "clock_answers dev clock"
  shows "\<exists>t. GET_TIME dev s = (clock_reading clock, s\<lparr>trace := t\<rparr>) \<and> (pic_idle (trace s) \<longrightarrow> pic_idle t)"
  by (simp add: GET_TIME_def clock_register [OF assms] Let_def clock_reading_def, intro exI conjI, rule refl, simp)

lemma rtc_step:
  assumes clock: "clock_answers dev clock"
  shows "\<exists>t. on_rtc (cmos_init dev) s =
      Some (s\<lparr>trace := t, sys_boot_time := convert_time False (clock 0x0B) (clock_reading clock)\<rparr>) \<and>
    (pic_idle (trace s) \<longrightarrow> pic_idle t)"
proof -
  let ?now = "clock_reading clock" and ?poll = "\<lambda>t. In8 0x71 # Out8 0x70 0x0A # t"
  let ?s = "\<lparr>trace = trace s, interrupts_on = interrupts_on s, boot_time = sys_boot_time s\<rparr>"
  obtain t1 where t1: "GET_TIME dev (?s\<lparr>trace := ?poll (trace s)\<rparr>) = (?now, ?s\<lparr>trace := t1\<rparr>)"
    and i1: "pic_idle (trace s) \<longrightarrow> pic_idle t1"
    using clock_get_time [OF clock, of "?s\<lparr>trace := ?poll (trace s)\<rparr>"] by auto
  obtain t2 where t2: "GET_TIME dev (?s\<lparr>trace := ?poll t1\<rparr>) = (?now, ?s\<lparr>trace := t2\<rparr>)"
    and i2: "pic_idle t1 \<longrightarrow> pic_idle t2"
    using clock_get_time [OF clock, of "?s\<lparr>trace := ?poll t1\<rparr>"] by auto
  have "read_stable dev ?now (?s\<lparr>trace := t1\<rparr>) = Some (?now, ?s\<lparr>trace := t2\<rparr>)"
    by (rule read_stable_accepts) (use t2 in \<open>simp_all add: clock_idle [OF clock]\<close>)
  then have "on_rtc (cmos_init dev) s = Some (s\<lparr>trace := [In8 0x71, Out8 0x80 0, Out8 0x70 0x8B] @ t2,
      sys_boot_time := convert_time False (clock 0x0B) ?now\<rparr>)"
    using t1 by (simp add: on_rtc_def cmos_init_def read_time_def clock_idle [OF clock] clock_register [OF clock])
  then show ?thesis using i1 i2 by (intro exI conjI) (assumption, simp)
qed

text \<open>The scan of the bus goes through its two ports only.\<close>

definition seen :: "'a io_state_scheme \<Rightarrow> bool \<times> bool" where
  "seen s = (pic_idle (trace s), interrupts_on s)"

lemma seen_pci_ind [simp]: "seen (snd (pci_ind dev b d f off s)) = seen s"
  by (simp add: pci_ind_def Let_def outd_def ind_def seen_def)

lemma seen_reads [simp]:
  "seen (snd (PCI_FUNCTION_EXISTS dev b d f s)) = seen s"
  "seen (snd (PCI_DEV_IS_BRIDGE dev b d f s)) = seen s"
  "seen (snd (PCI_IS_DEV_MULTIFUNCTION dev b d f s)) = seen s"
  "seen (snd (PCI_READ_SUBBUS_ID dev b d f s)) = seen s"
  "seen (snd (read_ids dev b d f e w)) = seen w"
  by (simp_all add: PCI_FUNCTION_EXISTS_def PCI_DEV_IS_BRIDGE_def PCI_READ_HEADER_def PCI_READ_CLASS_def
      PCI_IS_DEV_MULTIFUNCTION_def PCI_READ_SUBBUS_ID_def read_ids_def PCI_READ_DEVICE_ID_def PCI_READ_VENDOR_ID_def
      Let_def split_beta)

lemma seen_append_device [simp]: "seen (append_device e s) = seen s"
  by (simp add: append_device_def seen_def)

lemma seen_scan_function [simp]: "seen (scan_function dev b d i s) = seen s"
  by (simp add: scan_function_def Let_def split_beta)

lemma seen_scan_functions [simp]: "seen (fold (\<lambda>i. scan_function dev b d (of_nat i)) is s) = seen s"
  by (induction "is" arbitrary: s) simp_all

lemma seen_scan_device:
  assumes "\<And>c s t. scan c s = Some t \<Longrightarrow> seen t = seen s" and "scan_device scan dev b d s = Some t"
  shows "seen t = seen s"
  using assms(2)
  by (auto simp: scan_device_def Let_def split_beta bind_eq_Some_conv split: if_splits dest!: assms(1))

lemma seen_scan_from:
  assumes "pci_scan_from dev b i s = Some t"
  shows "seen t = seen s"
proof (rule pci_scan_from.raw_induct [where P = "\<lambda>dev b i s t. seen t = seen s", OF _ assms])
  fix scan dev b i s t
  assume IH: "\<And>dev b i s t. scan dev b i s = Some t \<Longrightarrow> seen t = seen s"
    and eq: "(if i < MAX_DEVICE_NUM
        then Option.bind (scan_device (\<lambda>c. scan dev c 0) dev b (of_nat i) s) (scan dev b (i + 1)) else Some s) = Some t"
  show "seen t = seen s"
  proof (cases "i < MAX_DEVICE_NUM")
    case True
    then obtain u where u: "scan_device (\<lambda>c. scan dev c 0) dev b (of_nat i) s = Some u" "scan dev b (i + 1) u = Some t"
      using eq by (auto simp: bind_eq_Some_conv)
    have "seen u = seen s" by (rule seen_scan_device [OF IH u(1)])
    then show ?thesis using IH [OF u(2)] by simp
  qed (use eq in simp)
qed

lemma seen_pci_init:
  assumes "pci_init dev s = Some t"
  shows "seen t = seen s"
proof -
  have bus: "seen t = seen s" if "pci_scan_bus dev c s = Some t" for c s t
    using that seen_scan_from by (simp add: pci_scan_bus_def)
  have devices: "seen t = seen s" if "pci_scan_devices dev b ds s = Some t" for b ds s t
    using that
  proof (induction ds arbitrary: s)
    case (Cons d ds)
    then obtain u where u: "scan_device (pci_scan_bus dev) dev b (of_nat d) s = Some u" "pci_scan_devices dev b ds u = Some t"
      by (auto simp: bind_eq_Some_conv)
    show ?case using Cons.IH [OF u(2)] seen_scan_device [OF bus u(1)] by simp
  qed simp
  have "seen t = seen s" if "pci_scan_buses dev bs s = Some t" for bs s t
    using that by (induction bs arbitrary: s) (fastforce simp: bind_eq_Some_conv simp del: upt_rec_numeral dest: devices)+
  then show ?thesis using assms unfolding pci_init_def by blast
qed

lemma pci_step:
  assumes "config_space dev reg"
    and "\<forall>d < 32. function_present reg 0 (of_nat d) 0 \<longrightarrow> class_of reg 0 (of_nat d) \<noteq> 0"
  shows "\<exists>t. on_pci (pci_init dev) s = Some (s\<lparr>trace := t,
      sys_devices := sys_devices s @ concat (map (\<lambda>d. devices_of reg 0 (of_nat d)) [0..<32])\<rparr>) \<and>
    (pic_idle (trace s) \<longrightarrow> pic_idle t)"
proof -
  let ?s = "\<lparr>trace = trace s, interrupts_on = interrupts_on s, device_list = sys_devices s\<rparr>"
  from pci_init_result [OF assms, of ?s] obtain u where u: "pci_init dev ?s = Some u"
    "device_list u = sys_devices s @ concat (map (\<lambda>d. devices_of reg 0 (of_nat d)) [0..<32])"
    by (auto simp del: upt_rec_numeral)
  have "seen u = seen ?s" by (rule seen_pci_init [OF u(1)])
  then show ?thesis using u by (simp add: on_pci_def seen_def del: upt_rec_numeral) blast
qed

section \<open>The event timer\<close>

definition only_trace :: "'a io_state_scheme \<Rightarrow> 'a io_state_scheme \<Rightarrow> bool" where
  "only_trace s t \<longleftrightarrow> t = s\<lparr>trace := trace t\<rparr> \<and> (pic_idle (trace s) \<longrightarrow> pic_idle (trace t))"

lemma only_trace_trans: "only_trace s t \<Longrightarrow> only_trace t u \<Longrightarrow> only_trace s u"
proof -
  assume st: "only_trace s t" and tu: "only_trace t u"
  have "u = t\<lparr>trace := trace u\<rparr>" using tu by (simp add: only_trace_def)
  also have "\<dots> = (s\<lparr>trace := trace t\<rparr>)\<lparr>trace := trace u\<rparr>" using st by (simp add: only_trace_def)
  finally have "u = s\<lparr>trace := trace u\<rparr>" by simp
  then show ?thesis using st tu by (simp add: only_trace_def)
qed

lemma only_trace_refl [simp]: "only_trace s s"
  by (simp add: only_trace_def)

lemma only_trace_fold:
  assumes "\<And>x s. only_trace s (f x s)"
  shows "only_trace s (fold f xs s)"
proof (induction xs arbitrary: s)
  case (Cons x xs)
  show ?case using only_trace_trans [OF assms Cons.IH] by simp
qed simp

lemma only_trace_comparators:
  fixes s :: "'a platform_state_scheme"
  shows "only_trace s (snd (hpet_reset_comparators dev s))"
proof -
  have "only_trace s (hpet_reset_comparator dev timer s)" for timer and s :: "'a platform_state_scheme"
    by (simp add: hpet_reset_comparator_def HPET_TIMER_READ_CONFIG_CAP_def read64_def write64_def Let_def only_trace_def)
  from only_trace_fold [where f = "\<lambda>i s. hpet_reset_comparator dev (hpet_timer (hpet s) (of_nat i)) s", OF this]
  show ?thesis by (simp add: hpet_reset_comparators_def)
qed

text \<open>\<open>K\<close> is the memory manager after the registers, at the physical address \<open>a\<close>, are mapped.\<close>

lemma hpet_step:
  fixes s :: "'a platform_state_scheme"
  assumes table: "signed_table lit ''HPET'' (acpi s) hp" and root: "sdt (acpi s) \<noteq> 0"
    and found: "\<And>p. hp = Some p \<Longrightarrow> p \<noteq> 0 \<and> hpet_address p (memory s) = a \<and> hpet_address p (ram K) = a \<and>
      vm_map func mpe_func 0 (PHYS_TO_VIRT a) a 1 VM_MMIO (kernel_of s) = Some K"
    and period: "\<And>t. drop_bit 32 (dev t (Read64 (PHYS_TO_VIRT a))) \<noteq> 0"
  shows "\<exists>r t. hpet_init dev lit func mpe_func s = Some (r, t) \<and>
    t = s\<lparr>trace := trace t, hpet := hpet t, hpet_sdt := hpet_sdt t, num_hpet_comparators := num_hpet_comparators t,
      hpet_period := hpet_period t,
      acpi := (acpi s)\<lparr>acpi_kernel := (case hp of None \<Rightarrow> kernel_of s | Some p \<Rightarrow> K)\<rparr>\<rparr> \<and>
    (pic_idle (trace s) \<longrightarrow> pic_idle (trace t))"
proof (cases hp)
  case None
  then have "hpet_init dev lit func mpe_func s = Some (SYS_ERR, s\<lparr>hpet_sdt := 0\<rparr>)"
    using acpi_get_sdt_signed [OF table root] by (simp add: hpet_init_def)
  then show ?thesis using None by (simp add: kernel_of_def)
next
  case (Some p)
  note f = found [OF Some]
  let ?s1 = "s\<lparr>hpet_sdt := p, acpi := (acpi s)\<lparr>acpi_kernel := K\<rparr>, hpet := PHYS_TO_VIRT a,
    trace := Read64 (PHYS_TO_VIRT a) # trace s\<rparr>"
  have get: "acpi_get_sdt (lit ''HPET'') (acpi s) = Some p"
    using acpi_get_sdt_signed [OF table root] by (simp add: Some)
  have map: "platform_map func mpe_func (PHYS_TO_VIRT a) a 1 VM_MMIO (s\<lparr>hpet_sdt := p\<rparr>) =
      Some (s\<lparr>hpet_sdt := p, acpi := (acpi s)\<lparr>acpi_kernel := K\<rparr>\<rparr>)"
    using f by (simp add: platform_map_def kernel_of_def)
  let ?v = "dev (trace s) (Read64 (PHYS_TO_VIRT a)) AND push_bit LEG_RT_CAP 1"
  let ?n = "ucast (hpet_comparator_count p (ram K)) + 1 :: u16"
  define u where "u = snd (hpet_reset_comparators dev (?s1\<lparr>num_hpet_comparators := ?n\<rparr>))"
  have u: "u = ?s1\<lparr>num_hpet_comparators := ?n, trace := trace u\<rparr>" "pic_idle (trace s) \<longrightarrow> pic_idle (trace u)"
    using only_trace_comparators [of "?s1\<lparr>num_hpet_comparators := ?n\<rparr>" dev] by (simp_all add: only_trace_def u_def)
  show ?thesis
  proof (cases "?v = 0")
    case True
    then show ?thesis using f get map
      by (simp add: hpet_init_def Let_def Some kernel_of_def GEN_CAPABILITIES_READ_def read64_def general_capabilities_def)
  next
    case nz: False
    have q: "drop_bit 32 (dev t (Read64 (PHYS_TO_VIRT a))) \<noteq> 0" for t by (rule period)
    obtain tu where tu: "u = ?s1\<lparr>num_hpet_comparators := ?n, trace := tu\<rparr>" "pic_idle (trace s) \<longrightarrow> pic_idle tu"
      using u by blast
    show ?thesis using f get map nz
      by (simp add: hpet_init_def Let_def Some kernel_of_def GEN_CAPABILITIES_READ_def read64_def
          general_capabilities_def split_beta u_def [symmetric] hpet_enable_def GEN_CONFIG_SET_def write64_def)
        (use q [of tu] q in \<open>auto simp: tu\<close>)
  qed
qed

section \<open>The local interrupt controller\<close>

text \<open>\<open>K\<close> is the memory manager after the registers, at the physical address \<open>a\<close>, are mapped.\<close>

lemma apic_step:
  fixes s :: "'a platform_state_scheme"
  assumes cpu: "check_2xapic_exists hw \<noteq> 0 \<or> check_apic_exists hw \<noteq> 0"
    and msr: "(ucast (read_msr IA32_APIC_BASE_MSR s) :: u32) AND IA32_APIC_BASE_MSR_X2APIC = 0" "two_acpi_enabled s = 0"
    and base: "madt_get_local_apic_base (acpi s) = a" "PHYS_TO_VIRT a \<noteq> 0"
    and map: "vm_map func mpe_func 0 (PHYS_TO_VIRT a) a 1 VM_MMIO (kernel_of s) = Some K"
    and errors: "\<And>t. (ucast (dev t (Read32 (PHYS_TO_VIRT a + 0x280))) :: u32) AND 0xFF = 0"
  shows "\<exists>t. apic_init dev hw func mpe_func s = Some (s\<lparr>trace := t, local_apic_base := PHYS_TO_VIRT a,
      acpi := (acpi s)\<lparr>acpi_kernel := K\<rparr>\<rparr>) \<and>
    (\<forall>c d. chip_of c d t = chip_of c d (trace s)) \<and> last_write32 (PHYS_TO_VIRT a + 0xF0) t = Some 0x127"
proof -
  let ?b = "PHYS_TO_VIRT a"
  let ?t = "[Read32 (?b + 0x280), Write32 (?b + 0x280) 1] @ trace s"
  let ?t' = "[Read32 (?b + 0x30), Write32 (?b + 0xF0) 0x127] @ ?t"
  have same: "s\<lparr>two_acpi_enabled := 0\<rparr> = s" using msr(2) by simp
  have present: "(check_2xapic_exists hw = 0 \<and> check_apic_exists hw = 0) = False" using cpu by blast
  have "platform_map func mpe_func ?b (VIRT_TO_PHYS ?b) 1 VM_MMIO (s\<lparr>local_apic_base := ?b, trace := ?t\<rparr>) =
      Some (s\<lparr>local_apic_base := ?b, trace := ?t, acpi := (acpi s)\<lparr>acpi_kernel := K\<rparr>\<rparr>)"
    using map by (simp add: platform_map_def kernel_of_def)
  then have "apic_init dev hw func mpe_func s =
      Some (s\<lparr>trace := Read32 (?b + 0x280) # ?t', local_apic_base := ?b, acpi := (acpi s)\<lparr>acpi_kernel := K\<rparr>\<rparr>)"
    using msr base errors
    by (simp add: present same apic_init_def Let_def apic_reset_error_reg_def apic_write_reg_def apic_read_reg_def write32_def read32_def
        apic_enable_def apic_check_error_reg_iff)
  then show ?thesis by (intro exI conjI) (assumption, simp_all)
qed

section \<open>Interrupts and the keyboard\<close>

lemma irq_more [simp]:
  "irq_state.more (pic_set_mask m s) = irq_state.more s"
  "irq_state.more (snd (pic_probe dev s)) = irq_state.more s"
  "irq_state.more (update_gate i f s) = irq_state.more s"
  for s :: "'a irq_state_scheme"
  by (simp_all add: pic_set_mask_def pic_probe_def pic_disable_def pic_get_mask_def outb_def inb_def io_wait_def Let_def
      split_beta update_gate_def)

lemma irq_more_configure [simp]: "irq_state.more (pic_configure o1 o2 s) = irq_state.more s" for s :: "'a irq_state_scheme"
  by (simp add: pic_configure_def Let_def outb_def io_wait_def)

lemma irq_more_pit [simp]: "irq_state.more (pit_init hertz s) = irq_state.more s" for s :: "'a irq_state_scheme"
  by (simp add: pit_init_def Let_def outb_def pic_unmask_def)

lemma irq_more_register [simp]:
  "irq_state.more (isr_register_handler i h s) = irq_state.more s"
  "irq_state.more (irq_register_handler j g s) = irq_state.more s"
  by (simp_all add: isr_register_handler_def idt_enable_gate_def irq_register_handler_def Let_def)

lemma irq_more_fold: "(\<And>x s. irq_state.more (f x s) = irq_state.more s) \<Longrightarrow> irq_state.more (fold f xs s) = irq_state.more s"
  by (induction xs arbitrary: s) simp_all

lemma irq_init_more: "irq_state.more (irq_init dev s) = irq_state.more s"
  by (simp add: irq_init_def Let_def split_beta enable_interrupts_def disable_interrupts_def irq_more_fold
      del: upt_rec_numeral)

text \<open>Registering a handler opens a gate and leaves its target.\<close>

definition keeps_gates :: "'a irq_state_scheme \<Rightarrow> 'a irq_state_scheme \<Rightarrow> bool" where
  "keeps_gates s t \<longleftrightarrow> List.length (g_idt t) = List.length (g_idt s) \<and>
     (\<forall>v < List.length (g_idt s). gate_target (g_idt t ! v) = gate_target (g_idt s ! v) \<and>
        (gate_present (g_idt s ! v) \<longrightarrow> gate_present (g_idt t ! v)))"

lemma keeps_gates_trans: "keeps_gates s t \<Longrightarrow> keeps_gates t u \<Longrightarrow> keeps_gates s u"
  by (simp add: keeps_gates_def)

lemma keeps_gates_idt: "g_idt t = g_idt s \<Longrightarrow> keeps_gates s t"
  by (simp add: keeps_gates_def)

lemma keeps_gates_register: "keeps_gates s (isr_register_handler i h s)"
  by (auto simp: keeps_gates_def isr_register_handler_def Let_def idt_enable_gate_def update_gate_nth
      gate_target_def gate_present_def bit_or_iff)

lemma irq_init_gates:
  fixes s :: "'a irq_state_scheme"
  shows "keeps_gates s (irq_init dev s)"
proof -
  have regs: "keeps_gates u (fold (\<lambda>i. isr_register_handler (PIC_REMAP_OFFSET + i) IRQ_HANDLER) xs u)"
    for xs and u :: "'a irq_state_scheme"
    by (induction xs arbitrary: u) (auto simp: keeps_gates_idt intro: keeps_gates_trans keeps_gates_register)
  let ?s = "snd (pic_probe dev (disable_interrupts s))"
  let ?r = "irq_register_handler 0 CLKHANDLER (pit_init PIT_1MS (pic_configure 0x20 0x28 ?s))"
  have idt: "g_idt ?s = g_idt s" "g_idt ?r = g_idt s"
    by (simp_all add: disable_interrupts_def irq_register_handler_def)
  have "keeps_gates s (enable_interrupts (fold (\<lambda>i. isr_register_handler (PIC_REMAP_OFFSET + i) IRQ_HANDLER)
      [0..<NUM_HARDWARE_INTERRUPTS] ?r))"
    using keeps_gates_trans [OF keeps_gates_trans [OF keeps_gates_idt [OF idt(2)] regs] keeps_gates_idt]
    by (simp add: enable_interrupts_def del: upt_rec_numeral)
  then show ?thesis using keeps_gates_idt [OF idt(1)]
    by (simp add: irq_init_def Let_def split_beta del: upt_rec_numeral)
qed

lemma keyboard_step:
  assumes quiet: "\<And>t. ucast (dev t (In8 0x64)) AND (0x01 :: u8) = 0"
  shows "\<exists>t. on_console (keyboard_init dev) s = Some (s\<lparr>trace := t, interrupts_on := True,
      g_irq_handler := (g_irq_handler s)[1 := Some KBHANDLER], g_pic_mask := g_pic_mask s AND NOT (push_bit 1 1)\<rparr>) \<and>
    (in_sync o1 o2 s \<longrightarrow> in_sync o1 o2 (s\<lparr>trace := t, g_pic_mask := g_pic_mask s AND NOT (push_bit 1 1)\<rparr>))"
proof -
  let ?c = "console_of s"
  let ?t = "[Out8 0x64 0xA8, Out8 0x64 0xAE, In8 0x64, Out8 0x64 0xA7, Out8 0x64 0xAD] @ trace s"
  let ?h = "(g_irq_handler s)[1 := Some KBHANDLER]" and ?m = "g_pic_mask s AND NOT (push_bit 1 1)"
  let ?u = "?c\<lparr>interrupts_on := False, trace := ?t, g_irq_handler := ?h\<rparr>"
  define t where "t = trace (pic_unmask 1 ?u)"
  have poll: "poll (flush_device dev) c = Some (c\<lparr>trace := In8 0x64 # trace c\<rparr>)" for c :: console_state
    using quiet by (subst poll.simps) (simp add: flush_device_def inb_def)
  have c: "trace ?c = trace s" "g_irq_handler ?c = g_irq_handler s" "g_pic_mask ?c = g_pic_mask s"
    by (simp_all add: console_of_def irq_state.defs)
  have t: "t = trace (pic_set_mask ?m (s\<lparr>trace := ?t\<rparr>))"
    by (simp add: t_def pic_unmask_def c pic_set_mask_trace)
  have "keyboard_init dev ?c = Some (enable_interrupts (pic_unmask 1 ?u))"
    by (simp add: keyboard_init_def poll Let_def outb_def disable_interrupts_def irq_register_handler_def c)
  also have "enable_interrupts (pic_unmask 1 ?u) = ?c\<lparr>trace := t, interrupts_on := True, g_irq_handler := ?h, g_pic_mask := ?m\<rparr>"
    by (simp add: enable_interrupts_def pic_unmask_def c t_def pic_set_mask_def Let_def outb_def io_wait_def)
  finally have "on_console (keyboard_init dev) s =
      Some (s\<lparr>trace := t, interrupts_on := True, g_irq_handler := ?h, g_pic_mask := ?m\<rparr>)"
    by (cases s) (simp add: on_console_def console_of_def irq_state.defs console_state.defs set_memory_def
        set_kernel_def kernel_of_def)
  moreover have "in_sync o1 o2 (s\<lparr>trace := t, g_pic_mask := ?m\<rparr>)" if "in_sync o1 o2 s"
  proof -
    have "in_sync o1 o2 (s\<lparr>trace := ?t\<rparr>)" using that by (simp add: in_sync_def running_def hw_mask_def)
    from in_sync_set_mask [OF this, of ?m] show ?thesis by (simp add: in_sync_def t)
  qed
  ultimately show ?thesis by blast
qed

section \<open>The font\<close>

text \<open>
  A file is the system's font in every memory that has the loader's strings and the file's header.
\<close>

definition font_file :: "(u64 \<Rightarrow> bool) \<Rightarrow> u64 \<Rightarrow> limine_file list \<Rightarrow> limine_file \<Rightarrow> mem \<Rightarrow> bool" where
  "font_file fixed_byte path modules f m \<longleftrightarrow>
     (\<forall>m'. (\<forall>a. fixed_byte a \<longrightarrow> m' a = m a) \<longrightarrow> get_iso_file path (Some modules) m' = Some (Some f)) \<and>
     (\<forall>i \<in> set [0..<4]. fixed_byte (file_address f + of_nat i)) \<and>
     PSF1_MAGIC_CHECK (load16 (file_address f) m) \<and> m (file_address f + 3) \<noteq> 0"

lemma copy_header_bytes:
  assumes dis: "\<And>i j. i < 4 \<Longrightarrow> j < 4 \<Longrightarrow> p + of_nat i \<noteq> h + of_nat j"
  shows "load16 p (copy_header p h m) = load16 h m" "copy_header p h m (p + 3) = m (h + 3)"
    "\<not> in_range p 4 a \<Longrightarrow> copy_header p h m a = m a"
proof -
  have out: "\<not> in_range p 2 (p + 2)" "\<not> in_range p 2 (p + 3)" by (simp_all add: in_range_def)
  have "\<not> in_range p 2 (h + of_nat j)" if "j < 4" for j
  proof
    assume "in_range p 2 (h + of_nat j)"
    then obtain i where "i < 2" "h + of_nat j = p + of_nat i" by (rule in_rangeE)
    with dis [of i j] that show False by simp
  qed
  from this [of 2] this [of 3] dis [of 2 3]
  have h: "\<not> in_range p 2 (h + 2)" "\<not> in_range p 2 (h + 3)" "h + 3 \<noteq> p + 2" by auto
  have "load_le 2 p (copy_header p h m) = load_le 2 p (store16 p (load16 h m) m)"
    by (rule load_le_cong) (use out in \<open>auto simp: copy_header_def Let_def\<close>)
  also have "\<dots> = take_bit 16 (ucast (load16 h m))" by (simp add: store16_def load_store_le)
  finally have "load16 p (copy_header p h m) = ucast (take_bit 16 (ucast (load16 h m) :: u64))"
    unfolding load16_def [of p] by (rule arg_cong)
  moreover have "(ucast (take_bit 16 (ucast x :: u64)) :: u16) = x" for x
    by (rule bit_word_eqI) (auto simp: bit_simps)
  ultimately show "load16 p (copy_header p h m) = load16 h m" by simp
  show "copy_header p h m (p + 3) = m (h + 3)"
    using h by (simp add: copy_header_def Let_def store16_def store_le_apply)
  show "\<not> in_range p 4 a \<Longrightarrow> copy_header p h m a = m a"
    by (auto simp: copy_header_def Let_def store16_def store_le_apply in_range_def)
qed

text \<open>The block of the header, and the copy of the file's four bytes into it.\<close>

lemma header_block:
  fixes h :: u64
  assumes ok: "kernel_ok K" and sup: "stock (2 + r) K"
    and fixed: "\<And>j. j < 4 \<Longrightarrow> frame_of (h + of_nat j) \<notin> kernel_frames K"
  shows "\<exists>p K1 K2. kmalloc_impl 4 func 74 K = Some (p, K1) \<and> K2 = K1\<lparr>ram := copy_header p h (ram K1)\<rparr> \<and> p \<noteq> 0 \<and>
    only_changes (kernel_frames K) K K1 \<and> load16 p (ram K2) = load16 h (ram K1) \<and>
    quiet_step K K2 \<and> stock r K2 \<and> ram K2 (p + 3) = ram K (h + 3) \<and> frame_of (p + 3) \<notin> kernel_frames K2"
proof -
  have al: "alloc_ok K" if "kernel_ok K" for K using list_okD(1) [OF as_okD(1) [OF kernel_okD(1) [OF that]]] .
  have b: "unat (4 :: u64) \<le> 2 ^ 47" and pages: "block_pages 4 = 2" by (simp_all add: block_pages_def NUM_PAGES_def)
  obtain p K1 where k1: "kmalloc_impl 4 func 74 K = Some (p, K1)" and st1: "stock r K1"
    using kmalloc_stock [OF al [OF ok] b sup [folded pages], of func 74] by blast
  note a1 = kernel_kmalloc [OF ok b k1]
  note q1 = quiet_stepD [OF a1(1)]
  note s1 = kernel_stepD [OF q1(1)]
  have own: "block_frames p 4 \<subseteq> kernel_frames K" using a1(4) by (auto simp: kernel_frames_alt)
  have blk: "frame_of a \<in> block_frames p 4" if "in_range p 4 a" for a
    using payload_frame [OF a1(2)] that by simp
  have dis: "p + of_nat i \<noteq> h + of_nat j" if "i < 4" "j < 4" for i j
  proof
    assume eq: "p + of_nat i = h + of_nat j"
    have "frame_of (p + of_nat i) \<in> kernel_frames K"
      using blk [of "p + of_nat i"] own that(1) by (auto simp: in_range_def unat_of_nat64)
    then show False using fixed [OF that(2)] by (simp add: eq)
  qed
  note ch = copy_header_bytes [OF dis]
  define K2 where "K2 = K1\<lparr>ram := copy_header p h (ram K1)\<rparr>"
  have "\<forall>a. frame_of a \<in> kernel_frames K1 \<longrightarrow> copy_header p h (ram K1) a = ram K1 a"
    using ch(3) blk a1(3) by auto
  note w = kernel_write_other [OF s1(1) this, folded K2_def]
  have oc: "only_changes (kernel_frames K) K1 K2"
    using ch(3) blk own by (auto simp: only_changes_def same_layout_def K2_def)
  have root: "as_pml4 0 K2 = as_pml4 0 K" "cr3 K2 = cr3 K" using w(3) s1(2,6) by (simp_all add: K2_def)
  then have "kernel_step K K2"
    using only_changes_trans [OF s1(4) oc] s1(3,5) w(1,4,5) by (simp add: kernel_step_def)
  then have "quiet_step K K2" using q1 w(2,7,8) root s1(2) by (simp add: quiet_step_def)
  moreover have "stock r K2" using st1 by (simp add: stock_def w(6))
  moreover have "frame_of (p + 3) \<notin> kernel_frames K2" using a1(3) blk [of "p + 3"] w(4) by (auto simp: in_range_def)
  moreover have "ram K2 (p + 3) = ram K (h + 3)"
    using s1(4) fixed [of 3] ch(2) by (simp add: K2_def only_changes_def)
  moreover have "load16 p (ram K2) = load16 h (ram K1)" using ch(1) by (simp add: K2_def)
  moreover have "p \<noteq> 0" by (rule heap_block_nonzero [OF a1(2) al [OF s1(1)]])
  ultimately show ?thesis using k1 s1(4) K2_def by blast
qed

lemma font_step:
  assumes ok: "kernel_ok K" and sup: "stock (4 + r) K"
    and fixed: "\<And>a. fixed_byte a \<Longrightarrow> frame_of a \<notin> kernel_frames K"
    and fnt: "font_file fixed_byte path modules f (ram K)"
  shows "\<exists>K' p. psf1_font_init func mode_func (Some modules) path \<lparr>font_kernel = K, psf_font = fo\<rparr> =
      Some \<lparr>font_kernel = K', psf_font = fo\<lparr>font_header := p, glyph_buffer := file_address f + 4\<rparr>\<rparr> \<and>
    quiet_step K K' \<and> stock r K' \<and> p \<noteq> 0 \<and> ram K' (p + 3) = ram K (file_address f + 3)"
proof -
  let ?h = "file_address f"
  have b: "unat (256 :: u64) \<le> 2 ^ 47" and pages: "block_pages 256 = 2" by (simp_all add: block_pages_def NUM_PAGES_def)
  have hb: "fixed_byte (?h + of_nat j)" if "j < 4" for j using fnt that by (auto simp: font_file_def)
  have "stock (2 + (2 + r)) K" by (rule stock_mono [OF sup]) simp_all
  from header_block [OF ok this fixed [OF hb], of func] obtain p K1 K2 where
    k1: "kmalloc_impl 4 func 74 K = Some (p, K1)" and K2: "K2 = K1\<lparr>ram := copy_header p ?h (ram K1)\<rparr>" and
    p: "p \<noteq> 0" "only_changes (kernel_frames K) K K1" "load16 p (ram K2) = load16 ?h (ram K1)" "quiet_step K K2"
    "stock (2 + r) K2" "ram K2 (p + 3) = ram K (?h + 3)" "frame_of (p + 3) \<notin> kernel_frames K2" by blast
  have fix1: "ram K1 a = ram K a" if "fixed_byte a" for a
    using p(2) fixed [OF that] by (simp add: only_changes_def)
  have head: "load16 ?h (ram K1) = load16 ?h (ram K)"
    using fix1 [OF hb]
    by (auto simp: load16_def elim!: in_rangeE intro!: arg_cong [where f = ucast] load_le_cong)
  note s2 = kernel_stepD [OF quiet_stepD(1) [OF p(4)]]
  obtain p2 K3 where k2: "kmalloc_impl 256 mode_func 20 K2 = Some (p2, K3)" and st3: "stock r K3"
    using kmalloc_stock [OF list_okD(1) [OF as_okD(1) [OF kernel_okD(1) [OF s2(1)]]] b p(5) [folded pages], of mode_func 20]
    by blast
  note a3 = kernel_kmalloc [OF s2(1) b k2]
  have "ram K3 (p + 3) = ram K (?h + 3)"
    using kernel_stepD(4) [OF quiet_stepD(1) [OF a3(1)]] p(6,7) by (simp add: only_changes_def)
  moreover have "get_iso_file path (Some modules) (ram K1) = Some (Some f)"
    using fnt fix1 by (simp add: font_file_def)
  then have "psf1_font_init func mode_func (Some modules) path \<lparr>font_kernel = K, psf_font = fo\<rparr> =
      Some \<lparr>font_kernel = K3, psf_font = fo\<lparr>font_header := p, glyph_buffer := ?h + 4\<rparr>\<rparr>"
    using k1 k2 [unfolded K2] p(1) fnt p(3) [unfolded K2] head
    by (simp add: psf1_font_init_def psf1_get_glyphs_def psf1_font_mode_def Let_def font_file_def)
  ultimately show ?thesis using st3 quiet_step_trans [OF p(4) a3(1)] p(1) by blast
qed

end
