(* ===== verification/System_Boot.thy ===== *)
theory System_Boot
  imports System_Start Screen_Properties
begin

text \<open>
  The whole of \<^verbatim>\<open>system_init\<close>: what it is given, and the stages it goes through.
\<close>

section \<open>The machine before start-up\<close>

definition fresh_system :: "kernel_system \<Rightarrow> bool" where
  "fresh_system s \<longleftrightarrow>
     sys_num_gdt s = 0 \<and> List.length (sys_gdt s) = NUM_CPUS \<and> tables_ok s \<and>
     g_irq_handler s = replicate 16 None \<and>
     memory_list (kernel_addr_space (kernel_of s)) = no_vec \<and> global_mem_map (kernel_of s) = no_vec \<and>
     num_local_apic (acpi s) = 0 \<and> List.length (local_apics (acpi s)) = 256 \<and>
     num_io_apics (acpi s) = 0 \<and> List.length (io_apics (acpi s)) = 4 \<and>
     two_acpi_enabled s = 0 \<and> pic_idle (trace s)"

text \<open>Bytes that start-up leaves alone: outside the memory the loader declares usable, and not on the stack.\<close>

definition fixed_byte :: "memmap_entry list \<Rightarrow> kernel_image \<Rightarrow> u64 \<Rightarrow> bool" where
  "fixed_byte es img a \<longleftrightarrow> frame_of a \<notin> usable_frames es \<and> \<not> cpu_buffer img a"

definition agrees :: "(u64 \<Rightarrow> bool) \<Rightarrow> mem \<Rightarrow> mem \<Rightarrow> bool" where
  "agrees P m m' \<longleftrightarrow> (\<forall>a. P a \<longrightarrow> m' a = m a)"

text \<open>
  The firmware's tables, read in every memory that has its bytes: the root pointer \<open>r\<close>, the table \<open>p\<close>
  of interrupt controllers with records \<open>rs\<close> and the address \<open>la\<close> of the local controller, and
  perhaps a table \<open>hp\<close> of the event timer, with the address \<open>ha\<close> of its registers.
\<close>

definition firmware_tables ::
    "(u64 \<Rightarrow> bool) \<Rightarrow> (string \<Rightarrow> u64) \<Rightarrow> u64 \<Rightarrow> u64 \<Rightarrow> (u8 \<times> u8) list \<Rightarrow> u64 \<Rightarrow> u64 option \<Rightarrow> u64 \<Rightarrow> mem \<Rightarrow> bool" where
  "firmware_tables P lit r p rs la hp ha m \<longleftrightarrow>
     (\<forall>u. agrees P m (acpi_mem u) \<longrightarrow>
        acpi_tables lit r p rs u \<and> ucast (madt_lapic_address p (acpi_mem u)) = la \<and>
        signed_table lit ''HPET'' (rooted r u) hp \<and>
        (\<forall>q. hp = Some q \<longrightarrow> q \<noteq> 0 \<and> hpet_address q (acpi_mem u) = ha)) \<and>
     PHYS_TO_VIRT la \<noteq> 0"

text \<open>
  Devices that answer: interrupt controllers that read back their masks, a clock, a bus, a keyboard
  controller with nothing to say, an event timer that counts and a local controller without errors.
\<close>

definition devices_ready :: "hardware \<Rightarrow> (u8 \<Rightarrow> u8) \<Rightarrow> (u32 \<Rightarrow> u32) \<Rightarrow> u64 \<Rightarrow> u64 \<Rightarrow> bool" where
  "devices_ready dev clock reg la ha \<longleftrightarrow>
     masks_readable dev \<and> clock_answers dev clock \<and> config_space dev reg \<and>
     (\<forall>d < 32. function_present reg 0 (of_nat d) 0 \<longrightarrow> class_of reg 0 (of_nat d) \<noteq> 0) \<and>
     (\<forall>t. ucast (dev t (In8 0x64)) AND (0x01 :: u8) = 0) \<and>
     (\<forall>t. drop_bit 32 (dev t (Read64 (PHYS_TO_VIRT ha))) \<noteq> 0) \<and>
     (\<forall>t. (ucast (dev t (Read32 (PHYS_TO_VIRT la + 0x280))) :: u32) AND 0xFF = 0)"

text \<open>A processor with a local controller, not switched to its extended mode.\<close>

definition local_apic_ready :: "cpu_hw \<Rightarrow> 'a cpu_state_scheme \<Rightarrow> bool" where
  "local_apic_ready hw s \<longleftrightarrow>
     (check_2xapic_exists hw \<noteq> 0 \<or> check_apic_exists hw \<noteq> 0) \<and>
     (ucast (read_msr IA32_APIC_BASE_MSR s) :: u32) AND IA32_APIC_BASE_MSR_X2APIC = 0"

section \<open>Stages\<close>

definition processor_init :: "kernel_image \<Rightarrow> hardware \<Rightarrow> cpu_hw \<Rightarrow> kernel_system \<Rightarrow> kernel_system option" where
  "processor_init img dev hw s = do {
     let (_, s) = on_serial (serial_init dev) s;
     s \<leftarrow> on_gdt gdt_init s;
     let s = idt_init s;
     let s = on_cpu (cpu_init hw (literal img) (manufacturer_buffer img) (vendor_buffer img) (brand_buffer img)) s;
     Some (isr_init (ISR_stub img) s)
   }"

definition memory_init :: "boot_info \<Rightarrow> kernel_image \<Rightarrow> kernel_system \<Rightarrow> kernel_system option" where
  "memory_init b img s = do {
     s \<leftarrow> on_kernel (pm_init (mem_req b)) s;
     on_kernel (vm_init (literal img ''vm_init'') (literal img ''vm_map'') (literal img ''map_page_entry'')
       (mem_req b) (kernel_addr_request b)) s
   }"

definition platform_init :: "boot_info \<Rightarrow> kernel_image \<Rightarrow> hardware \<Rightarrow> kernel_system \<Rightarrow> kernel_system option" where
  "platform_init b img dev s = do {
     s \<leftarrow> on_acpi (acpi_init (literal img) (rsdp_request b)) s;
     (_, s) \<leftarrow> hpet_init dev (literal img) (literal img ''vm_map'') (literal img ''map_page_entry'') s;
     s \<leftarrow> on_rtc (cmos_init dev) s;
     on_pci (pci_init dev) s
   }"

definition screen_init :: "boot_info \<Rightarrow> kernel_image \<Rightarrow> kernel_system \<Rightarrow> kernel_system option" where
  "screen_init b img s = do {
     fb \<leftarrow> fb_init (framebuffer_req b) (initial_fb s);
     let s = s\<lparr>initial_fb := fb\<rparr>;
     s \<leftarrow> on_font (psf1_font_init (literal img ''psf1_font_init'') (literal img ''psf1_font_mode'')
            (psf_file_request b) (literal img ''zap-vga16.psf'')) s;
     t \<leftarrow> init_terminal (initial_fb s) (sys_font s) (memory s) (sys_term s);
     Some (s\<lparr>sys_term := t\<rparr>)
   }"

definition input_init :: "kernel_image \<Rightarrow> hardware \<Rightarrow> cpu_hw \<Rightarrow> kernel_system \<Rightarrow> kernel_system option" where
  "input_init img dev hw s = do {
     let s = irq_init dev s;
     s \<leftarrow> on_console (keyboard_init dev) s;
     apic_init dev hw (literal img ''vm_map'') (literal img ''map_page_entry'') s
   }"

lemma system_init_stages:
  "base_revision_supported b \<Longrightarrow> bl_info_req b \<noteq> None \<Longrightarrow>
   system_init b img dev hw s = do {
     s \<leftarrow> processor_init img dev hw s;
     s \<leftarrow> memory_init b img s;
     s \<leftarrow> platform_init b img dev s;
     s \<leftarrow> screen_init b img s;
     input_init img dev hw s
   }"
  by (auto simp: system_init_def processor_init_def memory_init_def platform_init_def screen_init_def input_init_def
      print_boot_info_def case_prod_unfold Let_def)

section \<open>Tables of the processor\<close>

definition machine_up :: "kernel_image \<Rightarrow> kernel_system \<Rightarrow> kernel_system \<Rightarrow> bool" where
  "machine_up img s t \<longleftrightarrow>
     acpi t = (acpi s)\<lparr>acpi_kernel := (kernel_of s)\<lparr>ram := memory t\<rparr>\<rparr> \<and>
     (\<forall>a. \<not> cpu_buffer img a \<longrightarrow> memory t a = memory s a) \<and>
     tables_ok t \<and> (\<forall>i < 256. gate_target (g_idt t ! i) = ISR_stub img i \<and> (gate_present (g_idt t ! i) \<longleftrightarrow> i \<noteq> 0x80)) \<and>
     g_irq_handler t = g_irq_handler s \<and> pic_idle (trace t) \<and>
     sys_gdt t = [gdt_fill zero_table] \<and> sys_gdtr t = Some (71, 0) \<and>
     two_acpi_enabled t = two_acpi_enabled s \<and> (\<forall>hw. local_apic_ready hw s \<longrightarrow> local_apic_ready hw t) \<and>
     sys_devices t = sys_devices s"

lemma machine_upD:
  assumes "machine_up img s t"
  shows "\<not> cpu_buffer img a \<Longrightarrow> memory t a = memory s a" "tables_ok t"
    "i < 256 \<Longrightarrow> gate_target (g_idt t ! i) = ISR_stub img i"
    "i < 256 \<Longrightarrow> gate_present (g_idt t ! i) \<longleftrightarrow> i \<noteq> 0x80"
    "g_irq_handler t = g_irq_handler s" "pic_idle (trace t)" "sys_gdt t = [gdt_fill zero_table]"
    "sys_gdtr t = Some (71, 0)" "two_acpi_enabled t = two_acpi_enabled s"
    "local_apic_ready hw s \<Longrightarrow> local_apic_ready hw t" "sys_devices t = sys_devices s"
  using assms unfolding machine_up_def by blast+

lemma fold_gates_length [simp]:
  "List.length (g_idt (fold (\<lambda>j. update_gate j (f j)) js s)) = List.length (g_idt s)"
  by (induction js arbitrary: s) simp_all

lemma idt_init_length [simp]: "List.length (g_idt (idt_init s)) = List.length (g_idt s)"
  by (simp add: idt_init_def Let_def)

lemma isr_init_length [simp]: "List.length (g_idt (isr_init ISR s)) = List.length (g_idt s)"
  by (simp add: isr_init_def Let_def isr_init_entries_fold isr_gate_update idt_enable_gate_def [abs_def]
      idt_disable_gate_def enable_interrupts_def)

lemma isr_init_gates:
  assumes "List.length (g_idt s) = 256" and "i < 256"
  shows "gate_target (g_idt (isr_init ISR s) ! i) = ISR i"
    "gate_present (g_idt (isr_init ISR s) ! i) \<longleftrightarrow> i \<noteq> 0x80"
  using isr_init_gate [OF assms, of ISR] by (simp_all add: gate_present_def bit_iff_odd)

lemma local_apic_ready_cong:
  "msr_low t IA32_APIC_BASE_MSR = msr_low s IA32_APIC_BASE_MSR \<Longrightarrow>
   msr_high t IA32_APIC_BASE_MSR = msr_high s IA32_APIC_BASE_MSR \<Longrightarrow>
   local_apic_ready hw t \<longleftrightarrow> local_apic_ready hw s"
  by (simp add: local_apic_ready_def read_msr_def)

lemma processor_runs:
  fixes s :: kernel_system and dev :: hardware
  assumes fresh: "fresh_system s"
  shows "\<exists>s3. processor_init img dev hw s = Some s3 \<and> machine_up img s s3"
proof -
  obtain r t f where s1: "on_serial (serial_init dev) s = (r, s\<lparr>trace := t, sys_serial_faulty := f\<rparr>)"
    and t: "pic_idle (trace s) \<longrightarrow> pic_idle t" using serial_step by blast
  let ?s1 = "s\<lparr>trace := t, sys_serial_faulty := f\<rparr>"
  define s2 where "s2 = ?s1\<lparr>sys_num_gdt := 1, sys_gdt := [gdt_fill zero_table], sys_gdtr := Some (71, 0)\<rparr>"
  have r2: "on_gdt gdt_init ?s1 = Some s2"
    using gdt_step [of ?s1] fresh by (simp add: fresh_system_def s2_def)
  let ?i = "s2\<lparr>g_idt := g_idt (idt_init s2), idt_loaded := True\<rparr>"
  obtain m c l h where cpu: "on_cpu (cpu_init hw (literal img) (manufacturer_buffer img) (vendor_buffer img) (brand_buffer img)) ?i =
      ?i\<lparr>cpu_mem := m, cr4 := c, msr_low := l, msr_high := h, acpi := (acpi ?i)\<lparr>acpi_kernel := (kernel_of ?i)\<lparr>ram := m\<rparr>\<rparr>\<rparr>"
    and m: "\<forall>a. \<not> cpu_buffer img a \<longrightarrow> m a = memory ?i a"
    and msr: "\<forall>n. n \<noteq> MSR_PAT \<longrightarrow> l n = msr_low ?i n \<and> h n = msr_high ?i n"
    using cpu_step by blast
  define u where "u = on_cpu (cpu_init hw (literal img) (manufacturer_buffer img) (vendor_buffer img) (brand_buffer img)) ?i"
  note u = u_def [unfolded cpu]
  have len: "List.length (g_idt u) = 256"
    using fresh by (simp add: u s2_def fresh_system_def tables_ok_def)
  note gates = isr_init_gates [OF len, of _ "ISR_stub img"]
  obtain g where g: "g = g_idt (isr_init (ISR_stub img) u)" by simp
  define s3 where "s3 = u\<lparr>g_idt := g, interrupts_on := True\<rparr>"
  have r3: "isr_init (ISR_stub img) u = s3" unfolding s3_def g by (rule isr_init_update)
  have g3: "List.length g = 256"
    "\<forall>i < 256. gate_target (g ! i) = ISR_stub img i \<and> (gate_present (g ! i) \<longleftrightarrow> i \<noteq> 0x80)"
    using gates len by (simp_all add: g)
  have "local_apic_ready hw s3 \<longleftrightarrow> local_apic_ready hw s" for hw
    by (rule local_apic_ready_cong) (use msr in \<open>simp_all add: s3_def u s2_def\<close>)
  then have "machine_up img s s3"
    using fresh m t g3 by (simp add: machine_up_def fresh_system_def s3_def u s2_def kernel_of_def tables_ok_def)
  moreover have "isr_init (ISR_stub img) (on_cpu (cpu_init hw (literal img) (manufacturer_buffer img) (vendor_buffer img) (brand_buffer img)) (idt_init s2)) = s3"
    by (subst idt_init_update) (simp only: r3 [symmetric] u_def)
  ultimately show ?thesis using s1 r2 by (simp add: processor_init_def)
qed

section \<open>The memory manager during start-up\<close>

definition space_ready :: "u64 \<Rightarrow> u64 \<times> u64 \<Rightarrow> memmap_entry list \<Rightarrow> mem_map list \<Rightarrow> kstate \<Rightarrow> bool" where
  "space_ready limit k es ms K \<longleftrightarrow> kernel_ok K \<and>
     mem_maps K = shared_direct_map limit # entry_maps k es @ ms \<and>
     translate (ram K) (as_pml4 0 K) = fold apply_map (boot_maps limit k es @ ms) (\<lambda>_. None) \<and>
     cr3 K = VIRT_TO_PHYS (as_pml4 0 K)"

text \<open>With \<open>r\<close> pages in stock, at most \<open>t\<close> tables, and everything but usable memory as in \<open>m\<close>.\<close>

definition supplied :: "memmap_entry list \<Rightarrow> nat \<Rightarrow> nat \<Rightarrow> mem \<Rightarrow> kstate \<Rightarrow> bool" where
  "supplied es t r m K \<longleftrightarrow> 0 \<notin> kernel_pool K \<and> card (table_paths (ram K) (as_pml4 0 K)) \<le> t \<and> stock r K \<and>
     kernel_frames K \<subseteq> usable_frames es \<and> agrees (\<lambda>a. frame_of a \<notin> usable_frames es) m (ram K)"

lemma suppliedD:
  assumes "supplied es t r m K"
  shows "0 \<notin> kernel_pool K" "card (table_paths (ram K) (as_pml4 0 K)) \<le> t" "stock r K"
    "kernel_frames K \<subseteq> usable_frames es" "frame_of a \<notin> usable_frames es \<Longrightarrow> ram K a = m a"
  using assms by (simp_all add: supplied_def agrees_def)

definition device_map :: "u64 \<Rightarrow> mem_map" where
  "device_map a = \<lparr>mm_virt_addr = PHYS_TO_VIRT a, mm_phys_addr = a, mm_flags = VM_MMIO, mm_num_pages = 1\<rparr>"

lemma supplied_step:
  assumes sup: "supplied es t r m K" and step: "kernel_step K K'" and st: "stock r' K'"
    and t: "card (table_paths (ram K') (as_pml4 0 K)) \<le> t'"
  shows "supplied es t' r' m K'"
proof -
  note k = kernel_stepD [OF step] and d = suppliedD [OF sup]
  have "ram K' a = m a" if "frame_of a \<notin> usable_frames es" for a
    using that k(4) d(4,5) by (auto simp: only_changes_def)
  then show ?thesis using k(2,3,5) d(1,4) st t by (auto simp: supplied_def agrees_def)
qed

lemma space_mmio:
  assumes rdy: "space_ready limit k es ms K"
    and sup: "supplied es t (mmio_pages t (Suc (List.length (entry_maps k es) + List.length ms)) + r) m K"
    and short: "List.length (entry_maps k es) + List.length ms + 1 < 2 ^ 40"
  shows "\<exists>K'. vm_map f h 0 (PHYS_TO_VIRT a) a 1 VM_MMIO K = Some K' \<and>
    space_ready limit k es (ms @ [device_map a]) K' \<and> supplied es (t + 3) r m K'"
proof -
  have ok: "kernel_ok K" and l: "List.length (mem_maps K) = Suc (List.length (entry_maps k es) + List.length ms)"
    using rdy by (simp_all add: space_ready_def)
  note d = suppliedD [OF sup]
  from kernel_mmio [OF ok d(1,2) d(3) [folded l]] short obtain K' where
    K': "vm_map f h 0 (PHYS_TO_VIRT a) a 1 VM_MMIO K = Some K'" "kernel_step K K'"
    "mem_maps K' = mem_maps K @ [device_map a]"
    "translate (ram K') (as_pml4 0 K) = apply_map (device_map a) (translate (ram K) (as_pml4 0 K))"
    "card (table_paths (ram K') (as_pml4 0 K)) \<le> t + 3" "stock r K'"
    by (fastforce simp: l device_map_def)
  have "space_ready limit k es (ms @ [device_map a]) K'"
    using kernel_stepD [OF K'(2)] K'(3,4) rdy by (simp add: space_ready_def)
  then show ?thesis using K'(1) supplied_step [OF sup K'(2,6,5)] by blast
qed

lemma space_quiet:
  assumes rdy: "space_ready limit k es ms K" and sup: "supplied es t r m K"
    and quiet: "quiet_step K K'" and st: "stock r' K'"
  shows "space_ready limit k es ms K'" "supplied es t r' m K'"
proof -
  note q = quiet_stepD [OF quiet]
  note s = kernel_stepD [OF q(1)]
  show "space_ready limit k es ms K'" using rdy q(2,3) s by (simp add: space_ready_def)
  show "supplied es t r' m K'"
    by (rule supplied_step [OF sup q(1) st]) (use q(4) suppliedD(2) [OF sup] in simp)
qed

lemma supplied_mono: "supplied es t r m K \<Longrightarrow> r' \<le> r \<Longrightarrow> supplied es t r' m K"
  by (auto simp: supplied_def intro: stock_mono)

lemma mmio_pages_mono: "g \<le> g' \<Longrightarrow> mmio_pages t g \<le> mmio_pages t g'"
  by (simp add: mmio_pages_def grow_pages_mono)

text \<open>What the whole of start-up takes from the pool.\<close>

definition start_pages :: "u64 \<times> u64 \<Rightarrow> memmap_entry list \<Rightarrow> nat" where
  "start_pages k es =
     (let limit = booted_limit es; t = card (boot_tables (boot_maps limit k es)); g = Suc (List.length (entry_maps k es))
      in vm_init_pages limit k es + (mmio_pages t g + (4 + mmio_pages (t + 3) (Suc g))))"

text \<open>
  A memory map in which start-up has what it needs: sane, with enough consecutive usable pages, of
  which none is page 0, entries of representable sizes, and the stack outside usable memory.
\<close>

definition memory_ready :: "u64 \<times> u64 \<Rightarrow> memmap_entry list \<Rightarrow> memmap_entry \<Rightarrow> kernel_image \<Rightarrow> mem \<Rightarrow> bool" where
  "memory_ready k es e0 img m \<longleftrightarrow>
     memory_map_ok es e0 m \<and> 0 \<notin> usable_frames es \<and> room_for (start_pages k es) es e0 \<and>
     (\<forall>mm \<in> set (boot_maps (booted_limit es) k es). unat (mm_num_pages mm) \<le> 2 ^ 36) \<and>
     (\<forall>a. cpu_buffer img a \<longrightarrow> frame_of a \<notin> usable_frames es)"

lemma memory_map_ok_cong:
  assumes ok: "memory_map_ok es e0 m" and same: "\<forall>a. frame_of a \<in> usable_frames es \<longrightarrow> m' a = m a"
  shows "memory_map_ok es e0 m'"
proof -
  have sane: "sane_map es e0" using ok by (simp add: memory_map_ok_def)
  have "m' (PHYS_TO_VIRT (me_base e0) + of_nat (p div 8)) = m (PHYS_TO_VIRT (me_base e0) + of_nat (p div 8))"
    if "p \<le> last_page es" for p
  proof -
    have "p div 8 < unat (NUM_PAGES (map_bytes es)) * 4096"
      using div_le_mono [OF that, of 8] ok by (simp add: memory_map_ok_def)
    from bitmap_run_bytes [OF ok this bitmap_place(1) [OF sane]] bitmap_place(2) [OF sane] same
    show ?thesis by blast
  qed
  then show ?thesis using ok by (auto simp: memory_map_ok_def)
qed

lemma machine_up_kernel:
  assumes "machine_up img s t"
  shows "kernel_of t = (kernel_of s)\<lparr>ram := memory t\<rparr>"
proof -
  have "acpi t = (acpi s)\<lparr>acpi_kernel := (kernel_of s)\<lparr>ram := memory t\<rparr>\<rparr>"
    using assms unfolding machine_up_def by blast
  from arg_cong [where f = acpi_kernel, OF this] show ?thesis by (simp add: kernel_of_def)
qed

lemma memory_runs:
  assumes up: "machine_up img s s3" and fresh: "fresh_system s" and mem: "memory_ready k es e0 img (memory s)"
    and boot: "mem_req b = Some es" "kernel_addr_request b = Some k"
  defines "t \<equiv> card (boot_tables (boot_maps (booted_limit es) k es))" and "g \<equiv> Suc (List.length (entry_maps k es))"
  shows "\<exists>K. memory_init b img s3 = Some (set_kernel K s3) \<and> space_ready (booted_limit es) k es [] K \<and>
    supplied es t (mmio_pages t g + (4 + mmio_pages (t + 3) (Suc g))) (memory s3) K \<and> g + 2 < 2 ^ 40"
proof -
  let ?vm_init = "vm_init (literal img ''vm_init'') (literal img ''vm_map'') (literal img ''map_page_entry'')"
  note m = mem [unfolded memory_ready_def]
  have k3: "kernel_of s3 = (kernel_of s)\<lparr>ram := memory s3\<rparr>" by (rule machine_up_kernel [OF up])
  have ok: "memory_map_ok es e0 (memory s3)"
    by (rule memory_map_ok_cong) (use m machine_upD(1) [OF up] in blast)+
  have lists: "memory_list (kernel_addr_space (kernel_of s3)) = no_vec" "global_mem_map (kernel_of s3) = no_vec"
    using fresh by (subst k3, simp add: fresh_system_def)+
  have "room_for (vm_init_pages (booted_limit es) k es + (mmio_pages t g + (4 + mmio_pages (t + 3) (Suc g)))) es e0"
    using m by (simp add: start_pages_def Let_def t_def g_def)
  from memory_start [OF ok lists _ _ this, of "literal img ''vm_init''" "literal img ''vm_map''" "literal img ''map_page_entry''"]
    m obtain u K where u: "pm_init (Some es) (kernel_of s3) = Some u" "?vm_init (Some es) (Some k) u = Some K" and
    K: "kernel_ok K" "mem_maps K = shared_direct_map (booted_limit es) # entry_maps k es"
    "translate (ram K) (as_pml4 0 K) = fold apply_map (boot_maps (booted_limit es) k es) (\<lambda>_. None)"
    "cr3 K = VIRT_TO_PHYS (as_pml4 0 K)" and
    S: "stock (mmio_pages t g + (4 + mmio_pages (t + 3) (Suc g))) K" "0 \<notin> kernel_pool K"
    "table_paths (ram K) (as_pml4 0 K) \<subseteq> boot_tables (boot_maps (booted_limit es) k es)"
    "kernel_frames K \<subseteq> usable_frames es" "\<forall>a. frame_of a \<notin> usable_frames es \<longrightarrow> ram K a = memory s3 a"
    and l: "List.length (entry_maps k es) + 8 < 2 ^ 40" by auto
  have fin: "finite (boot_tables (boot_maps (booted_limit es) k es))"
    by (rule finite_subset [OF boot_tables_short finite_short])
  have "memory_init b img s3 = Some (set_kernel K s3)"
    using u by (simp add: memory_init_def boot on_kernel_def set_kernel_def kernel_of_def)
  moreover have "space_ready (booted_limit es) k es [] K" using K by (simp add: space_ready_def)
  moreover have "supplied es t (mmio_pages t g + (4 + mmio_pages (t + 3) (Suc g))) (memory s3) K"
    using S card_mono [OF fin S(3)] by (simp add: supplied_def agrees_def t_def)
  ultimately show ?thesis using l by (auto simp: g_def)
qed

section \<open>The platform's tables and devices\<close>

definition controllers_found :: "u64 \<Rightarrow> (u8 \<times> u8) list \<Rightarrow> acpi_state \<Rightarrow> bool" where
  "controllers_found p rs a \<longleftrightarrow>
     take (unat (num_local_apic a)) (local_apics a) = take 256 (addresses 0 (p + 44) rs) \<and>
     take (unat (num_io_apics a)) (io_apics a) = take 3 (addresses 1 (p + 44) rs)"

lemma fixed_agrees:
  assumes "machine_up img s s3" and "supplied es t r (memory s3) K"
  shows "agrees (fixed_byte es img) (memory s) (ram K)"
  using machine_upD(1) [OF assms(1)] suppliedD(5) [OF assms(2)] by (simp add: agrees_def fixed_byte_def)

lemma machine_up_acpi: "machine_up img s t \<Longrightarrow> acpi (set_kernel K t) = (acpi s)\<lparr>acpi_kernel := K\<rparr>"
  by (simp only: machine_up_def set_kernel_def) (erule conjE, simp)

lemma signed_table_cong:
  assumes "sdt s = sdt t" and "use_xsdt s = use_xsdt t" and "acpi_mem s = acpi_mem t"
  shows "signed_table lit name s p \<longleftrightarrow> signed_table lit name t p"
  using root_entries_cong [OF assms] assms(3) by (simp add: signed_table_def)

lemma acpi_stage:
  fixes s s3 :: kernel_system
  assumes up: "machine_up img s s3" and fresh: "fresh_system s" and sup: "supplied es t n (memory s3) K"
    and tabs: "firmware_tables (fixed_byte es img) lit r p rs la hp ha (memory s)"
  shows "\<exists>a. on_acpi (acpi_init lit (Some r)) (set_kernel K s3) = Some ((set_kernel K s3)\<lparr>acpi := a\<rparr>) \<and>
    acpi_kernel a = K \<and> madt a = p \<and> sdt a \<noteq> 0 \<and> controllers_found p rs a \<and> signed_table lit ''HPET'' a hp"
proof -
  let ?a = "(acpi s)\<lparr>acpi_kernel := K\<rparr>"
  define a where "a = take_records (p + 44) rs ((rooted r ?a)\<lparr>madt := p\<rparr>)"
  have ok: "acpi_tables lit r p rs ?a" "signed_table lit ''HPET'' (rooted r ?a) hp"
    using tabs fixed_agrees [OF up sup] by (simp_all add: firmware_tables_def)
  have ret: "acpi_init lit (Some r) ?a = Some a" using acpi_init_takes [OF ok(1)] by (simp add: a_def)
  have "tracked ((rooted r ?a)\<lparr>madt := p\<rparr>) [] []"
    using fresh by (simp add: tracked_def collected_def fresh_system_def)
  then have "tracked a (addresses 0 (p + 44) rs) (addresses 1 (p + 44) rs)"
    using take_records_tracked [of "(rooted r ?a)\<lparr>madt := p\<rparr>" "p + 44" rs "[]" "[]"] ok(1)
    by (simp add: a_def acpi_tables_def)
  then have "controllers_found p rs a" unfolding tracked_def collected_def controllers_found_def by blast
  moreover have "acpi_kernel a = K" "madt a = p" "sdt a = sdt (rooted r ?a)" "use_xsdt a = use_xsdt (rooted r ?a)"
    by (simp_all add: a_def)
  moreover have "sdt (rooted r ?a) \<noteq> 0" using ok(1) by (simp add: acpi_tables_def)
  moreover have "signed_table lit ''HPET'' a hp"
    using signed_table_cong [of a "rooted r ?a"] ok(2) by (simp add: a_def)
  moreover have "on_acpi (acpi_init lit (Some r)) (set_kernel K s3) = Some ((set_kernel K s3)\<lparr>acpi := a\<rparr>)"
    using ret by (simp add: on_acpi_def machine_up_acpi [OF up])
  ultimately show ?thesis by auto
qed

definition timer_maps :: "u64 option \<Rightarrow> u64 \<Rightarrow> mem_map list" where
  "timer_maps hp ha = (case hp of None \<Rightarrow> [] | Some _ \<Rightarrow> [device_map ha])"

lemma hpet_stage:
  fixes s s3 s6 :: kernel_system
  assumes up: "machine_up img s s3"
    and tabs: "firmware_tables (fixed_byte es img) lit r p rs la hp ha (memory s)"
    and dev: "devices_ready dev clock reg la ha"
    and table: "signed_table lit ''HPET'' (acpi s6) hp" "sdt (acpi s6) \<noteq> 0"
    and rdy: "space_ready limit k es [] (kernel_of s6)"
    and sup: "supplied es t (mmio_pages t (Suc (List.length (entry_maps k es))) + n) (memory s3) (kernel_of s6)"
    and l: "List.length (entry_maps k es) + 1 < 2 ^ 40"
  shows "\<exists>K u w. hpet_init dev lit f h s6 = Some (u, w) \<and>
    w = s6\<lparr>trace := trace w, hpet := hpet w, hpet_sdt := hpet_sdt w, num_hpet_comparators := num_hpet_comparators w,
      hpet_period := hpet_period w, acpi := (acpi s6)\<lparr>acpi_kernel := K\<rparr>\<rparr> \<and>
    (pic_idle (trace s6) \<longrightarrow> pic_idle (trace w)) \<and>
    space_ready limit k es (timer_maps hp ha) K \<and> supplied es (t + 3) n (memory s3) K"
proof -
  have period: "drop_bit 32 (dev x (Read64 (PHYS_TO_VIRT ha))) \<noteq> 0" for x using dev by (simp add: devices_ready_def)
  have addr: "q \<noteq> 0 \<and> hpet_address q (ram L) = ha"
    if "hp = Some q" "supplied es t' n' (memory s3) L" for q t' n' L
    using tabs fixed_agrees [OF up that(2)] that(1)
    by (auto simp: firmware_tables_def dest!: spec [of _ "(acpi s)\<lparr>acpi_kernel := L\<rparr>"])
  from space_mmio [OF rdy, of t n "memory s3" f h ha] sup l obtain L where
    L: "vm_map f h 0 (PHYS_TO_VIRT ha) ha 1 VM_MMIO (kernel_of s6) = Some L"
    "space_ready limit k es [device_map ha] L" "supplied es (t + 3) n (memory s3) L" by auto
  have found: "q \<noteq> 0 \<and> hpet_address q (memory s6) = ha \<and> hpet_address q (ram L) = ha \<and>
      vm_map f h 0 (PHYS_TO_VIRT ha) ha 1 VM_MMIO (kernel_of s6) = Some L" if "hp = Some q" for q
    using addr [OF that sup] addr [OF that L(3)] L(1) by blast
  define K where "K = (case hp of None \<Rightarrow> kernel_of s6 | Some q \<Rightarrow> L)"
  have "supplied es (t + 3) n (memory s3) (kernel_of s6)"
    using sup stock_mono [of _ "kernel_of s6" n] by (auto simp: supplied_def)
  then have "space_ready limit k es (timer_maps hp ha) K \<and> supplied es (t + 3) n (memory s3) K"
    using rdy L by (simp add: K_def timer_maps_def split: option.split)
  then show ?thesis using hpet_step [of lit s6 hp ha L f h dev, OF table found period, folded K_def] by blast
qed

text \<open>The clock and the bus come after. Nothing else is written.\<close>

definition platform_found :: "cmos \<Rightarrow> pci_device list \<Rightarrow> kernel_system \<Rightarrow> kernel_system \<Rightarrow> bool" where
  "platform_found now ds s t \<longleftrightarrow>
     t = s\<lparr>trace := trace t, hpet := hpet t, hpet_sdt := hpet_sdt t, num_hpet_comparators := num_hpet_comparators t,
       hpet_period := hpet_period t, acpi := acpi t, sys_boot_time := now, sys_devices := ds\<rparr>"

lemma platform_foundE:
  assumes "platform_found now ds s t"
  obtains tr h1 h2 h3 h4 a where "t = s\<lparr>trace := tr, hpet := h1, hpet_sdt := h2, num_hpet_comparators := h3,
    hpet_period := h4, acpi := a, sys_boot_time := now, sys_devices := ds\<rparr>"
  using assms unfolding platform_found_def by blast

lemma platform_runs:
  fixes s s3 :: kernel_system
  assumes up: "machine_up img s s3" and fresh: "fresh_system s" and boot: "rsdp_request b = Some r"
    and tabs: "firmware_tables (fixed_byte es img) (literal img) r p rs la hp ha (memory s)"
    and dev: "devices_ready dev clock reg la ha"
    and rdy: "space_ready limit k es [] K"
    and sup: "supplied es t (mmio_pages t (Suc (List.length (entry_maps k es))) + n) (memory s3) K"
    and l: "List.length (entry_maps k es) + 1 < 2 ^ 40"
  shows "\<exists>s9. platform_init b img dev (set_kernel K s3) = Some s9 \<and>
    platform_found (convert_time False (clock 0x0B) (clock_reading clock))
      (sys_devices s @ concat (map (\<lambda>d. devices_of reg 0 (of_nat d)) [0..<32])) s3 s9 \<and>
    pic_idle (trace s9) \<and> madt (acpi s9) = p \<and> controllers_found p rs (acpi s9) \<and>
    space_ready limit k es (timer_maps hp ha) (kernel_of s9) \<and> supplied es (t + 3) n (memory s3) (kernel_of s9)"
proof -
  let ?lit = "literal img"
  let ?f = "?lit ''vm_map''" and ?h = "?lit ''map_page_entry''"
  have idle: "pic_idle (trace s3)" and devs: "sys_devices s3 = sys_devices s" by (fact machine_upD [OF up])+
  from acpi_stage [OF up fresh sup tabs] obtain a where
    r6: "on_acpi (acpi_init ?lit (Some r)) (set_kernel K s3) = Some ((set_kernel K s3)\<lparr>acpi := a\<rparr>)"
    and a: "acpi_kernel a = K" "madt a = p" "sdt a \<noteq> 0" "controllers_found p rs a" "signed_table ?lit ''HPET'' a hp" by blast
  define s6 where "s6 = s3\<lparr>acpi := a\<rparr>"
  have k6: "kernel_of s6 = K" "acpi s6 = a" "trace s6 = trace s3" by (simp_all add: s6_def kernel_of_def a(1))
  from hpet_stage [OF up tabs dev, of s6 limit k t n ?f ?h, unfolded k6, OF a(5,3) rdy sup l] obtain L u w where
    r7: "hpet_init dev ?lit ?f ?h s6 = Some (u, w)" and
    w: "w = s6\<lparr>trace := trace w, hpet := hpet w, hpet_sdt := hpet_sdt w, num_hpet_comparators := num_hpet_comparators w,
      hpet_period := hpet_period w, acpi := a\<lparr>acpi_kernel := L\<rparr>\<rparr>" "pic_idle (trace w)"
    "space_ready limit k es (timer_maps hp ha) L" "supplied es (t + 3) n (memory s3) L"
    using idle by blast
  have cd: "clock_answers dev clock" "config_space dev reg"
    "\<forall>d < 32. function_present reg 0 (of_nat d) 0 \<longrightarrow> class_of reg 0 (of_nat d) \<noteq> 0"
    using dev by (simp_all add: devices_ready_def)
  let ?now = "convert_time False (clock 0x0B) (clock_reading clock)"
  let ?ds = "concat (map (\<lambda>d. devices_of reg 0 (of_nat d)) [0..<32])"
  from rtc_step [OF cd(1), of w] w(2) obtain t8 where
    r8: "on_rtc (cmos_init dev) w = Some (w\<lparr>trace := t8, sys_boot_time := ?now\<rparr>)" "pic_idle t8" by blast
  let ?s8 = "w\<lparr>trace := t8, sys_boot_time := ?now\<rparr>"
  from pci_step [OF cd(2,3), of ?s8] r8(2) obtain t9 where
    r9: "on_pci (pci_init dev) ?s8 = Some (?s8\<lparr>trace := t9, sys_devices := sys_devices ?s8 @ ?ds\<rparr>)" "pic_idle t9"
    by (auto simp del: upt_rec_numeral)
  define s9 where "s9 = ?s8\<lparr>trace := t9, sys_devices := sys_devices ?s8 @ ?ds\<rparr>"
  obtain t7 h1 h2 h3 h4 where w': "w = s6\<lparr>trace := t7, hpet := h1, hpet_sdt := h2, num_hpet_comparators := h3,
      hpet_period := h4, acpi := a\<lparr>acpi_kernel := L\<rparr>\<rparr>" using w(1) by blast
  have "platform_found ?now (sys_devices s @ ?ds) s3 s9"
    by (simp add: platform_found_def s9_def w' s6_def devs del: upt_rec_numeral)
  moreover have "(set_kernel K s3)\<lparr>acpi := a\<rparr> = s6" by (simp add: set_kernel_def s6_def)
  then have "platform_init b img dev (set_kernel K s3) = Some s9"
    using r6 r7 r8(1) r9(1) by (simp add: platform_init_def boot s9_def del: upt_rec_numeral)
  moreover have s9: "acpi s9 = a\<lparr>acpi_kernel := L\<rparr>" "trace s9 = t9"
    by (simp_all add: s9_def w' del: upt_rec_numeral)
  then have "pic_idle (trace s9)" "madt (acpi s9) = p" "controllers_found p rs (acpi s9)" "kernel_of s9 = L"
    using r9(2) a(2,4) by (simp_all add: controllers_found_def kernel_of_def)
  ultimately show ?thesis using w(3,4) by (intro exI [of _ s9] conjI) (assumption | simp only:)+
qed

section \<open>The console\<close>

lemma font_file_cong:
  assumes "font_file P path modules f m" and "agrees P m m'"
  shows "font_file P path modules f m'"
proof -
  let ?h = "file_address f"
  have same: "m' a = m a" if "P a" for a using assms(2) that by (simp add: agrees_def)
  have b: "P (?h + of_nat i)" if "i < 4" for i using assms(1) that by (auto simp: font_file_def)
  then have "load16 ?h m' = load16 ?h m"
    using same by (auto simp: load16_def elim!: in_rangeE intro!: arg_cong [where f = ucast] load_le_cong)
  moreover have "m' (?h + 3) = m (?h + 3)" using same b [of 3] by simp
  ultimately show ?thesis using assms(1) same by (simp add: font_file_def)
qed

text \<open>The answer of the loader, the font and the terminal.\<close>

lemma screen_runs:
  fixes s s3 s9 :: kernel_system
  assumes up: "machine_up img s s3" and rdy: "space_ready limit k es ms (kernel_of s9)"
    and sup: "supplied es t (4 + n) (memory s3) (kernel_of s9)"
    and boot: "framebuffer_req b = Some (Some fb # fbs)" "psf_file_request b = Some modules"
    and fnt: "font_file (fixed_byte es img) (literal img ''zap-vga16.psf'') modules f (memory s)"
  shows "\<exists>fb' fo te K. screen_init b img s9 =
      Some (s9\<lparr>initial_fb := fb', sys_font := fo, acpi := (acpi s9)\<lparr>acpi_kernel := K\<rparr>, sys_term := te\<rparr>) \<and>
    fb_base fb' = fb_base fb \<and> glyph_buffer fo = file_address f + 4 \<and> t_framebuffer te = fb' \<and> cursor_pos te = IVEC2_ONE \<and>
    (16 \<le> unat (fb_width fb) \<and> unat (fb_width fb) < 2 ^ 31 \<longrightarrow> cursor_ok te) \<and>
    space_ready limit k es ms K \<and> supplied es t n (memory s3) K"
proof -
  let ?L = "kernel_of s9" and ?lit = "literal img"
  obtain fb' where fb: "fb_init (framebuffer_req b) (initial_fb s9) = Some fb'" "fb_base fb' = fb_base fb"
    "fb_width fb' = fb_width fb" by (simp add: fb_init_def boot)
  have ok: "kernel_ok ?L" using rdy by (simp add: space_ready_def)
  have fixed: "frame_of a \<notin> kernel_frames ?L" if "fixed_byte es img a" for a
    using that suppliedD(4) [OF sup] by (auto simp: fixed_byte_def)
  note fnt' = font_file_cong [OF fnt fixed_agrees [OF up sup]]
  from font_step [OF ok suppliedD(3) [OF sup] fixed fnt', of "?lit ''psf1_font_init''" "?lit ''psf1_font_mode''" "sys_font s9"]
  obtain K p where
    K: "psf1_font_init (?lit ''psf1_font_init'') (?lit ''psf1_font_mode'') (psf_file_request b) (?lit ''zap-vga16.psf'')
      \<lparr>font_kernel = ?L, psf_font = sys_font s9\<rparr> =
      Some \<lparr>font_kernel = K, psf_font = (sys_font s9)\<lparr>font_header := p, glyph_buffer := file_address f + 4\<rparr>\<rparr>"
    "quiet_step ?L K" "stock n K" "p \<noteq> 0" "ram K (p + 3) = ram ?L (file_address f + 3)" unfolding boot(2) by blast
  let ?fo = "(sys_font s9)\<lparr>font_header := p, glyph_buffer := file_address f + 4\<rparr>"
  have "character_size ?fo (ram K) \<noteq> 0" using fnt' K(5) by (simp add: font_file_def character_size_def)
  then obtain te where te: "init_terminal fb' ?fo (ram K) (sys_term s9) = Some te" "t_framebuffer te = fb'"
    "cursor_pos te = IVEC2_ONE"
    using K(4) by (simp add: init_terminal_def Let_def)
  have "screen_init b img s9 =
      Some (s9\<lparr>initial_fb := fb', sys_font := ?fo, acpi := (acpi s9)\<lparr>acpi_kernel := K\<rparr>, sys_term := te\<rparr>)"
    using fb(1) K(1) te(1) by (simp add: screen_init_def on_font_def kernel_of_def set_kernel_def)
  moreover have "16 \<le> unat (fb_width fb) \<and> unat (fb_width fb) < 2 ^ 31 \<longrightarrow> cursor_ok te"
    using init_cursor_ok [OF te(1)] K(4) fb(3) by simp
  ultimately show ?thesis using fb(2) te(2,3) space_quiet [OF rdy sup K(2,3)]
    by (intro exI conjI) (assumption, simp_all)
qed

text \<open>The controller, the timer and the keyboard.\<close>

lemma interrupt_steps:
  assumes dev: "devices_ready dev clock reg la ha" and tables: "tables_ok s" and idle: "pic_idle (trace s)"
    and none: "g_irq_handler s = replicate 16 None"
  shows "\<exists>u. on_console (keyboard_init dev) (irq_init dev s) = Some u \<and>
    u = s\<lparr>trace := trace u, interrupts_on := True, g_pic_mask := g_pic_mask u, system_time := system_time u,
      preempt_quantum := preempt_quantum u, g_idt := g_idt u, idt_loaded := idt_loaded u,
      g_isr_handlers := g_isr_handlers u, g_irq_handler := [Some CLKHANDLER, Some KBHANDLER] @ replicate 14 None\<rparr> \<and>
    keeps_gates s u \<and> in_sync 0x20 0x28 u \<and> masked (g_pic_mask u) = {2..<16} \<and>
    (\<forall>j < 16. g_isr_handlers u ! (32 + j) = Some IRQ_HANDLER)"
proof -
  let ?i = "irq_init dev s"
  have hw: "masks_readable dev" and quiet: "ucast (dev t (In8 0x64)) AND (0x01 :: u8) = 0" for t
    using dev by (simp_all add: devices_ready_def)
  have "fst (pic_probe dev (disable_interrupts s))"
    by (rule pic_probe_idle [OF hw]) (use idle in \<open>simp add: disable_interrupts_def\<close>)
  note i = irq_init_found [OF this tables]
  obtain t where u: "on_console (keyboard_init dev) ?i = Some (?i\<lparr>trace := t, interrupts_on := True,
      g_irq_handler := (g_irq_handler ?i)[1 := Some KBHANDLER], g_pic_mask := g_pic_mask ?i AND NOT (push_bit 1 1)\<rparr>)"
    and sync: "in_sync 0x20 0x28 (?i\<lparr>trace := t, g_pic_mask := g_pic_mask ?i AND NOT (push_bit 1 1)\<rparr>)"
    using keyboard_step [of dev ?i "0x20" "0x28", OF quiet] i(5) by blast
  define u where "u = ?i\<lparr>trace := t, interrupts_on := True, g_irq_handler := (g_irq_handler ?i)[1 := Some KBHANDLER],
      g_pic_mask := g_pic_mask ?i AND NOT (push_bit 1 1)\<rparr>"
  have "irq_state.more u = irq_state.more s" using irq_init_more [of dev s] by (simp add: u_def)
  note more = irq_more_update [OF this]
  have h: "g_irq_handler u = [Some CLKHANDLER, Some KBHANDLER] @ replicate 14 None"
    by (simp add: u_def i(4) none numeral_eq_Suc)
  have "masked (g_pic_mask u) = {1..<16} - {1}" using masked_unmask [of 1 "g_pic_mask ?i"] i(6) by (simp add: u_def)
  moreover have "{1..<16 :: nat} - {1} = {2..<16}" by auto
  ultimately have "masked (g_pic_mask u) = {2..<16}" by (rule trans)
  moreover have "keeps_gates s u"
    using keeps_gates_trans [OF irq_init_gates keeps_gates_idt, of u dev s] by (simp add: u_def)
  moreover have "in_sync 0x20 0x28 u" using sync by (simp add: in_sync_def u_def)
  moreover have "\<forall>j < 16. g_isr_handlers u ! (32 + j) = Some IRQ_HANDLER" using i(3) by (simp add: u_def)
  moreover have "interrupts_on u" by (simp add: u_def)
  moreover have "on_console (keyboard_init dev) ?i = Some u" unfolding u_def by (rule u)
  ultimately show ?thesis using more h by (intro exI [of _ u]) simp
qed

section \<open>The whole\<close>

definition interrupts_ready :: "kernel_image \<Rightarrow> kernel_system \<Rightarrow> bool" where
  "interrupts_ready img s \<longleftrightarrow> interrupts_on s \<and> sys_gdt s = [gdt_fill zero_table] \<and> sys_gdtr s = Some (71, 0) \<and>
     (\<forall>i < 256. gate_target (g_idt s ! i) = ISR_stub img i \<and> (i \<noteq> 0x80 \<longrightarrow> gate_present (g_idt s ! i))) \<and>
     (\<forall>j < 16. g_isr_handlers s ! (32 + j) = Some IRQ_HANDLER) \<and>
     g_irq_handler s = [Some CLKHANDLER, Some KBHANDLER] @ replicate 14 None \<and>
     in_sync 0x20 0x28 s \<and> masked (g_pic_mask s) = {2..<16}"

lemma in_sync_chips:
  assumes "in_sync o1 o2 s" and "\<forall>c d. chip_of c d (trace t) = chip_of c d (trace s)" and "g_pic_mask t = g_pic_mask s"
  shows "in_sync o1 o2 t"
  using assms by (simp add: in_sync_def running_def hw_mask_def)

text \<open>The local controller, on a state \<open>u\<close> that start-up has reached.\<close>

lemma apic_stage:
  fixes s s3 u :: kernel_system
  assumes up: "machine_up img s s3" and dev: "devices_ready dev clock reg la ha"
    and tabs: "firmware_tables (fixed_byte es img) lit r p rs la hp ha (memory s)"
    and apic: "local_apic_ready hw u" and two: "two_acpi_enabled u = 0" and madt: "madt (acpi u) = p"
    and rdy: "space_ready limit k es ms (kernel_of u)"
    and sup: "supplied es t (mmio_pages t (Suc (List.length (entry_maps k es) + List.length ms)) + n) (memory s3) (kernel_of u)"
    and l: "List.length (entry_maps k es) + List.length ms + 1 < 2 ^ 40"
  shows "\<exists>x K. apic_init dev hw func mpe_func u =
      Some (u\<lparr>trace := x, local_apic_base := PHYS_TO_VIRT la, acpi := (acpi u)\<lparr>acpi_kernel := K\<rparr>\<rparr>) \<and>
    (\<forall>c d. chip_of c d x = chip_of c d (trace u)) \<and> last_write32 (PHYS_TO_VIRT la + 0xF0) x = Some 0x127 \<and>
    space_ready limit k es (ms @ [device_map la]) K \<and> supplied es (t + 3) n (memory s3) K"
proof -
  from space_mmio [OF rdy sup l, of func mpe_func la] obtain K where
    K: "vm_map func mpe_func 0 (PHYS_TO_VIRT la) la 1 VM_MMIO (kernel_of u) = Some K"
    "space_ready limit k es (ms @ [device_map la]) K" "supplied es (t + 3) n (memory s3) K" by blast
  have cpu: "check_2xapic_exists hw \<noteq> 0 \<or> check_apic_exists hw \<noteq> 0"
    "(ucast (read_msr IA32_APIC_BASE_MSR u) :: u32) AND IA32_APIC_BASE_MSR_X2APIC = 0"
    using apic by (simp_all add: local_apic_ready_def)
  have "agrees (fixed_byte es img) (memory s) (acpi_mem (acpi u))"
    using fixed_agrees [OF up sup] by (simp add: kernel_of_def)
  then have f: "ucast (madt_lapic_address p (acpi_mem (acpi u))) = la" "PHYS_TO_VIRT la \<noteq> 0"
    using tabs unfolding firmware_tables_def by blast+
  then have la: "madt_get_local_apic_base (acpi u) = la" using madt by (simp add: madt_get_local_apic_base_def)
  have err: "(ucast (dev x (Read32 (PHYS_TO_VIRT la + 0x280))) :: u32) AND 0xFF = 0" for x
    using dev by (simp add: devices_ready_def)
  from apic_step [of hw u la func mpe_func K dev, OF cpu two la f(2) K(1) err] K(2,3) show ?thesis by blast
qed

text \<open>Hardware interrupts, the keyboard and the local controller.\<close>

lemma input_runs:
  fixes s s3 s9 :: kernel_system and fb :: framebuffer and fo :: psf1_font and te :: terminal
  assumes up: "machine_up img s s3" and dev: "devices_ready dev clock reg la ha" and apic: "local_apic_ready hw s"
    and tabs: "firmware_tables (fixed_byte es img) (literal img) r p rs la hp ha (memory s)" and fresh: "fresh_system s"
    and found: "platform_found now ds s3 s9" and idle: "pic_idle (trace s9)" and madt: "madt (acpi s9) = p"
    and rdy: "space_ready limit k es (timer_maps hp ha) L"
    and sup: "supplied es t (mmio_pages t (Suc (Suc (List.length (entry_maps k es))))) (memory s3) L"
    and l: "List.length (entry_maps k es) + 3 < 2 ^ 40"
  defines "s12 \<equiv> s9\<lparr>initial_fb := fb, sys_font := fo, acpi := (acpi s9)\<lparr>acpi_kernel := L\<rparr>, sys_term := te\<rparr>"
  shows "\<exists>s15 K. input_init img dev hw s12 = Some s15 \<and> interrupts_ready img s15 \<and>
    kernel_of s15 = K \<and> space_ready limit k es (timer_maps hp ha @ [device_map la]) K \<and>
    agrees (fixed_byte es img) (memory s) (ram K) \<and>
    local_apic_base s15 = PHYS_TO_VIRT la \<and> last_write32 (PHYS_TO_VIRT la + 0xF0) (trace s15) = Some 0x127 \<and>
    acpi s15 = (acpi s9)\<lparr>acpi_kernel := K\<rparr> \<and> sys_boot_time s15 = now \<and> sys_devices s15 = ds \<and> initial_fb s15 = fb \<and>
    sys_font s15 = fo \<and> sys_term s15 = te"
proof -
  let ?ms = "timer_maps hp ha" and ?vm = "literal img ''vm_map''" and ?mpe = "literal img ''map_page_entry''"
  obtain tr h1 h2 h3 h4 a where s9: "s9 = s3\<lparr>trace := tr, hpet := h1, hpet_sdt := h2, num_hpet_comparators := h3,
      hpet_period := h4, acpi := a, sys_boot_time := now, sys_devices := ds\<rparr>"
    by (rule platform_foundE [OF found])
  note s12 = s12_def [unfolded s9]
  have short: "List.length ?ms \<le> 1" by (simp add: timer_maps_def split: option.split)
  have t12: "tables_ok s12" "pic_idle (trace s12)" "g_irq_handler s12 = replicate 16 None"
    using machine_upD(2,5) [OF up] fresh idle by (simp_all add: s12 s9 tables_ok_def fresh_system_def)
  from interrupt_steps [OF dev t12] obtain u where
    r14: "on_console (keyboard_init dev) (irq_init dev s12) = Some u" and
    u: "u = s12\<lparr>trace := trace u, interrupts_on := True, g_pic_mask := g_pic_mask u, system_time := system_time u,
      preempt_quantum := preempt_quantum u, g_idt := g_idt u, idt_loaded := idt_loaded u,
      g_isr_handlers := g_isr_handlers u, g_irq_handler := [Some CLKHANDLER, Some KBHANDLER] @ replicate 14 None\<rparr>"
    "keeps_gates s12 u" "in_sync 0x20 0x28 u" "masked (g_pic_mask u) = {2..<16}"
    "\<forall>j < 16. g_isr_handlers u ! (32 + j) = Some IRQ_HANDLER" by blast
  obtain x1 x2 x3 x4 x5 x6 x7 where x: "u = s12\<lparr>trace := x1, interrupts_on := True, g_pic_mask := x2, system_time := x3,
      preempt_quantum := x4, g_idt := x5, idt_loaded := x6, g_isr_handlers := x7,
      g_irq_handler := [Some CLKHANDLER, Some KBHANDLER] @ replicate 14 None\<rparr>" using u(1) by blast
  have au: "acpi u = a\<lparr>acpi_kernel := L\<rparr>" "kernel_of u = L" by (simp_all add: x s12 kernel_of_def)
  have "local_apic_ready hw u"
    using machine_upD(10) [OF up apic] by (subst local_apic_ready_cong [of _ s3]) (simp_all add: x s12)
  moreover have "two_acpi_enabled u = 0" using machine_upD(9) [OF up] fresh by (simp add: x s12 fresh_system_def)
  moreover have "madt (acpi u) = p" using madt by (simp add: au s9)
  moreover have "supplied es t (mmio_pages t (Suc (List.length (entry_maps k es) + List.length ?ms)) + 0) (memory s3) L"
    by (rule supplied_mono [OF sup]) (use mmio_pages_mono short in simp)
  moreover have "List.length (entry_maps k es) + List.length ?ms + 1 < 2 ^ 40" using l short by linarith
  ultimately obtain t15 K where
    r15: "apic_init dev hw ?vm ?mpe u = Some (u\<lparr>trace := t15, local_apic_base := PHYS_TO_VIRT la,
      acpi := (acpi u)\<lparr>acpi_kernel := K\<rparr>\<rparr>)" "\<forall>c d. chip_of c d t15 = chip_of c d (trace u)"
    "last_write32 (PHYS_TO_VIRT la + 0xF0) t15 = Some 0x127"
    and K: "space_ready limit k es (?ms @ [device_map la]) K" "supplied es (t + 3) 0 (memory s3) K"
    using apic_stage [OF up dev tabs, of hw u limit k ?ms t 0 ?vm ?mpe] rdy unfolding au by blast
  define s15 where "s15 = u\<lparr>trace := t15, local_apic_base := PHYS_TO_VIRT la, acpi := (acpi u)\<lparr>acpi_kernel := K\<rparr>\<rparr>"
  have "gate_target (g_idt u ! i) = ISR_stub img i \<and> (i \<noteq> 0x80 \<longrightarrow> gate_present (g_idt u ! i))" if "i < 256" for i
    using that u(2) machine_upD(2-4) [OF up] by (simp add: keeps_gates_def s12 tables_ok_def)
  moreover have "in_sync 0x20 0x28 s15" by (rule in_sync_chips [OF u(3)]) (use r15(2) in \<open>simp_all add: s15_def\<close>)
  moreover have "interrupts_on s15" "sys_gdt s15 = [gdt_fill zero_table]" "sys_gdtr s15 = Some (71, 0)"
    "g_irq_handler s15 = [Some CLKHANDLER, Some KBHANDLER] @ replicate 14 None"
    "g_idt s15 = g_idt u" "g_isr_handlers s15 = g_isr_handlers u" "g_pic_mask s15 = g_pic_mask u"
    using machine_upD(7,8) [OF up] by (simp_all add: s15_def x s12)
  ultimately have "interrupts_ready img s15" using u(4,5) by (simp add: interrupts_ready_def)
  moreover have "agrees (fixed_byte es img) (memory s) (ram K)" by (rule fixed_agrees [OF up K(2)])
  moreover have "kernel_of s15 = K" "acpi s15 = (acpi s9)\<lparr>acpi_kernel := K\<rparr>" "trace s15 = t15"
    "local_apic_base s15 = PHYS_TO_VIRT la" "sys_boot_time s15 = now" "sys_devices s15 = ds" "initial_fb s15 = fb"
    "sys_font s15 = fo" "sys_term s15 = te"
    by (simp_all add: s15_def au x s12 s9 kernel_of_def)
  moreover have "input_init img dev hw s12 = Some s15" using r14 r15(1) by (simp add: input_init_def s15_def)
  ultimately show ?thesis using r15(3) K(1)
    by - (rule exI [of _ s15], rule exI [of _ K], simp)
qed

lemma system_init_runs:
  fixes s :: kernel_system and b :: boot_info and img :: kernel_image and dev :: hardware and hw :: cpu_hw
  assumes "fresh_system s" and "base_revision_supported b" and "bl_info_req b \<noteq> None"
    and "mem_req b = Some es" and "kernel_addr_request b = Some k" and "rsdp_request b = Some r"
    and "framebuffer_req b = Some (Some fb # fbs)" and "psf_file_request b = Some modules"
    and "memory_ready k es e0 img (memory s)"
    and "firmware_tables (fixed_byte es img) (literal img) r p rs la hp ha (memory s)"
    and "font_file (fixed_byte es img) (literal img ''zap-vga16.psf'') modules f (memory s)"
    and "devices_ready dev clock reg la ha" and "local_apic_ready hw s"
  shows "\<exists>s'. system_init b img dev hw s = Some s' \<and> interrupts_ready img s' \<and>
    space_ready (booted_limit es) k es (timer_maps hp ha @ [device_map la]) (kernel_of s') \<and>
    agrees (fixed_byte es img) (memory s) (memory s') \<and> controllers_found p rs (acpi s') \<and>
    local_apic_base s' = PHYS_TO_VIRT la \<and> last_write32 (PHYS_TO_VIRT la + 0xF0) (trace s') = Some 0x127 \<and>
    sys_boot_time s' = convert_time False (clock 0x0B) (clock_reading clock) \<and>
    sys_devices s' = sys_devices s @ concat (map (\<lambda>d. devices_of reg 0 (of_nat d)) [0..<32]) \<and>
    fb_base (initial_fb s') = fb_base fb \<and> glyph_buffer (sys_font s') = file_address f + 4 \<and>
    t_framebuffer (sys_term s') = initial_fb s' \<and> cursor_pos (sys_term s') = IVEC2_ONE \<and>
    (16 \<le> unat (fb_width fb) \<and> unat (fb_width fb) < 2 ^ 31 \<longrightarrow> cursor_ok (sys_term s'))"
proof -
  let ?limit = "booted_limit es"
  let ?t = "card (boot_tables (boot_maps ?limit k es))" and ?g = "Suc (List.length (entry_maps k es))"
  let ?now = "convert_time False (clock 0x0B) (clock_reading clock)"
  let ?ds = "sys_devices s @ concat (map (\<lambda>d. devices_of reg 0 (of_nat d)) [0..<32])"
  from processor_runs [OF assms(1)] obtain s3 where e1: "processor_init img dev hw s = Some s3"
    and up: "machine_up img s s3" by blast
  from memory_runs [OF up assms(1,9,4,5)] obtain K where e2: "memory_init b img s3 = Some (set_kernel K s3)"
    and K: "space_ready ?limit k es [] K"
    "supplied es ?t (mmio_pages ?t ?g + (4 + mmio_pages (?t + 3) (Suc ?g))) (memory s3) K" "?g + 2 < 2 ^ 40" by blast
  from platform_runs [OF up assms(1,6,10,12) K(1,2)] K(3) obtain s9 where
    e3: "platform_init b img dev (set_kernel K s3) = Some s9" and p9: "platform_found ?now ?ds s3 s9" and
    f9: "pic_idle (trace s9)" "madt (acpi s9) = p" "controllers_found p rs (acpi s9)"
    "space_ready ?limit k es (timer_maps hp ha) (kernel_of s9)"
    "supplied es (?t + 3) (4 + mmio_pages (?t + 3) (Suc ?g)) (memory s3) (kernel_of s9)" by auto
  from screen_runs [OF up f9(4,5) assms(7,8,11)] obtain fb' fo te L where
    e4: "screen_init b img s9 =
      Some (s9\<lparr>initial_fb := fb', sys_font := fo, acpi := (acpi s9)\<lparr>acpi_kernel := L\<rparr>, sys_term := te\<rparr>)"
    and f12: "fb_base fb' = fb_base fb" "glyph_buffer fo = file_address f + 4" "t_framebuffer te = fb'"
    "cursor_pos te = IVEC2_ONE" "16 \<le> unat (fb_width fb) \<and> unat (fb_width fb) < 2 ^ 31 \<longrightarrow> cursor_ok te"
    "space_ready ?limit k es (timer_maps hp ha) L"
    "supplied es (?t + 3) (mmio_pages (?t + 3) (Suc ?g)) (memory s3) L" by blast
  from input_runs [OF up assms(12,13,10,1) p9 f9(1,2) f12(6,7)] K(3) obtain s15 M where
    e5: "input_init img dev hw
      (s9\<lparr>initial_fb := fb', sys_font := fo, acpi := (acpi s9)\<lparr>acpi_kernel := L\<rparr>, sys_term := te\<rparr>) = Some s15"
    and f15: "interrupts_ready img s15" "kernel_of s15 = M" "space_ready ?limit k es (timer_maps hp ha @ [device_map la]) M"
    "agrees (fixed_byte es img) (memory s) (ram M)" "local_apic_base s15 = PHYS_TO_VIRT la"
    "last_write32 (PHYS_TO_VIRT la + 0xF0) (trace s15) = Some 0x127" "acpi s15 = (acpi s9)\<lparr>acpi_kernel := M\<rparr>"
    "sys_boot_time s15 = ?now" "sys_devices s15 = ?ds" "initial_fb s15 = fb'" "sys_font s15 = fo" "sys_term s15 = te"
    by (fastforce simp del: upt_rec_numeral)
  have "system_init b img dev hw s = Some s15" by (simp add: system_init_stages [OF assms(2,3)] e1 e2 e3 e4 e5)
  moreover have "controllers_found p rs (acpi s15)" using f9(3) by (simp add: f15(7) controllers_found_def)
  ultimately show ?thesis using f15 f12 by (intro exI [of _ s15]) (simp del: upt_rec_numeral)
qed
end
