(* ===== verification/System_Properties.thy ===== *)
theory System_Properties
  imports System_Boot
begin

text \<open>
  What the system is after \<^verbatim>\<open>system_init\<close>, with a concrete machine that starts.
\<close>

section \<open>A machine that starts\<close>

text \<open>
  One megabyte of usable memory at 1 MB, the kernel's image at 64 kB, and short literals at low
  addresses. The processor's strings go to the stack at \<open>0x8000\<close>.
\<close>

definition boot_entries :: "memmap_entry list" where
  "boot_entries =
     [\<lparr>me_base = 0x10000, me_length = 0x2000, me_type = LIMINE_MEMMAP_KERNEL_AND_MODULES\<rparr>,
      \<lparr>me_base = 0x100000, me_length = 0x100000, me_type = LIMINE_MEMMAP_USABLE\<rparr>]"












lemma boot_limit [simp]: "booted_limit boot_entries = 0x200000"
proof -
  have "{e \<in> set boot_entries. ENTRY_TYPE_CHECK e} = set boot_entries"
    by (auto simp: boot_entries_def ENTRY_TYPE_CHECK_def)
  then show ?thesis by (simp add: booted_limit_def boot_entries_def)
qed




























section \<open>The running system\<close>




section \<open>The idle loop\<close>





end
